(* ===== verification/Prelude.thy ===== *)
theory Prelude
  imports Main "HOL-Library.Word" "HOL-Library.Sublist"
begin

text \<open>
  Shared vocabulary of the development.  The program is callback-driven C++: an operation
  mutates objects, may throw, and (in two loops) may fail to return.  Such an operation is a
  function from the state to an outcome and the new state.  The state is kept when an
  exception leaves the operation, as it is in C++.

  The theory also fixes how total correctness is stated: \<open>runs m s P\<close> says that \<open>m\<close>
  started in \<open>s\<close> returns (it neither throws nor runs on for ever) and that \<open>P\<close> holds of
  its value and of the state it leaves.  The rules in \<open>prog_simps\<close> compute \<open>runs\<close> through
  sequential composition, so that simplification executes a program symbolically.
\<close>

named_theorems prog_simps "equations that execute programs symbolically"
named_theorems runs_intros "introduction rules for the library calls under runs"

section \<open>Outcomes and programs\<close>

datatype ('e, 'a) outcome = Return 'a | Throw 'e | Diverge

type_synonym ('s, 'e, 'a) prog = "'s \<Rightarrow> ('e, 'a) outcome \<times> 's"

definition ret :: "'a \<Rightarrow> ('s, 'e, 'a) prog" where
  "ret x = (\<lambda>s. (Return x, s))"

definition raise :: "'e \<Rightarrow> ('s, 'e, 'a) prog" where
  "raise e = (\<lambda>s. (Throw e, s))"

definition diverge :: "('s, 'e, 'a) prog" where
  "diverge = (\<lambda>s. (Diverge, s))"

definition gets :: "('s \<Rightarrow> 'a) \<Rightarrow> ('s, 'e, 'a) prog" where
  "gets f = (\<lambda>s. (Return (f s), s))"

definition modify :: "('s \<Rightarrow> 's) \<Rightarrow> ('s, 'e, unit) prog" where
  "modify f = (\<lambda>s. (Return (), f s))"

definition andthen :: "('s, 'e, 'a) prog \<Rightarrow> ('a \<Rightarrow> ('s, 'e, 'b) prog) \<Rightarrow> ('s, 'e, 'b) prog" where
  "andthen m f = (\<lambda>s. case m s of
      (Return x, t) \<Rightarrow> f x t
    | (Throw e, t) \<Rightarrow> (Throw e, t)
    | (Diverge, t) \<Rightarrow> (Diverge, t))"

abbreviation followed_by :: "('s, 'e, 'a) prog \<Rightarrow> ('s, 'e, 'b) prog \<Rightarrow> ('s, 'e, 'b) prog" where
  "followed_by m n \<equiv> andthen m (\<lambda>_. n)"

lemma ret_run [prog_simps]: "ret x s = (Return x, s)"
  and raise_run [prog_simps]: "raise e s = (Throw e, s)"
  and diverge_run [prog_simps]: "diverge s = (Diverge, s)"
  and gets_run [prog_simps]: "gets f s = (Return (f s), s)"
  and modify_run [prog_simps]: "modify g s = (Return (), g s)"
  by (simp_all add: ret_def raise_def diverge_def gets_def modify_def)

lemma andthen_run [prog_simps]:
  "andthen m f s = (case m s of
      (Return x, t) \<Rightarrow> f x t | (Throw e, t) \<Rightarrow> (Throw e, t) | (Diverge, t) \<Rightarrow> (Diverge, t))"
  by (simp add: andthen_def)

lemma andthen_ret: "andthen (ret x) f = f x"
  by (rule ext) (simp add: prog_simps)

lemma andthen_ret_right: "andthen m ret = m"
  by (rule ext) (simp add: prog_simps split: prod.splits outcome.splits)

lemma followed_by_ret: "followed_by m (ret ()) = m"
  by (rule ext) (simp add: prog_simps split: prod.splits outcome.splits)

lemma andthen_assoc: "andthen (andthen m f) g = andthen m (\<lambda>x. andthen (f x) g)"
  by (rule ext) (simp add: prog_simps split: prod.splits outcome.splits)

lemma andthen_raise: "andthen (raise e) f = raise e"
  by (rule ext) (simp add: prog_simps)

section \<open>Total correctness\<close>

definition runs :: "('s, 'e, 'a) prog \<Rightarrow> 's \<Rightarrow> ('a \<Rightarrow> 's \<Rightarrow> bool) \<Rightarrow> bool" where
  "runs m s P = (case m s of (Return x, t) \<Rightarrow> P x t | _ \<Rightarrow> False)"

lemma runs_ret [prog_simps]: "runs (ret x) s P = P x s"
  and runs_raise [prog_simps]: "runs (raise e) s P = False"
  and runs_gets [prog_simps]: "runs (gets f) s P = P (f s) s"
  and runs_modify [prog_simps]: "runs (modify g) s Q = Q () (g s)"
  by (simp_all add: runs_def prog_simps)

lemma runs_andthen [prog_simps]:
  "runs (andthen m f) s P = runs m s (\<lambda>x t. runs (f x) t P)"
  by (simp add: runs_def prog_simps split: prod.splits outcome.splits)

lemma runs_if [prog_simps]:
  "runs (if b then m else n) s P = (if b then runs m s P else runs n s P)"
  by simp

lemma runs_mono:
  "runs m s P \<Longrightarrow> (\<And>x t. P x t \<Longrightarrow> Q x t) \<Longrightarrow> runs m s Q"
  by (auto simp: runs_def split: prod.splits outcome.splits)

lemma runs_conj: "runs m s P \<Longrightarrow> runs m s Q \<Longrightarrow> runs m s (\<lambda>x t. P x t \<and> Q x t)"
  by (auto simp: runs_def split: prod.splits outcome.splits)

lemma runs_then_mono:
  assumes "runs m s (\<lambda>x t. A x t \<and> runs (n x) t (B x))" and "\<And>x y u. B x y u \<Longrightarrow> C x y u"
  shows "runs m s (\<lambda>x t. A x t \<and> runs (n x) t (C x))"
  using assms by (auto elim!: runs_mono)

lemma runs_seq:
  assumes "runs m s (\<lambda>_. A)" and "\<And>t. A t \<Longrightarrow> runs n t P"
  shows "runs (followed_by m n) s P"
  unfolding runs_andthen by (rule runs_mono [OF assms(1)]) (rule assms(2))

lemma runs_chain:
  "runs (followed_by m n) s (\<lambda>_ t. runs k t P) \<Longrightarrow> runs (followed_by m (followed_by n k)) s P"
  by (simp add: runs_andthen)

lemma runsI: "m s = (Return x, t) \<Longrightarrow> P x t \<Longrightarrow> runs m s P"
  by (simp add: runs_def)

lemma runsE:
  assumes "runs m s P"
  obtains x t where "m s = (Return x, t)" and "P x t"
  using assms by (auto simp: runs_def split: prod.splits outcome.splits)

lemma runs_iff: "runs m s P \<longleftrightarrow> (\<exists>x t. m s = (Return x, t) \<and> P x t)"
  by (auto simp: runs_def split: prod.splits outcome.splits)

lemma runs_not_diverge: "runs m s P \<Longrightarrow> fst (m s) \<noteq> Diverge"
  by (auto simp: runs_iff)

text \<open>
  Sequencing a list of actions: how the effect of several callback invocations is written in
  specifications.
\<close>

fun run_all :: "('a \<Rightarrow> ('s, 'e, unit) prog) \<Rightarrow> 'a list \<Rightarrow> ('s, 'e, unit) prog" where
  "run_all f [] = ret ()"
| "run_all f (x # xs) = andthen (f x) (\<lambda>_. run_all f xs)"

lemma run_all_append:
  "run_all f (xs @ ys) = andthen (run_all f xs) (\<lambda>_. run_all f ys)"
  by (induction xs) (simp_all add: andthen_ret andthen_assoc)

end
