(* ===== verification/Cxx_String.thy ===== *)
theory Cxx_String
  imports Prelude
begin

text \<open>
  The parts of \<open>std::string\<close>, \<open><ctype.h>\<close> and \<open>atoi\<close> that the program uses.  A
  \<open>std::string\<close> is a list of 8-bit characters.  \<open>char\<close> is signed on the platforms the
  program builds for, so reading a character as a number goes through \<open>schar\<close>; code that
  casts to \<open>unsigned char\<close> reads it with \<open>of_char\<close>.
\<close>

type_synonym u8 = "8 word"
type_synonym u16 = "16 word"
type_synonym u32 = "32 word"
type_synonym u64 = "64 word"

definition uchar :: "char \<Rightarrow> nat" where
  "uchar c = of_char c"

definition schar :: "char \<Rightarrow> int" where
  "schar c = (if uchar c < 128 then int (uchar c) else int (uchar c) - 256)"

lemma uchar_less_256: "uchar c < 256"
  by (simp add: uchar_def)

lemma schar_bounds: "-128 \<le> schar c" "schar c \<le> 127"
  using uchar_less_256 [of c] by (auto simp: schar_def)

lemma uchar_char_of [simp]: "uchar (char_of n) = n mod 256"
  by (simp add: uchar_def)

lemma char_of_uchar [simp]: "char_of (uchar c) = c"
  by (simp add: uchar_def)

lemma uchar_inject: "uchar c = uchar d \<longleftrightarrow> c = d"
  by (simp add: uchar_def)

section \<open>Character classes\<close>

text \<open>
  \<open>isdigit\<close> and \<open>isspace\<close> of the C locale, on the byte itself.  The code passes a \<open>char\<close>, which is signed
  on most platforms, without the cast to \<open>unsigned char\<close> that the C standard asks for: for a byte from
  128 on it passes a negative number, which is undefined by the standard.  The definitions are what the C
  libraries the program runs on do with it: their tables begin at -128, and such a byte is neither a
  digit nor a space.
\<close>

definition isdigit :: "char \<Rightarrow> bool" where
  "isdigit c \<longleftrightarrow> 48 \<le> uchar c \<and> uchar c \<le> 57"

definition isspace :: "char \<Rightarrow> bool" where
  "isspace c \<longleftrightarrow> uchar c = 32 \<or> (9 \<le> uchar c \<and> uchar c \<le> 13)"

lemma isdigit_not_isspace: "isdigit c \<Longrightarrow> \<not> isspace c"
  by (auto simp: isdigit_def isspace_def)

definition digit_char :: "nat \<Rightarrow> char" where
  "digit_char d = (if d < 10 then char_of (48 + d) else char_of (87 + d))"

definition digit_value :: "char \<Rightarrow> nat" where
  "digit_value c = uchar c - 48"

lemma isdigit_digit_char [simp]: "d < 10 \<Longrightarrow> isdigit (digit_char d)"
  by (simp add: isdigit_def digit_char_def)

lemma digit_value_digit_char [simp]: "d < 10 \<Longrightarrow> digit_value (digit_char d) = d"
  by (simp add: digit_value_def digit_char_def)

lemma digit_value_le_9: "isdigit c \<Longrightarrow> digit_value c \<le> 9"
  by (auto simp: digit_value_def isdigit_def)

lemma digit_char_digit_value: "isdigit c \<Longrightarrow> digit_char (digit_value c) = c"
proof -
  assume "isdigit c"
  then have "digit_value c < 10" and "48 + digit_value c = uchar c"
    by (auto simp: digit_value_def isdigit_def)
  then show ?thesis
    by (metis char_of_uchar digit_char_def)
qed

section \<open>Searching and slicing\<close>

text \<open>\<open>s.find(p)\<close>: the first position where \<open>p\<close> occurs, \<open>None\<close> for \<open>npos\<close>.\<close>

fun str_find :: "string \<Rightarrow> string \<Rightarrow> nat option" where
  "str_find [] p = (if p = [] then Some 0 else None)"
| "str_find (c # s) p =
     (if prefix p (c # s) then Some 0 else map_option Suc (str_find s p))"

text \<open>\<open>s.substr(pos)\<close> throws \<open>std::out_of_range\<close> past the end: \<open>None\<close> here.\<close>

definition substr_from :: "string \<Rightarrow> nat \<Rightarrow> string option" where
  "substr_from s pos = (if pos \<le> length s then Some (drop pos s) else None)"

text \<open>\<open>s.c_str()\<close> as a C function reads it: up to the first NUL.\<close>

definition c_str :: "string \<Rightarrow> string" where
  "c_str s = takeWhile (\<lambda>c. c \<noteq> CHR 0x00) s"

lemma c_str_digits: "\<forall>c \<in> set s. isdigit c \<Longrightarrow> c_str s = s"
  by (auto simp: c_str_def takeWhile_eq_all_conv isdigit_def uchar_def)

lemma str_find_0_iff: "str_find s p = Some 0 \<longleftrightarrow> prefix p s"
  by (cases s) auto

lemma str_find_SomeD: "str_find s p = Some n \<Longrightarrow> prefix p (drop n s) \<and> n \<le> length s"
  by (induction s p arbitrary: n rule: str_find.induct) (auto split: if_splits)

section \<open>Reading and writing numbers\<close>

text \<open>
  \<open>atoi\<close>: leading white space, an optional sign, then the longest run of digits; no digits
  read as 0.  A value outside the range of \<open>int\<close> is undefined in C; the calls of the library
  pass at most five characters, for which \<open>atoi_bound\<close> below excludes it, and the programs that pass
  any text test for it where the model calls \<open>atoi\<close>.
\<close>

fun digits_value :: "nat \<Rightarrow> string \<Rightarrow> nat" where
  "digits_value acc [] = acc"
| "digits_value acc (c # s) =
     (if isdigit c then digits_value (10 * acc + digit_value c) s else acc)"

definition atoi :: "string \<Rightarrow> int" where
  "atoi s = (case dropWhile isspace s of
      [] \<Rightarrow> 0
    | c # t \<Rightarrow>
        if c = CHR ''-'' then - int (digits_value 0 t)
        else if c = CHR ''+'' then int (digits_value 0 t)
        else int (digits_value 0 (c # t)))"

text \<open>
  Writing: \<open>std::to_string\<close> and \<open>operator<<\<close> in base 10, and in base 16 after
  \<open>std::hex\<close> (lower-case digits, no prefix).
\<close>

function show_base :: "nat \<Rightarrow> nat \<Rightarrow> string" where
  "show_base b n =
     (if b < 2 \<or> n < b then [digit_char n] else show_base b (n div b) @ [digit_char (n mod b)])"
  by pat_completeness auto
termination
  by (relation "measure snd") (auto intro: div_less_dividend)

declare show_base.simps [simp del]

definition show_nat :: "nat \<Rightarrow> string" where
  "show_nat n = show_base 10 n"

definition show_int :: "int \<Rightarrow> string" where
  "show_int i = (if i < 0 then CHR ''-'' # show_nat (nat (- i)) else show_nat (nat i))"

lemma digits_value_append:
  "(\<forall>c \<in> set s. isdigit c) \<Longrightarrow> digits_value acc (s @ t) = digits_value (digits_value acc s) t"
  by (induction s arbitrary: acc) auto

lemma show_nat_digits: "\<forall>c \<in> set (show_nat n). isdigit c"
proof -
  have "\<forall>c \<in> set (show_base b n). b = 10 \<longrightarrow> isdigit c" for b
    by (induction b n rule: show_base.induct) (subst show_base.simps, auto)
  then show ?thesis by (auto simp: show_nat_def)
qed

lemma show_nat_nonempty [simp]: "show_nat n \<noteq> []"
  by (subst show_nat_def, subst show_base.simps) simp

lemma digits_value_show_nat: "digits_value 0 (show_nat n) = n"
proof -
  have "b = 10 \<Longrightarrow> digits_value 0 (show_base b n) = n" for b
  proof (induction b n rule: show_base.induct)
    case (1 b n)
    show ?case
    proof (cases "n < 10")
      case True
      with 1 show ?thesis by (simp add: show_base.simps [of 10 n])
    next
      case False
      have "\<forall>c \<in> set (show_base 10 (n div 10)). isdigit c"
        using show_nat_digits by (simp add: show_nat_def)
      with False 1 show ?thesis
        by (simp add: show_base.simps [of 10 n] digits_value_append)
    qed
  qed
  then show ?thesis by (simp add: show_nat_def)
qed

lemma atoi_digits:
  assumes "\<forall>c \<in> set s. isdigit c"
  shows "atoi s = int (digits_value 0 s)"
proof (cases s)
  case Nil
  then show ?thesis by (simp add: atoi_def)
next
  case (Cons c t)
  with assms have c: "isdigit c" by simp
  then have "c \<noteq> CHR ''-''" and "c \<noteq> CHR ''+''"
    by (auto simp: isdigit_def uchar_def)
  with c Cons show ?thesis
    by (simp add: atoi_def isdigit_not_isspace)
qed

lemma atoi_show_nat: "atoi (show_nat n) = int n"
  by (simp add: atoi_digits show_nat_digits digits_value_show_nat)

lemma digits_value_bound:
  "(\<forall>c \<in> set s. isdigit c) \<Longrightarrow> digits_value acc s < (acc + 1) * 10 ^ length s"
proof (induction s arbitrary: acc)
  case Nil
  then show ?case by simp
next
  case (Cons c s)
  then have "digits_value (10 * acc + digit_value c) s < (10 * acc + digit_value c + 1) * 10 ^ length s"
    by simp
  also have "\<dots> \<le> (10 * (acc + 1)) * 10 ^ length s"
    using Cons.prems digit_value_le_9 [of c] by (intro mult_right_mono) auto
  finally show ?case using Cons.prems by (simp add: algebra_simps)
qed

lemma atoi_bound:
  assumes "\<forall>c \<in> set s. isdigit c"
  shows "0 \<le> atoi s" and "atoi s < 10 ^ length s"
  using digits_value_bound [OF assms, of 0] by (simp_all add: atoi_digits [OF assms])

lemma length_show_base: "n < b ^ k \<Longrightarrow> 2 \<le> b \<Longrightarrow> 0 < k \<Longrightarrow> length (show_base b n) \<le> k"
proof (induction b n arbitrary: k rule: show_base.induct)
  case (1 b n)
  show ?case
  proof (cases "n < b")
    case True
    with 1 show ?thesis by (simp add: show_base.simps [of b n])
  next
    case False
    with 1 have "k \<noteq> 1" by auto
    with 1 obtain j where k: "k = Suc j" and "0 < j" by (cases k) auto
    with 1 have "n div b < b ^ j"
      by (simp add: less_mult_imp_div_less mult.commute)
    with 1 False k \<open>0 < j\<close> have "length (show_base b (n div b)) \<le> j" by auto
    with False 1 k show ?thesis by (simp add: show_base.simps [of b n])
  qed
qed

lemma length_show_nat: "n < 10 ^ k \<Longrightarrow> 0 < k \<Longrightarrow> length (show_nat n) \<le> k"
  by (simp add: show_nat_def length_show_base)

section \<open>Text and options of programs\<close>

abbreviation crlf :: string where
  "crlf \<equiv> [CHR 0x0D, CHR 0x0A]"

abbreviation newline :: string where
  "newline \<equiv> [CHR 0x0A]"

text \<open>
  \<open>getopt\<close> is a function of the C library: from the arguments and the option string it makes the
  sequence of options with their arguments, up to the call that returns \<open>-1\<close>, and the value of
  \<open>optind\<close> then.
\<close>

type_synonym getopt = "string list \<Rightarrow> string \<Rightarrow> (char \<times> string) list \<times> nat"

text \<open>The last option of a letter counts.\<close>

definition last_arg :: "char \<Rightarrow> (char \<times> string) list \<Rightarrow> string option" where
  "last_arg ch options = map_of (rev options) ch"

lemma last_arg_Nil: "last_arg ch [] = None"
  and last_arg_Cons: "last_arg ch ((c, a) # options) =
    (case last_arg ch options of None \<Rightarrow> (if c = ch then Some a else None) | Some b \<Rightarrow> Some b)"
  by (auto simp: last_arg_def map_add_def split: option.split)

end
