(* ===== verification/Errors.thy ===== *)
theory Errors
  imports Cxx_String
begin

text \<open>
  \<open>include/measurement_kit/common/error.hpp\<close> and \<open>http/error.hpp\<close>: the class \<open>Error\<close>, the
  error classes declared from it by \<open>MK_DECLARE_ERROR\<close>, the macro \<open>MK_THROW\<close>, and the
  exceptions the program can raise.
\<close>

section \<open>The class Error\<close>

record cxx_error =
  err_file :: string
  err_lineno :: int
  err_func :: string
  error_code :: int
  ooni_error :: string

text \<open>\<open>Error(int e, std::string ooe)\<close>\<close>

definition Error :: "int \<Rightarrow> string \<Rightarrow> cxx_error" where
  "Error e ooe =
     \<lparr>err_file = '''', err_lineno = 0, err_func = '''',
      error_code = e,
      ooni_error = (if e \<noteq> 0 \<and> ooe = '''' then ''unknown_failure '' @ show_int e else ooe)\<rparr>"

text \<open>The default constructor, the cast to \<open>int\<close> and the four comparison operators.\<close>

definition Error_default :: cxx_error where
  "Error_default = Error 0 ''''"

definition error_to_int :: "cxx_error \<Rightarrow> int" where
  "error_to_int e = error_code e"

definition error_eq_int :: "cxx_error \<Rightarrow> int \<Rightarrow> bool" where
  "error_eq_int e n \<longleftrightarrow> error_code e = n"

definition error_eq :: "cxx_error \<Rightarrow> cxx_error \<Rightarrow> bool" where
  "error_eq e f \<longleftrightarrow> error_code e = error_code f"

definition error_neq_int :: "cxx_error \<Rightarrow> int \<Rightarrow> bool" where
  "error_neq_int e n \<longleftrightarrow> error_code e \<noteq> n"

definition error_neq :: "cxx_error \<Rightarrow> cxx_error \<Rightarrow> bool" where
  "error_neq e f \<longleftrightarrow> error_code e \<noteq> error_code f"

definition as_ooni_error :: "cxx_error \<Rightarrow> string" where
  "as_ooni_error e = ooni_error e"

section \<open>Declared errors\<close>

text \<open>\<open>MK_DECLARE_ERROR(code, name, ooni_error)\<close> declares the default constructor of a class.\<close>

definition MK_DECLARE_ERROR :: "int \<Rightarrow> string \<Rightarrow> cxx_error" where
  "MK_DECLARE_ERROR code ooni = Error code ooni"

definition NoError :: cxx_error where
  "NoError = MK_DECLARE_ERROR 0 ''''"

definition GenericError :: cxx_error where
  "GenericError = MK_DECLARE_ERROR 1 ''''"

definition MaybeNotInitializedError :: cxx_error where
  "MaybeNotInitializedError = MK_DECLARE_ERROR 2 ''''"

definition NullPointerError :: cxx_error where
  "NullPointerError = MK_DECLARE_ERROR 3 ''''"

definition MallocFailedError :: cxx_error where
  "MallocFailedError = MK_DECLARE_ERROR 4 ''''"

definition EvutilMakeSocketNonblockingError :: cxx_error where
  "EvutilMakeSocketNonblockingError = MK_DECLARE_ERROR 5 ''''"

definition EvutilParseSockaddrPortError :: cxx_error where
  "EvutilParseSockaddrPortError = MK_DECLARE_ERROR 6 ''''"

definition EvutilMakeListenSocketReuseableError :: cxx_error where
  "EvutilMakeListenSocketReuseableError = MK_DECLARE_ERROR 7 ''''"

definition EventBaseDispatchError :: cxx_error where
  "EventBaseDispatchError = MK_DECLARE_ERROR 8 ''''"

definition EventBaseLoopError :: cxx_error where
  "EventBaseLoopError = MK_DECLARE_ERROR 9 ''''"

definition EventBaseLoopbreakError :: cxx_error where
  "EventBaseLoopbreakError = MK_DECLARE_ERROR 10 ''''"

definition EventBaseOnceError :: cxx_error where
  "EventBaseOnceError = MK_DECLARE_ERROR 11 ''''"

definition BuffereventSocketNewError :: cxx_error where
  "BuffereventSocketNewError = MK_DECLARE_ERROR 12 ''''"

definition BuffereventSocketConnectError :: cxx_error where
  "BuffereventSocketConnectError = MK_DECLARE_ERROR 13 ''''"

definition BuffereventWriteError :: cxx_error where
  "BuffereventWriteError = MK_DECLARE_ERROR 14 ''''"

definition BuffereventWriteBufferError :: cxx_error where
  "BuffereventWriteBufferError = MK_DECLARE_ERROR 15 ''''"

definition BuffereventReadBufferError :: cxx_error where
  "BuffereventReadBufferError = MK_DECLARE_ERROR 16 ''''"

definition BuffereventEnableError :: cxx_error where
  "BuffereventEnableError = MK_DECLARE_ERROR 17 ''''"

definition BuffereventDisableError :: cxx_error where
  "BuffereventDisableError = MK_DECLARE_ERROR 18 ''''"

definition BuffereventSetTimeoutsError :: cxx_error where
  "BuffereventSetTimeoutsError = MK_DECLARE_ERROR 19 ''''"

definition BuffereventOpensslFilterNewError :: cxx_error where
  "BuffereventOpensslFilterNewError = MK_DECLARE_ERROR 20 ''''"

definition EvbufferAddError :: cxx_error where
  "EvbufferAddError = MK_DECLARE_ERROR 21 ''''"

definition EvbufferAddBufferError :: cxx_error where
  "EvbufferAddBufferError = MK_DECLARE_ERROR 22 ''''"

definition EvbufferPeekError :: cxx_error where
  "EvbufferPeekError = MK_DECLARE_ERROR 23 ''''"

definition EvbufferPeekMismatchError :: cxx_error where
  "EvbufferPeekMismatchError = MK_DECLARE_ERROR 24 ''''"

definition EvbufferDrainError :: cxx_error where
  "EvbufferDrainError = MK_DECLARE_ERROR 25 ''''"

definition EvbufferRemoveBufferError :: cxx_error where
  "EvbufferRemoveBufferError = MK_DECLARE_ERROR 26 ''''"

definition EvbufferPullupError :: cxx_error where
  "EvbufferPullupError = MK_DECLARE_ERROR 27 ''''"

definition TypeError :: cxx_error where
  "TypeError = MK_DECLARE_ERROR 28 ''''"

definition HttpParserUpgradeError :: cxx_error where
  "HttpParserUpgradeError = MK_DECLARE_ERROR 3000 ''''"

definition HttpParserGenericParseError :: cxx_error where
  "HttpParserGenericParseError = MK_DECLARE_ERROR 3001 ''''"

lemmas declared_error_defs =
  MK_DECLARE_ERROR_def Error_def
  NoError_def GenericError_def MaybeNotInitializedError_def
  NullPointerError_def MallocFailedError_def EvutilMakeSocketNonblockingError_def
  EvutilParseSockaddrPortError_def EvutilMakeListenSocketReuseableError_def EventBaseDispatchError_def
  EventBaseLoopError_def EventBaseLoopbreakError_def EventBaseOnceError_def
  BuffereventSocketNewError_def BuffereventSocketConnectError_def BuffereventWriteError_def
  BuffereventWriteBufferError_def BuffereventReadBufferError_def BuffereventEnableError_def
  BuffereventDisableError_def BuffereventSetTimeoutsError_def BuffereventOpensslFilterNewError_def
  EvbufferAddError_def EvbufferAddBufferError_def EvbufferPeekError_def
  EvbufferPeekMismatchError_def EvbufferDrainError_def EvbufferRemoveBufferError_def
  EvbufferPullupError_def TypeError_def HttpParserUpgradeError_def
  HttpParserGenericParseError_def

definition declared_errors :: "cxx_error list" where
  "declared_errors =
    [NoError, GenericError, MaybeNotInitializedError,
     NullPointerError, MallocFailedError, EvutilMakeSocketNonblockingError,
     EvutilParseSockaddrPortError, EvutilMakeListenSocketReuseableError, EventBaseDispatchError,
     EventBaseLoopError, EventBaseLoopbreakError, EventBaseOnceError,
     BuffereventSocketNewError, BuffereventSocketConnectError, BuffereventWriteError,
     BuffereventWriteBufferError, BuffereventReadBufferError, BuffereventEnableError,
     BuffereventDisableError, BuffereventSetTimeoutsError, BuffereventOpensslFilterNewError,
     EvbufferAddError, EvbufferAddBufferError, EvbufferPeekError,
     EvbufferPeekMismatchError, EvbufferDrainError, EvbufferRemoveBufferError,
     EvbufferPullupError, TypeError, HttpParserUpgradeError,
     HttpParserGenericParseError]"

section \<open>Exceptions\<close>

text \<open>
  What a \<open>throw\<close> of the program or of the standard library carries.  \<open>ProcessExit\<close> stands for a
  call of \<open>err\<close>, which ends the process.  \<open>UndefinedBehaviour\<close> is
  not an exception of C++: it marks the branches where the C++ behaviour is undefined (a
  dangling handle, an index out of range), so that a theorem can exclude them.
\<close>

datatype exn =
    ErrorExn cxx_error
  | RuntimeError string
  | OutOfRange
  | BadFunctionCall
  | StdException
  | ProcessExit int
  | UndefinedBehaviour string

text \<open>\<open>MK_THROW\<close> records where the error was thrown.\<close>

definition mk_located :: "string \<Rightarrow> int \<Rightarrow> string \<Rightarrow> cxx_error \<Rightarrow> cxx_error" where
  "mk_located fl ln fn e = e\<lparr>err_file := fl, err_lineno := ln, err_func := fn\<rparr>"

definition MK_THROW :: "string \<Rightarrow> int \<Rightarrow> string \<Rightarrow> cxx_error \<Rightarrow> ('s, exn, 'a) prog" where
  "MK_THROW fl ln fn e = raise (ErrorExn (mk_located fl ln fn e))"

text \<open>\<open>std::string::substr\<close> with its exception.\<close>

definition substr :: "string \<Rightarrow> nat \<Rightarrow> ('s, exn, string) prog" where
  "substr s pos = (case substr_from s pos of None \<Rightarrow> raise OutOfRange | Some t \<Rightarrow> ret t)"

lemma substr_in_range: "pos \<le> length s \<Longrightarrow> substr s pos = ret (drop pos s)"
  by (simp add: substr_def substr_from_def)

lemma runs_MK_THROW [prog_simps]: "runs (MK_THROW fl ln fn e) s P = False"
  by (simp add: MK_THROW_def prog_simps)

lemma MK_THROW_run [prog_simps]:
  "MK_THROW fl ln fn e s = (Throw (ErrorExn (mk_located fl ln fn e)), s)"
  by (simp add: MK_THROW_def prog_simps)

section \<open>Properties\<close>

lemma error_eq_equivalence: "equivp error_eq"
  by (auto simp: equivp_reflp_symp_transp reflp_def symp_def transp_def error_eq_def)

text \<open>
  The codes identify the classes, and every error but \<open>NoError\<close> reports itself as
  \<open>unknown_failure\<close> followed by its code, because all are declared with an empty OONI string.
\<close>

lemma declared_codes_distinct: "distinct (map error_code declared_errors)"
  by (simp add: declared_errors_def declared_error_defs)

lemma mk_located_code [simp]: "error_code (mk_located fl ln fn e) = error_code e"
  and mk_located_ooni [simp]: "ooni_error (mk_located fl ln fn e) = ooni_error e"
  by (simp_all add: mk_located_def)

lemma Error_code [simp]: "error_code (Error e ooe) = e"
  by (simp add: Error_def)

lemma Error_ooni: "ooni_error (Error e ooe) =
    (if e \<noteq> 0 \<and> ooe = '''' then ''unknown_failure '' @ show_int e else ooe)"
  by (simp add: Error_def)

end
