(* ===== verification/Wrappers.thy ===== *)
theory Wrappers
  imports Errors
begin

text \<open>
  The small wrappers of \<open>include/measurement_kit/common\<close>: \<open>Maybe<T>\<close> (maybe.hpp), \<open>Var<T>\<close>
  (var.hpp) and \<open>Func<T>\<close> (func.hpp).

  A \<open>Var<T>\<close> is the address of an object, or nothing for a null pointer; the object itself
  lives in a store of the state.  A closure is a value of a datatype whose constructors are
  the lambda expressions of the program with the variables they capture; \<open>run\<close> arguments say
  what running it does.  A \<open>Func<T>\<close> is therefore an optional closure.
\<close>

section \<open>Maybe\<close>

record 'a maybe =
  maybe_error :: cxx_error
  maybe_value :: 'a

text \<open>The value-initialised member of \<open>Maybe()\<close> is the argument \<open>dflt\<close>.\<close>

definition Maybe_empty :: "'a \<Rightarrow> 'a maybe" where
  "Maybe_empty dflt = \<lparr>maybe_error = MaybeNotInitializedError, maybe_value = dflt\<rparr>"

definition Maybe_error_value :: "cxx_error \<Rightarrow> 'a \<Rightarrow> 'a maybe" where
  "Maybe_error_value e v = \<lparr>maybe_error = e, maybe_value = v\<rparr>"

definition Maybe_of_value :: "'a \<Rightarrow> 'a maybe" where
  "Maybe_of_value v = Maybe_error_value NoError v"

definition maybe_bool :: "'a maybe \<Rightarrow> bool" where
  "maybe_bool m = error_eq (maybe_error m) NoError"

text \<open>
  \<open>throw error_\<close> throws a copy of the member, whose type is \<open>Error\<close>: what is thrown has the code and
  the text of the error, but is no longer of the class that was declared for it, and a handler for
  that class does not catch it.
\<close>

definition as_value :: "'a maybe \<Rightarrow> ('s, exn, 'a) prog" where
  "as_value m =
     (if error_neq_int (maybe_error m) 0 then raise (ErrorExn (maybe_error m))
      else ret (maybe_value m))"

definition as_error :: "'a maybe \<Rightarrow> cxx_error" where
  "as_error m = maybe_error m"

lemmas maybe_defs = Maybe_empty_def Maybe_error_value_def Maybe_of_value_def
  maybe_bool_def as_value_def as_error_def

text \<open>Reading the value succeeds exactly when the boolean conversion says so.\<close>

lemma as_value_iff_bool: "runs (as_value m) s (\<lambda>v t. v = maybe_value m \<and> t = s) \<longleftrightarrow> maybe_bool m"
  by (simp add: maybe_defs error_eq_def error_neq_int_def prog_simps NoError_def
      declared_error_defs)

lemma as_value_of_value: "as_value (Maybe_of_value v) = ret v"
  by (simp add: maybe_defs error_neq_int_def NoError_def declared_error_defs)

section \<open>Var\<close>

definition var_arrow :: "'h option \<Rightarrow> ('s, exn, 'h) prog" where
  "var_arrow v = (case v of None \<Rightarrow> raise (RuntimeError ''null pointer'') | Some h \<Rightarrow> ret h)"

definition var_get :: "'h option \<Rightarrow> ('s, exn, 'h) prog" where
  "var_get v = var_arrow v"

definition var_deref :: "'h option \<Rightarrow> ('s, exn, 'h) prog" where
  "var_deref v = (case v of None \<Rightarrow> raise (RuntimeError ''null pointer'') | Some h \<Rightarrow> ret h)"

lemma var_simps [simp]:
  "var_arrow (Some h) = ret h" "var_get (Some h) = ret h" "var_deref (Some h) = ret h"
  "var_arrow None = raise (RuntimeError ''null pointer'')"
  "var_get None = raise (RuntimeError ''null pointer'')"
  "var_deref None = raise (RuntimeError ''null pointer'')"
  by (simp_all add: var_arrow_def var_get_def var_deref_def)

section \<open>Func\<close>

definition func_bool :: "'c option \<Rightarrow> bool" where
  "func_bool f \<longleftrightarrow> f \<noteq> None"

text \<open>
  \<open>Func::operator()\<close> copies the closure out of the object before it runs it, so the body may
  overwrite the object that holds it.  \<open>get\<close> reads the \<open>Func\<close> member from the state; the
  closure that runs is the one read before the call, whatever \<open>run\<close> does to the member.
\<close>

definition func_call ::
  "('s \<Rightarrow> 'c option) \<Rightarrow> ('c \<Rightarrow> ('s, exn, unit) prog) \<Rightarrow> ('s, exn, unit) prog" where
  "func_call get run =
     andthen (gets get)
       (\<lambda>backup. case backup of None \<Rightarrow> raise BadFunctionCall | Some c \<Rightarrow> run c)"

lemma func_call_Some: "get s = Some c \<Longrightarrow> func_call get run s = run c s"
  by (simp add: func_call_def prog_simps)

lemma runs_func_call: "get s = Some c \<Longrightarrow> runs (func_call get run) s P = runs (run c) s P"
  by (simp add: runs_def func_call_Some)

end
