(* ===== verification/Libevent_Api.thy ===== *)
theory Libevent_Api
  imports Wrappers
begin

unbundle bit_operations_syntax

text \<open>
  The interface to libevent.  libevent is a C library outside this repository, so it is a
  parameter: a record of the functions and constants the wrappers call, over a state \<open>'w\<close>
  that only libevent reads.  \<open>src/common/libevent.hpp\<close> makes the same choice: each wrapper
  takes the C function it calls as a template argument, which its tests replace.

  A C function that changes libevent's state takes it and returns it with its result.  Output
  arguments are results.  The two functions that return the buffers of a bufferevent take no
  state, since the buffers of a bufferevent never change.  Pointers are numbers, 0 is the
  null pointer.
\<close>

type_synonym cptr = nat

abbreviation (input) nullptr :: cptr where
  "nullptr \<equiv> 0"

record timeval =
  tv_sec :: int
  tv_usec :: int

record 'w libevent =
  EV_TIMEOUT :: u16
  EV_READ :: u16
  EV_WRITE :: u16
  BEV_EVENT_READING :: u16
  BEV_EVENT_WRITING :: u16
  BEV_EVENT_EOF :: u16
  BEV_EVENT_ERROR :: u16
  BEV_EVENT_TIMEOUT :: u16
  BEV_EVENT_CONNECTED :: u16
  BEV_OPT_CLOSE_ON_FREE :: int
  BUFFEREVENT_SSL_CONNECTING :: int
  EVBUFFER_EOL_CRLF :: nat
  evutil_make_socket_nonblocking :: "int \<Rightarrow> 'w \<Rightarrow> int \<times> 'w"
  evutil_parse_sockaddr_port :: "string \<Rightarrow> int \<Rightarrow> int \<times> string \<times> int"
  evutil_make_listen_socket_reuseable :: "int \<Rightarrow> 'w \<Rightarrow> int \<times> 'w"
  event_base_new :: "'w \<Rightarrow> cptr \<times> 'w"
  event_base_free :: "cptr \<Rightarrow> 'w \<Rightarrow> 'w"
  event_base_dispatch :: "cptr \<Rightarrow> 'w \<Rightarrow> int \<times> 'w"
  event_base_loop :: "cptr \<Rightarrow> int \<Rightarrow> 'w \<Rightarrow> int \<times> 'w"
  event_base_loopbreak :: "cptr \<Rightarrow> 'w \<Rightarrow> int \<times> 'w"
  event_base_once :: "cptr \<Rightarrow> int \<Rightarrow> u16 \<Rightarrow> nat \<Rightarrow> timeval option \<Rightarrow> 'w \<Rightarrow> int \<times> 'w"
  evbuffer_new :: "'w \<Rightarrow> cptr \<times> 'w"
  evbuffer_free :: "cptr \<Rightarrow> 'w \<Rightarrow> 'w"
  evbuffer_get_length :: "cptr \<Rightarrow> 'w \<Rightarrow> nat"
  evbuffer_drain :: "cptr \<Rightarrow> nat \<Rightarrow> 'w \<Rightarrow> int \<times> 'w"
  evbuffer_add :: "cptr \<Rightarrow> string \<Rightarrow> 'w \<Rightarrow> int \<times> 'w"
  evbuffer_add_buffer :: "cptr \<Rightarrow> cptr \<Rightarrow> 'w \<Rightarrow> int \<times> 'w"
  evbuffer_peek :: "cptr \<Rightarrow> int \<Rightarrow> nat option \<Rightarrow> nat \<Rightarrow> 'w \<Rightarrow> (int \<times> string list) \<times> 'w"
  evbuffer_remove_buffer :: "cptr \<Rightarrow> cptr \<Rightarrow> nat \<Rightarrow> 'w \<Rightarrow> int \<times> 'w"
  evbuffer_search_eol :: "cptr \<Rightarrow> nat option \<Rightarrow> nat \<Rightarrow> 'w \<Rightarrow> (int \<times> nat) \<times> 'w"
  bufferevent_socket_new :: "cptr \<Rightarrow> int \<Rightarrow> int \<Rightarrow> 'w \<Rightarrow> cptr \<times> 'w"
  bufferevent_free :: "cptr \<Rightarrow> 'w \<Rightarrow> 'w"
  bufferevent_setcb :: "cptr \<Rightarrow> nat option \<Rightarrow> 'w \<Rightarrow> 'w"
  bufferevent_socket_connect :: "cptr \<Rightarrow> string \<Rightarrow> int \<Rightarrow> 'w \<Rightarrow> int \<times> 'w"
  bufferevent_write :: "cptr \<Rightarrow> string \<Rightarrow> 'w \<Rightarrow> int \<times> 'w"
  bufferevent_write_buffer :: "cptr \<Rightarrow> cptr \<Rightarrow> 'w \<Rightarrow> int \<times> 'w"
  bufferevent_read :: "cptr \<Rightarrow> nat \<Rightarrow> 'w \<Rightarrow> string \<times> 'w"
  bufferevent_read_buffer :: "cptr \<Rightarrow> cptr \<Rightarrow> 'w \<Rightarrow> int \<times> 'w"
  bufferevent_enable :: "cptr \<Rightarrow> u16 \<Rightarrow> 'w \<Rightarrow> int \<times> 'w"
  bufferevent_disable :: "cptr \<Rightarrow> u16 \<Rightarrow> 'w \<Rightarrow> int \<times> 'w"
  bufferevent_set_timeouts :: "cptr \<Rightarrow> timeval option \<Rightarrow> timeval option \<Rightarrow> 'w \<Rightarrow> int \<times> 'w"
  bufferevent_openssl_filter_new :: "cptr \<Rightarrow> cptr \<Rightarrow> cptr \<Rightarrow> int \<Rightarrow> int \<Rightarrow> 'w \<Rightarrow> cptr \<times> 'w"
  bufferevent_get_openssl_error :: "cptr \<Rightarrow> 'w \<Rightarrow> nat \<times> 'w"
  bufferevent_get_input :: "cptr \<Rightarrow> cptr"
  bufferevent_get_output :: "cptr \<Rightarrow> cptr"

section \<open>Lines\<close>

text \<open>
  What the libevent documentation says \<open>EVBUFFER_EOL_CRLF\<close> finds: an optional carriage return
  followed by a line feed.  The result is the position of the first such terminator and its
  length.
\<close>

fun find_eol :: "string \<Rightarrow> (nat \<times> nat) option" where
  "find_eol [] = None"
| "find_eol (c # s) =
     (if c = CHR 0x0A then Some (0, 1)
      else if c = CHR 0x0D \<and> s \<noteq> [] \<and> hd s = CHR 0x0A then Some (0, 2)
      else map_option (\<lambda>(pos, n). (Suc pos, n)) (find_eol s))"

lemma find_eol_bounds:
  "find_eol s = Some (pos, n) \<Longrightarrow> 0 < n \<and> n \<le> 2 \<and> pos + n \<le> length s"
proof (induction s arbitrary: pos)
  case Nil
  then show ?case by simp
next
  case (Cons c s)
  then show ?case by (cases s) (auto split: if_splits)
qed

lemma find_eol_None_iff: "find_eol s = None \<longleftrightarrow> CHR 0x0A \<notin> set s"
proof (induction s)
  case Nil
  then show ?case by simp
next
  case (Cons c s)
  then show ?case by (cases s) auto
qed

text \<open>
  Bytes that arrive later do not move a terminator that was already found, nor its length.
\<close>

lemma find_eol_append:
  "find_eol s = Some (pos, n) \<Longrightarrow> find_eol (s @ t) = Some (pos, n)"
proof (induction s arbitrary: pos n)
  case Nil
  then show ?case by simp
next
  case (Cons c s)
  show ?case
  proof (cases "find_eol s")
    case None
    with Cons.prems show ?thesis by (cases s) (auto split: if_splits)
  next
    case (Some r)
    then have "find_eol (s @ t) = Some r" and "s \<noteq> []"
      using Cons.IH [of "fst r" "snd r"] by auto
    with Some Cons.prems show ?thesis by auto
  qed
qed

lemma find_eol_line:
  assumes "CHR 0x0A \<notin> set s" and "CHR 0x0D \<notin> set s"
  shows "find_eol (s @ CHR 0x0D # CHR 0x0A # t) = Some (length s, 2)"
  using assms by (induction s) auto

section \<open>Documented behaviour\<close>

text \<open>
  What the code relies on.  \<open>content w b\<close> is the bytes held in evbuffer \<open>b\<close> of libevent's
  state \<open>w\<close>.  The laws describe calls that succeed; the wrappers turn a failing call into an
  exception, which their own lemmas state for every \<open>L\<close>.
\<close>

locale evbuffer_api =
  fixes L :: "'w libevent"
    and content :: "'w \<Rightarrow> cptr \<Rightarrow> string"
  assumes get_length: "evbuffer_get_length L b w = length (content w b)"
    and drain: "\<exists>w'. evbuffer_drain L b n w = (0, w') \<and>
        content w' = (content w)(b := drop n (content w b))"
    and add: "\<exists>w'. evbuffer_add L b s w = (0, w') \<and>
        content w' = (content w)(b := content w b @ s)"
    and peek: "\<exists>exts. concat exts = content w b \<and>
        (\<forall>n. evbuffer_peek L b (- 1) None n w = ((int (length exts), take n exts), w))"
    and search_eol: "evbuffer_search_eol L b None (EVBUFFER_EOL_CRLF L) w =
        ((case find_eol (content w b) of None \<Rightarrow> (- 1, 0) | Some (pos, n) \<Rightarrow> (int pos, n)), w)"

text \<open>
  Bufferevents: each live one has an input and an output buffer of its own; writing appends to
  the output buffer; the other calls leave the bytes alone.
\<close>

locale bufferevent_api = evbuffer_api L content
  for L :: "'w libevent" and content :: "'w \<Rightarrow> cptr \<Rightarrow> string" +
  assumes input_nonnull: "p \<noteq> nullptr \<Longrightarrow> bufferevent_get_input L p \<noteq> nullptr"
    and output_nonnull: "p \<noteq> nullptr \<Longrightarrow> bufferevent_get_output L p \<noteq> nullptr"
    and input_not_output: "p \<noteq> nullptr \<Longrightarrow> q \<noteq> nullptr \<Longrightarrow>
        bufferevent_get_input L p \<noteq> bufferevent_get_output L q"
    and input_inject: "p \<noteq> nullptr \<Longrightarrow> q \<noteq> nullptr \<Longrightarrow>
        bufferevent_get_input L p = bufferevent_get_input L q \<Longrightarrow> p = q"
    and bev_write: "\<exists>w'. bufferevent_write L p s w = (0, w') \<and>
        content w' = (content w)(bufferevent_get_output L p :=
          content w (bufferevent_get_output L p) @ s)"
    and bev_socket_new: "\<exists>p w'. bufferevent_socket_new L base fd flags w = (p, w') \<and>
        p \<noteq> nullptr \<and> content w (bufferevent_get_input L p) = [] \<and>
        content w (bufferevent_get_output L p) = [] \<and> content w' = content w"
    and bev_setcb: "content (bufferevent_setcb L p arg w) = content w"
    and bev_enable: "\<exists>w'. bufferevent_enable L p what w = (0, w') \<and> content w' = content w"
    and bev_disable: "\<exists>w'. bufferevent_disable L p what w = (0, w') \<and> content w' = content w"
    and bev_set_timeouts: "\<exists>w'. bufferevent_set_timeouts L p rt wt w = (0, w') \<and>
        content w' = content w"
    and bev_socket_connect: "\<exists>w'. bufferevent_socket_connect L p sa len w = (0, w') \<and>
        content w' = content w"
    and bev_once: "\<exists>w'. event_base_once L base sock what cbp timeo w = (0, w') \<and>
        content w' = content w"

text \<open>The bits of an event mask are distinct, so a mask can be taken apart bit by bit.\<close>

definition distinct_bits :: "u16 list \<Rightarrow> bool" where
  "distinct_bits fs \<longleftrightarrow>
     (\<exists>ns. fs = map (\<lambda>n. 2 ^ n) ns \<and> distinct ns \<and> (\<forall>n \<in> set ns. n < 16))"

definition bev_event_flags :: "'w libevent \<Rightarrow> u16 list" where
  "bev_event_flags L =
     [BEV_EVENT_READING L, BEV_EVENT_WRITING L, BEV_EVENT_EOF L, BEV_EVENT_ERROR L,
      BEV_EVENT_TIMEOUT L, BEV_EVENT_CONNECTED L]"

lemma pow2_and_pow2:
  assumes "m < 16" and "n < 16"
  shows "(2 ^ m :: u16) AND 2 ^ n = (if m = n then 2 ^ m else 0)"
  using assms by (auto simp: bit_eq_iff bit_simps)

lemma pow2_nonzero: "n < 16 \<Longrightarrow> (2 ^ n :: u16) \<noteq> 0"
  by (simp add: exp_eq_zero_iff)

end
