(* ===== verification/Evbuffer.thy ===== *)
theory Evbuffer
  imports Libevent_Api
begin

text \<open>
  \<open>src/common/libevent.hpp\<close>, first part: the state shared by the wrappers, \<open>evutil\<close>,
  \<open>EventBase\<close> and \<open>Evbuffer\<close>; the closures that \<open>EventBase::once\<close> leaves with libevent.
\<close>

section \<open>The state\<close>

text \<open>
  \<open>world\<close> is libevent's own state.  \<open>bevs\<close> holds the C++ \<open>Bufferevent\<close> objects by handle (a
  \<open>Var<Bufferevent>\<close> is such a handle) and \<open>onces\<close> the \<open>std::function<void(short)>\<close> objects
  allocated by \<open>EventBase::once\<close>.  \<open>varp\<close> of a \<open>Bufferevent\<close> says whether the
  \<open>Var<Bufferevent>\<close> that was allocated for C code to keep the object alive still exists.
\<close>

record evbase =
  base_ptr :: cptr
  base_owned :: bool

record evbuf =
  buf_ptr :: cptr
  buf_owned :: bool

record 'c bufev =
  event_cb :: "'c option"
  read_cb :: "'c option"
  write_cb :: "'c option"
  bevp :: cptr
  bev_base :: evbase
  varp :: bool

text \<open>
  A closure given to \<open>once\<close> is either one of a client or the one \<open>is_ignored_by_cxx\<close> makes,
  which deletes the \<open>varp\<close> of a bufferevent.
\<close>

datatype 'c once_clo = Once 'c | DeleteVarp nat

record ('c, 'w) evst =
  world :: 'w
  bevs :: "nat \<Rightarrow> 'c bufev option"
  next_bev :: nat
  onces :: "nat \<Rightarrow> 'c once_clo option"
  next_once :: nat

type_synonym ('c, 'w, 'z, 'a) ev_prog = "(('c, 'w, 'z) evst_scheme, exn, 'a) prog"

text \<open>A call of a C function that reads and writes libevent's state.\<close>

definition lib :: "('w \<Rightarrow> 'a \<times> 'w) \<Rightarrow> ('c, 'w, 'z, 'a) ev_prog" where
  "lib f = (\<lambda>s. case f (world s) of (x, w) \<Rightarrow> (Return x, s\<lparr>world := w\<rparr>))"

lemma lib_run [prog_simps]:
  "lib f s = (case f (world s) of (x, w) \<Rightarrow> (Return x, s\<lparr>world := w\<rparr>))"
  by (simp add: lib_def)

lemma runs_lib [prog_simps]:
  "runs (lib f) s P = (case f (world s) of (x, w) \<Rightarrow> P x (s\<lparr>world := w\<rparr>))"
  by (simp add: runs_def prog_simps split: prod.splits)

abbreviation LH_THROW :: "int \<Rightarrow> string \<Rightarrow> cxx_error \<Rightarrow> ('s, exn, 'a) prog" where
  "LH_THROW \<equiv> MK_THROW ''src/common/libevent.hpp''"

text \<open>The pattern of most wrappers: call a C function, throw if it does not return 0.\<close>

definition lib_check ::
  "('w \<Rightarrow> int \<times> 'w) \<Rightarrow> ('c, 'w, 'z, unit) ev_prog \<Rightarrow> ('c, 'w, 'z, unit) ev_prog" where
  "lib_check f on_error = andthen (lib f) (\<lambda>rc. if rc \<noteq> 0 then on_error else ret ())"

section \<open>evutil\<close>

definition make_socket_nonblocking :: "'w libevent \<Rightarrow> int \<Rightarrow> ('c, 'w, 'z, unit) ev_prog" where
  "make_socket_nonblocking L s =
     lib_check (evutil_make_socket_nonblocking L s)
       (LH_THROW 52 ''make_socket_nonblocking'' EvutilMakeSocketNonblockingError)"

text \<open>Returns the error, and what the call left in \<open>*p\<close> and \<open>*n\<close>.\<close>

definition parse_sockaddr_port ::
  "'w libevent \<Rightarrow> string \<Rightarrow> int \<Rightarrow> cxx_error \<times> string \<times> int" where
  "parse_sockaddr_port L s n =
     (case evutil_parse_sockaddr_port L (c_str s) n of (rc, sa, len) \<Rightarrow>
        (if rc \<noteq> 0 then EvutilParseSockaddrPortError else NoError, sa, len))"

definition make_listen_socket_reuseable ::
  "'w libevent \<Rightarrow> int \<Rightarrow> ('c, 'w, 'z, unit) ev_prog" where
  "make_listen_socket_reuseable L s =
     lib_check (evutil_make_listen_socket_reuseable L s)
       (LH_THROW 70 ''make_listen_socket_reuseable'' EvutilMakeListenSocketReuseableError)"

section \<open>EventBase\<close>

definition EventBase_assign :: "cptr \<Rightarrow> bool \<Rightarrow> ('c, 'w, 'z, evbase) ev_prog" where
  "EventBase_assign pointer owned =
     (if pointer = nullptr then LH_THROW 87 ''assign'' NullPointerError
      else ret \<lparr>base_ptr = pointer, base_owned = owned\<rparr>)"

text \<open>The deleter that \<open>assign\<close> installs, run when the last reference goes.\<close>

definition EventBase_deleter :: "'w libevent \<Rightarrow> evbase \<Rightarrow> ('c, 'w, 'z, unit) ev_prog" where
  "EventBase_deleter L ptr =
     (if base_owned ptr \<and> base_ptr ptr \<noteq> nullptr
      then lib (\<lambda>w. ((), event_base_free L (base_ptr ptr) w))
      else ret ())"

definition EventBase_create :: "'w libevent \<Rightarrow> ('c, 'w, 'z, evbase) ev_prog" where
  "EventBase_create L = andthen (lib (event_base_new L)) (\<lambda>p. EventBase_assign p True)"

definition EventBase_dispatch :: "'w libevent \<Rightarrow> evbase \<Rightarrow> ('c, 'w, 'z, int) ev_prog" where
  "EventBase_dispatch L base =
     andthen (lib (event_base_dispatch L (base_ptr base)))
       (\<lambda>ctrl. if ctrl \<noteq> 0 \<and> ctrl \<noteq> 1
          then LH_THROW 112 ''dispatch'' EventBaseDispatchError else ret ctrl)"

definition EventBase_loop :: "'w libevent \<Rightarrow> evbase \<Rightarrow> int \<Rightarrow> ('c, 'w, 'z, int) ev_prog" where
  "EventBase_loop L base flags =
     andthen (lib (event_base_loop L (base_ptr base) flags))
       (\<lambda>ctrl. if ctrl \<noteq> 0 \<and> ctrl \<noteq> 1
          then LH_THROW 121 ''loop'' EventBaseLoopError else ret ctrl)"

definition EventBase_loopbreak :: "'w libevent \<Rightarrow> evbase \<Rightarrow> ('c, 'w, 'z, unit) ev_prog" where
  "EventBase_loopbreak L base =
     lib_check (event_base_loopbreak L (base_ptr base))
       (LH_THROW 129 ''loopbreak'' EventBaseLoopbreakError)"

text \<open>
  \<open>once\<close> copies the closure to the heap and hands it to libevent; if libevent refuses it, the
  copy is deleted before the exception is thrown.
\<close>

definition alloc_once :: "'c once_clo \<Rightarrow> ('c, 'w, 'z, nat) ev_prog" where
  "alloc_once cb = andthen (gets next_once)
     (\<lambda>cbp. andthen (modify (\<lambda>s. s\<lparr>onces := (onces s)(cbp \<mapsto> cb), next_once := Suc cbp\<rparr>))
       (\<lambda>_. ret cbp))"

definition delete_once :: "nat \<Rightarrow> ('c, 'w, 'z, unit) ev_prog" where
  "delete_once cbp = modify (\<lambda>s. s\<lparr>onces := (onces s)(cbp := None)\<rparr>)"

definition EventBase_once ::
  "'w libevent \<Rightarrow> evbase \<Rightarrow> int \<Rightarrow> u16 \<Rightarrow> 'c once_clo \<Rightarrow> timeval option \<Rightarrow>
   ('c, 'w, 'z, unit) ev_prog" where
  "EventBase_once L base sock what cb timeo =
     andthen (alloc_once cb)
       (\<lambda>cbp. lib_check (event_base_once L (base_ptr base) sock what cbp timeo)
          (andthen (delete_once cbp) (\<lambda>_. LH_THROW 139 ''once'' EventBaseOnceError)))"

section \<open>Evbuffer\<close>

definition Evbuffer_assign :: "cptr \<Rightarrow> bool \<Rightarrow> ('c, 'w, 'z, evbuf) ev_prog" where
  "Evbuffer_assign pointer owned =
     (if pointer = nullptr then LH_THROW 155 ''assign'' NullPointerError
      else ret \<lparr>buf_ptr = pointer, buf_owned = owned\<rparr>)"

definition Evbuffer_deleter :: "'w libevent \<Rightarrow> evbuf \<Rightarrow> ('c, 'w, 'z, unit) ev_prog" where
  "Evbuffer_deleter L ptr =
     (if buf_owned ptr \<and> buf_ptr ptr \<noteq> nullptr
      then lib (\<lambda>w. ((), evbuffer_free L (buf_ptr ptr) w))
      else ret ())"

definition Evbuffer_create :: "'w libevent \<Rightarrow> ('c, 'w, 'z, evbuf) ev_prog" where
  "Evbuffer_create L = andthen (lib (evbuffer_new L)) (\<lambda>p. Evbuffer_assign p True)"

definition Evbuffer_get_length :: "'w libevent \<Rightarrow> evbuf \<Rightarrow> ('c, 'w, 'z, nat) ev_prog" where
  "Evbuffer_get_length L b = gets (\<lambda>s. evbuffer_get_length L (buf_ptr b) (world s))"

definition Evbuffer_drain :: "'w libevent \<Rightarrow> nat \<Rightarrow> evbuf \<Rightarrow> ('c, 'w, 'z, unit) ev_prog" where
  "Evbuffer_drain L n b =
     lib_check (evbuffer_drain L (buf_ptr b) n) (LH_THROW 181 ''drain'' EvbufferDrainError)"

text \<open>The pair of a pointer and a count is the bytes it designates.\<close>

definition Evbuffer_add :: "'w libevent \<Rightarrow> string \<Rightarrow> evbuf \<Rightarrow> ('c, 'w, 'z, unit) ev_prog" where
  "Evbuffer_add L base b =
     lib_check (evbuffer_add L (buf_ptr b) base) (LH_THROW 188 ''add'' EvbufferAddError)"

definition Evbuffer_add_buffer ::
  "'w libevent \<Rightarrow> evbuf \<Rightarrow> evbuf \<Rightarrow> ('c, 'w, 'z, unit) ev_prog" where
  "Evbuffer_add_buffer L b2 b =
     lib_check (evbuffer_add_buffer L (buf_ptr b) (buf_ptr b2))
       (LH_THROW 195 ''add_buffer'' EvbufferAddBufferError)"

text \<open>
  \<open>peek\<close> asks how many extents there are, then reads that many.  The result is the array of
  extents (nothing for the null \<open>Var\<close>) and what it leaves in \<open>n_extents\<close>.
\<close>

definition Evbuffer_peek ::
  "'w libevent \<Rightarrow> int \<Rightarrow> nat option \<Rightarrow> evbuf \<Rightarrow> ('c, 'w, 'z, string list option \<times> nat) ev_prog"
where
  "Evbuffer_peek L len start_at b =
     andthen (lib (evbuffer_peek L (buf_ptr b) len start_at 0))
       (\<lambda>(required, _).
          if required < 0 then LH_THROW 204 ''peek'' EvbufferPeekError
          else if required = 0 then ret (None, 0)
          else andthen (lib (evbuffer_peek L (buf_ptr b) len start_at (nat required)))
            (\<lambda>(used, iov).
               if used \<noteq> required then LH_THROW 217 ''peek'' EvbufferPeekMismatchError
               else ret (Some iov, nat required)))"

text \<open>
  \<open>for_each_\<close>: the callback gets each extent in turn and says whether to go on.  What the
  callback captures by reference is its accumulator.
\<close>

fun extents_loop :: "('acc \<Rightarrow> string \<Rightarrow> 'acc \<times> bool) \<Rightarrow> 'acc \<Rightarrow> string list \<Rightarrow> 'acc" where
  "extents_loop cb acc [] = acc"
| "extents_loop cb acc (x # xs) =
     (case cb acc x of (acc', go) \<Rightarrow> if go then extents_loop cb acc' xs else acc')"

definition Evbuffer_for_each ::
  "'w libevent \<Rightarrow> ('acc \<Rightarrow> string \<Rightarrow> 'acc \<times> bool) \<Rightarrow> 'acc \<Rightarrow> evbuf \<Rightarrow> ('c, 'w, 'z, 'acc) ev_prog"
where
  "Evbuffer_for_each L cb acc b =
     andthen (Evbuffer_peek L (- 1) None b)
       (\<lambda>(raii, n_extents). case raii of
            None \<Rightarrow> ret acc
          | Some iov \<Rightarrow> ret (extents_loop cb acc (take n_extents iov)))"

definition copyout_extent :: "string \<times> nat \<Rightarrow> string \<Rightarrow> (string \<times> nat) \<times> bool" where
  "copyout_extent = (\<lambda>(out, up_to) p.
     let n = (if up_to < length p then up_to else length p);
         up_to' = up_to - n
     in ((out @ take n p, up_to'), 0 < up_to'))"

definition Evbuffer_copyout :: "'w libevent \<Rightarrow> nat \<Rightarrow> evbuf \<Rightarrow> ('c, 'w, 'z, string) ev_prog" where
  "Evbuffer_copyout L up_to b =
     andthen (Evbuffer_for_each L copyout_extent ([], up_to) b) (\<lambda>(out, _). ret out)"

definition Evbuffer_remove :: "'w libevent \<Rightarrow> nat \<Rightarrow> evbuf \<Rightarrow> ('c, 'w, 'z, string) ev_prog" where
  "Evbuffer_remove L up_to b =
     andthen (Evbuffer_copyout L up_to b)
       (\<lambda>out. andthen (if 0 < length out then Evbuffer_drain L (length out) b else ret ())
         (\<lambda>_. ret out))"

definition Evbuffer_remove_buffer ::
  "'w libevent \<Rightarrow> evbuf \<Rightarrow> nat \<Rightarrow> evbuf \<Rightarrow> ('c, 'w, 'z, int) ev_prog" where
  "Evbuffer_remove_buffer L b2 count b =
     andthen (lib (evbuffer_remove_buffer L (buf_ptr b) (buf_ptr b2) count))
       (\<lambda>len. if len < 0 then LH_THROW 261 ''remove_buffer'' EvbufferRemoveBufferError
          else ret len)"

definition Evbuffer_readln :: "'w libevent \<Rightarrow> nat \<Rightarrow> evbuf \<Rightarrow> ('c, 'w, 'z, string) ev_prog" where
  "Evbuffer_readln L style b =
     andthen (lib (evbuffer_search_eol L (buf_ptr b) None style))
       (\<lambda>(pos, eol_length).
          if pos < 0 then ret ''''
          else andthen (Evbuffer_remove L (nat pos) b)
            (\<lambda>out. andthen (Evbuffer_drain L eol_length b) (\<lambda>_. ret out)))"

section \<open>Integers in network byte order\<close>

text \<open>
  \<open>htons\<close> and \<open>htonl\<close> reverse the bytes on the little-endian machines the program builds for,
  and \<open>add(&num, sizeof(num))\<close> writes the bytes of \<open>num\<close> as they lie in memory, least
  significant first.
\<close>

definition bytes16 :: "u16 \<Rightarrow> string" where
  "bytes16 w = map (\<lambda>i. char_of (unat (drop_bit (8 * i) w) mod 256)) [0, 1]"

definition bytes32 :: "u32 \<Rightarrow> string" where
  "bytes32 w = map (\<lambda>i. char_of (unat (drop_bit (8 * i) w) mod 256)) [0, 1, 2, 3]"

definition htons :: "u16 \<Rightarrow> u16" where
  "htons w = word_of_nat (unat w mod 256 * 256 + unat w div 256)"

definition htonl :: "u32 \<Rightarrow> u32" where
  "htonl w = word_of_nat (unat w mod 256 * 16777216 + unat w div 256 mod 256 * 65536 +
     unat w div 65536 mod 256 * 256 + unat w div 16777216)"

definition Evbuffer_add_uint8 :: "'w libevent \<Rightarrow> u8 \<Rightarrow> evbuf \<Rightarrow> ('c, 'w, 'z, unit) ev_prog" where
  "Evbuffer_add_uint8 L num b = Evbuffer_add L [char_of (unat num)] b"

definition Evbuffer_add_uint16 :: "'w libevent \<Rightarrow> u16 \<Rightarrow> evbuf \<Rightarrow> ('c, 'w, 'z, unit) ev_prog" where
  "Evbuffer_add_uint16 L num b = Evbuffer_add L (bytes16 (htons num)) b"

definition Evbuffer_add_uint32 :: "'w libevent \<Rightarrow> u32 \<Rightarrow> evbuf \<Rightarrow> ('c, 'w, 'z, unit) ev_prog" where
  "Evbuffer_add_uint32 L num b = Evbuffer_add L (bytes32 (htonl num)) b"

section \<open>The wrappers of Evbuffer against their specification\<close>

lemma extents_loop_copyout:
  "fst (extents_loop copyout_extent (out, n) exts) = out @ take n (concat exts)"
proof (induction exts arbitrary: out n)
  case Nil
  then show ?case by simp
next
  case (Cons x xs)
  then show ?case by (simp add: copyout_extent_def Let_def)
qed

lemma runs_lib_check [prog_simps]:
  "runs (lib_check f e) s P =
     (case f (world s) of (rc, w) \<Rightarrow>
        if rc = 0 then P () (s\<lparr>world := w\<rparr>) else runs e (s\<lparr>world := w\<rparr>) P)"
  by (auto simp: lib_check_def prog_simps split: prod.splits)

context evbuffer_api
begin

lemma runs_get_length [runs_intros]:
  "P (length (content (world s) (buf_ptr b))) s \<Longrightarrow> runs (Evbuffer_get_length L b) s P"
  by (simp add: Evbuffer_get_length_def get_length prog_simps)

lemma runs_drain [runs_intros]:
  assumes "\<And>w'. content w' =
      (content (world s))(buf_ptr b := drop n (content (world s) (buf_ptr b))) \<Longrightarrow>
      P () (s\<lparr>world := w'\<rparr>)"
  shows "runs (Evbuffer_drain L n b) s P"
  using drain [of "buf_ptr b" n "world s"] assms by (auto simp: Evbuffer_drain_def prog_simps)

lemma runs_add [runs_intros]:
  assumes "\<And>w'. content w' =
      (content (world s))(buf_ptr b := content (world s) (buf_ptr b) @ bs) \<Longrightarrow>
      P () (s\<lparr>world := w'\<rparr>)"
  shows "runs (Evbuffer_add L bs b) s P"
  using add [of "buf_ptr b" bs "world s"] assms by (auto simp: Evbuffer_add_def prog_simps)

lemma runs_copyout [runs_intros]:
  assumes "P (take n (content (world s) (buf_ptr b))) s"
  shows "runs (Evbuffer_copyout L n b) s P"
proof -
  obtain exts where e: "concat exts = content (world s) (buf_ptr b)"
    and p: "\<And>k. evbuffer_peek L (buf_ptr b) (- 1) None k (world s)
      = ((int (length exts), take k exts), world s)"
    using peek by meson
  have "fst (extents_loop copyout_extent ([], n) exts) = take n (content (world s) (buf_ptr b))"
    by (simp add: extents_loop_copyout e)
  then show ?thesis
    using assms e
    by (cases exts) (auto simp: Evbuffer_copyout_def Evbuffer_for_each_def Evbuffer_peek_def prog_simps p
        case_prod_beta)
qed

lemma runs_remove [runs_intros]:
  assumes "\<And>w'. content w' =
      (content (world s))(buf_ptr b := drop n (content (world s) (buf_ptr b))) \<Longrightarrow>
      P (take n (content (world s) (buf_ptr b))) (s\<lparr>world := w'\<rparr>)"
  shows "runs (Evbuffer_remove L n b) s P"
proof (cases "take n (content (world s) (buf_ptr b)) = []")
  case True
  then have "drop n (content (world s) (buf_ptr b)) = content (world s) (buf_ptr b)" by auto
  then have "P (take n (content (world s) (buf_ptr b))) (s\<lparr>world := world s\<rparr>)"
    by (intro assms) simp
  with True show ?thesis
    unfolding Evbuffer_remove_def
    by (auto simp: prog_simps intro!: runs_copyout)
next
  case False
  have "drop (length (take n (content (world s) (buf_ptr b)))) (content (world s) (buf_ptr b))
      = drop n (content (world s) (buf_ptr b))"
    by (simp add: min_def)
  with False assms show ?thesis
    unfolding Evbuffer_remove_def
    by (auto simp: prog_simps intro!: runs_copyout runs_drain)
qed

text \<open>
  \<open>readln\<close>: nothing is consumed when no terminator is buffered; otherwise the line is returned
  and it is consumed with its terminator.
\<close>

lemma runs_readln:
  assumes none: "find_eol (content (world s) (buf_ptr b)) = None \<Longrightarrow> P '''' s"
    and some: "\<And>pos n w'. find_eol (content (world s) (buf_ptr b)) = Some (pos, n) \<Longrightarrow>
      content w' = (content (world s))(buf_ptr b := drop (pos + n) (content (world s) (buf_ptr b))) \<Longrightarrow>
      P (take pos (content (world s) (buf_ptr b))) (s\<lparr>world := w'\<rparr>)"
  shows "runs (Evbuffer_readln L (EVBUFFER_EOL_CRLF L) b) s P"
proof (cases "find_eol (content (world s) (buf_ptr b))")
  case None
  with none [OF None] show ?thesis
    by (simp add: Evbuffer_readln_def prog_simps search_eol)
next
  case (Some r)
  then obtain pos n where r: "find_eol (content (world s) (buf_ptr b)) = Some (pos, n)"
    by (cases r) auto
  show ?thesis
    unfolding Evbuffer_readln_def
    using some [OF r]
    by (auto simp: prog_simps search_eol r add.commute intro!: runs_remove runs_drain)
qed

end

text \<open>When a C function fails, its wrapper throws the error of that function.\<close>

lemma Evbuffer_drain_error:
  assumes "evbuffer_drain L (buf_ptr b) n (world s) = (rc, w')" and "rc \<noteq> 0"
  shows "Evbuffer_drain L n b s =
    (Throw (ErrorExn (mk_located ''src/common/libevent.hpp'' 181 ''drain'' EvbufferDrainError)),
     s\<lparr>world := w'\<rparr>)"
  using assms by (simp add: Evbuffer_drain_def lib_check_def prog_simps)

lemma EventBase_once_error:
  assumes "event_base_once L (base_ptr base) sock what (next_once s) timeo (world s) = (rc, w')"
    and "rc \<noteq> 0" and "onces s (next_once s) = None"
  shows "EventBase_once L base sock what cb timeo s =
    (Throw (ErrorExn (mk_located ''src/common/libevent.hpp'' 139 ''once'' EventBaseOnceError)),
     s\<lparr>world := w', next_once := Suc (next_once s)\<rparr>)"
  using assms
  by (simp add: EventBase_once_def alloc_once_def delete_once_def lib_check_def prog_simps
      fun_upd_idem)

section \<open>Byte order\<close>

lemma unat_u16: "m < 65536 \<Longrightarrow> unat (word_of_nat m :: u16) = m"
  by (simp add: unat_of_nat take_bit_nat_eq_self)

lemma unat_u16_less: "unat (w :: u16) < 65536"
  using unsigned_less [of w] by simp

lemma bytes16_htons:
  "bytes16 (htons w) = [char_of (unat w div 256), char_of (unat w mod 256)]"
proof -
  define n where "n = unat w"
  have n: "n < 65536" unfolding n_def by (rule unat_u16_less)
  then have "n div 256 < 256" by (simp add: less_mult_imp_div_less)
  then have small: "n mod 256 * 256 + n div 256 < 65536"
    using mod_less_divisor [of 256 n] by linarith
  have "unat (htons w) = n mod 256 * 256 + n div 256"
    unfolding htons_def n_def [symmetric] by (rule unat_u16 [OF small])
  then show ?thesis
    using n by (simp add: bytes16_def n_def [symmetric] drop_bit_eq_div unat_div)
qed

end
