(* ===== verification/Bufferevent.thy ===== *)
theory Bufferevent
  imports Evbuffer
begin

unbundle bit_operations_syntax

text \<open>
  \<open>src/common/libevent.hpp\<close>, second part: the class \<open>Bufferevent\<close>; and
  \<open>src/common/libevent.cpp\<close>: the C callbacks libevent calls, and the delayed deletion of
  bufferevents that C++ code no longer refers to.
\<close>

section \<open>Objects and handles\<close>

text \<open>
  A handle always designates a live object in the C++ program, because a \<open>Var\<close> keeps its
  object alive.  A handle of a deleted object is undefined behaviour.
\<close>

definition bev_get :: "nat \<Rightarrow> ('c, 'w, 'z, 'c bufev) ev_prog" where
  "bev_get h = andthen (gets (\<lambda>s. bevs s h))
     (\<lambda>r. case r of None \<Rightarrow> raise (UndefinedBehaviour ''dangling Bufferevent'') | Some b \<Rightarrow> ret b)"

definition bev_put :: "nat \<Rightarrow> 'c bufev \<Rightarrow> ('c, 'w, 'z, unit) ev_prog" where
  "bev_put h b = modify (\<lambda>s. s\<lparr>bevs := (bevs s)(h \<mapsto> b)\<rparr>)"

lemma bev_get_run [prog_simps]: "bevs s h = Some b \<Longrightarrow> bev_get h s = (Return b, s)"
  by (simp add: bev_get_def prog_simps)

lemma runs_bev_get [prog_simps]: "bevs s h = Some b \<Longrightarrow> runs (bev_get h) s P = P b s"
  by (simp add: runs_def prog_simps)

lemma runs_bev_put [prog_simps]:
  "runs (bev_put h b) s P = P () (s\<lparr>bevs := (bevs s)(h \<mapsto> b)\<rparr>)"
  by (simp add: bev_put_def prog_simps)

text \<open>A method that calls a C function on \<open>bevp\<close> and throws if it fails.\<close>

definition bev_lib_check ::
  "nat \<Rightarrow> (cptr \<Rightarrow> 'w \<Rightarrow> int \<times> 'w) \<Rightarrow> ('c, 'w, 'z, unit) ev_prog \<Rightarrow> ('c, 'w, 'z, unit) ev_prog"
where
  "bev_lib_check h f on_error = andthen (bev_get h) (\<lambda>b. lib_check (f (bevp b)) on_error)"

lemma runs_bev_lib_check [prog_simps]:
  "bevs s h = Some b \<Longrightarrow>
   runs (bev_lib_check h f e) s P = runs (lib_check (f (bevp b)) e) s P"
  by (simp add: bev_lib_check_def prog_simps)

section \<open>The class Bufferevent\<close>

definition event_string :: "'w libevent \<Rightarrow> u16 \<Rightarrow> string" where
  "event_string L what =
     (if what AND BEV_EVENT_READING L \<noteq> 0 then ''reading '' else '''') @
     (if what AND BEV_EVENT_WRITING L \<noteq> 0 then ''writing '' else '''') @
     (if what AND BEV_EVENT_CONNECTED L \<noteq> 0 then ''connected '' else '''') @
     (if what AND BEV_EVENT_EOF L \<noteq> 0 then ''eof '' else '''') @
     (if what AND BEV_EVENT_TIMEOUT L \<noteq> 0 then ''timeout '' else '''') @
     (if what AND BEV_EVENT_ERROR L \<noteq> 0 then ''error '' else '''')"

definition new_bufev :: "evbase \<Rightarrow> cptr \<Rightarrow> 'c bufev" where
  "new_bufev base p =
     \<lparr>event_cb = None, read_cb = None, write_cb = None, bevp = p, bev_base = base, varp = True\<rparr>"

definition alloc_bev :: "'c bufev \<Rightarrow> ('c, 'w, 'z, nat) ev_prog" where
  "alloc_bev b = andthen (gets next_bev)
     (\<lambda>h. andthen (modify (\<lambda>s. s\<lparr>bevs := (bevs s)(h \<mapsto> b), next_bev := Suc h\<rparr>)) (\<lambda>_. ret h))"

definition socket_new :: "'w libevent \<Rightarrow> evbase \<Rightarrow> int \<Rightarrow> int \<Rightarrow> ('c, 'w, 'z, nat) ev_prog" where
  "socket_new L base fd flags =
     andthen (lib (bufferevent_socket_new L (base_ptr base) fd flags))
       (\<lambda>p. if p = nullptr then LH_THROW 327 ''socket_new'' BuffereventSocketNewError
          else andthen (alloc_bev (new_bufev base p))
            (\<lambda>h. andthen (lib (\<lambda>w. ((), bufferevent_setcb L p (Some h) w))) (\<lambda>_. ret h)))"

definition socket_connect :: "'w libevent \<Rightarrow> string \<Rightarrow> int \<Rightarrow> nat \<Rightarrow> ('c, 'w, 'z, unit) ev_prog" where
  "socket_connect L sa len h =
     bev_lib_check h (\<lambda>p. bufferevent_socket_connect L p sa len)
       (LH_THROW 349 ''socket_connect'' BuffereventSocketConnectError)"

definition setcb ::
  "'c option \<Rightarrow> 'c option \<Rightarrow> 'c option \<Rightarrow> nat \<Rightarrow> ('c, 'w, 'z, unit) ev_prog" where
  "setcb readcb writecb eventcb h =
     andthen (bev_get h)
       (\<lambda>b. bev_put h (b\<lparr>event_cb := eventcb, read_cb := readcb, write_cb := writecb\<rparr>))"

definition bev_write :: "'w libevent \<Rightarrow> string \<Rightarrow> nat \<Rightarrow> ('c, 'w, 'z, unit) ev_prog" where
  "bev_write L base h =
     bev_lib_check h (\<lambda>p. bufferevent_write L p base)
       (LH_THROW 363 ''write'' BuffereventWriteError)"

definition write_buffer :: "'w libevent \<Rightarrow> evbuf \<Rightarrow> nat \<Rightarrow> ('c, 'w, 'z, unit) ev_prog" where
  "write_buffer L sb h =
     bev_lib_check h (\<lambda>p. bufferevent_write_buffer L p (buf_ptr sb))
       (LH_THROW 371 ''write_buffer'' BuffereventWriteBufferError)"

definition bev_read :: "'w libevent \<Rightarrow> nat \<Rightarrow> nat \<Rightarrow> ('c, 'w, 'z, string) ev_prog" where
  "bev_read L count h = andthen (bev_get h) (\<lambda>b. lib (bufferevent_read L (bevp b) count))"

definition read_buffer :: "'w libevent \<Rightarrow> evbuf \<Rightarrow> nat \<Rightarrow> ('c, 'w, 'z, unit) ev_prog" where
  "read_buffer L d h =
     bev_lib_check h (\<lambda>p. bufferevent_read_buffer L p (buf_ptr d))
       (LH_THROW 383 ''read_buffer'' BuffereventReadBufferError)"

definition enable :: "'w libevent \<Rightarrow> u16 \<Rightarrow> nat \<Rightarrow> ('c, 'w, 'z, unit) ev_prog" where
  "enable L what h =
     bev_lib_check h (\<lambda>p. bufferevent_enable L p what)
       (LH_THROW 390 ''enable'' BuffereventEnableError)"

definition disable :: "'w libevent \<Rightarrow> u16 \<Rightarrow> nat \<Rightarrow> ('c, 'w, 'z, unit) ev_prog" where
  "disable L what h =
     bev_lib_check h (\<lambda>p. bufferevent_disable L p what)
       (LH_THROW 397 ''disable'' BuffereventDisableError)"

definition set_timeouts ::
  "'w libevent \<Rightarrow> timeval option \<Rightarrow> timeval option \<Rightarrow> nat \<Rightarrow> ('c, 'w, 'z, unit) ev_prog" where
  "set_timeouts L rto wto h =
     bev_lib_check h (\<lambda>p. bufferevent_set_timeouts L p rto wto)
       (LH_THROW 405 ''set_timeouts'' BuffereventSetTimeoutsError)"

text \<open>
  \<open>openssl_filter_new\<close> takes over the C bufferevent of \<open>underlying\<close>: the new object owns a
  filter around it, and \<open>underlying\<close> is left with a null \<open>bevp\<close> and no callbacks.
\<close>

definition openssl_filter_new ::
  "'w libevent \<Rightarrow> evbase \<Rightarrow> nat \<Rightarrow> cptr \<Rightarrow> int \<Rightarrow> int \<Rightarrow> ('c, 'w, 'z, nat) ev_prog" where
  "openssl_filter_new L base underlying ssl state options =
     andthen (bev_get underlying)
       (\<lambda>u. andthen (lib (bufferevent_openssl_filter_new L (base_ptr base) (bevp u) ssl state options))
         (\<lambda>p. if p = nullptr
            then LH_THROW 422 ''openssl_filter_new'' BuffereventOpensslFilterNewError
            else andthen (bev_put underlying (u\<lparr>bevp := nullptr\<rparr>))
              (\<lambda>_. andthen (setcb None None None underlying)
              (\<lambda>_. andthen (alloc_bev (new_bufev base p))
              (\<lambda>h. andthen (lib (\<lambda>w. ((), bufferevent_setcb L p (Some h) w)))
              (\<lambda>_. ret h))))))"

definition get_openssl_error :: "'w libevent \<Rightarrow> nat \<Rightarrow> ('c, 'w, 'z, nat) ev_prog" where
  "get_openssl_error L h =
     andthen (bev_get h) (\<lambda>b. lib (bufferevent_get_openssl_error L (bevp b)))"

definition get_input :: "'w libevent \<Rightarrow> nat \<Rightarrow> ('c, 'w, 'z, evbuf) ev_prog" where
  "get_input L h =
     andthen (bev_get h) (\<lambda>b. Evbuffer_assign (bufferevent_get_input L (bevp b)) False)"

definition get_output :: "'w libevent \<Rightarrow> nat \<Rightarrow> ('c, 'w, 'z, evbuf) ev_prog" where
  "get_output L h =
     andthen (bev_get h) (\<lambda>b. Evbuffer_assign (bufferevent_get_output L (bevp b)) False)"

section \<open>The C callbacks\<close>

text \<open>
  \<open>unique h s\<close> stands for \<open>varp->unique()\<close>: the reference held by \<open>varp\<close> is the only one left.
  It is an argument because it counts the references in the closures of the client.

  Deleting \<open>varp\<close> drops its reference; the deleter of the shared pointer runs when it was the
  last.
\<close>

definition bufev_deleter :: "'w libevent \<Rightarrow> nat \<Rightarrow> ('c, 'w, 'z, unit) ev_prog" where
  "bufev_deleter L h =
     andthen (bev_get h)
       (\<lambda>p. andthen (if bevp p \<noteq> nullptr then lib (\<lambda>w. ((), bufferevent_free L (bevp p) w)) else ret ())
         (\<lambda>_. modify (\<lambda>s. s\<lparr>bevs := (bevs s)(h := None)\<rparr>)))"

definition delete_varp ::
  "'w libevent \<Rightarrow> (nat \<Rightarrow> ('c, 'w, 'z) evst_scheme \<Rightarrow> bool) \<Rightarrow> nat \<Rightarrow> ('c, 'w, 'z, unit) ev_prog"
where
  "delete_varp L unique h =
     andthen (bev_get h)
       (\<lambda>b. if \<not> varp b then raise (UndefinedBehaviour ''double delete'')
          else andthen (gets (unique h))
            (\<lambda>u. andthen (bev_put h (b\<lparr>varp := False\<rparr>))
              (\<lambda>_. if u then bufev_deleter L h else ret ())))"

definition is_ignored_by_cxx :: "'w libevent \<Rightarrow> nat \<Rightarrow> ('c, 'w, 'z, unit) ev_prog" where
  "is_ignored_by_cxx L h =
     andthen (bev_get h)
       (\<lambda>b. andthen
          (if bevp b \<noteq> nullptr
           then andthen (lib (\<lambda>w. ((), bufferevent_setcb L (bevp b) None w)))
             (\<lambda>_. andthen (lib (bufferevent_disable L (bevp b) (EV_READ L OR EV_WRITE L)))
               (\<lambda>_. ret ()))
           else ret ())
          (\<lambda>_. EventBase_once L (bev_base b) (- 1) (EV_TIMEOUT L) (DeleteVarp h)
             (Some \<lparr>tv_sec = 0, tv_usec = 0\<rparr>)))"

text \<open>
  The three callbacks have one shape: run the member if C++ code still refers to the object and
  the member is set, then dispose of the object if C++ code no longer refers to it.
\<close>

definition bev_callback ::
  "'w libevent \<Rightarrow> (nat \<Rightarrow> ('c, 'w, 'z) evst_scheme \<Rightarrow> bool) \<Rightarrow> ('c bufev \<Rightarrow> 'c option) \<Rightarrow>
   ('c \<Rightarrow> ('c, 'w, 'z, unit) ev_prog) \<Rightarrow> nat \<Rightarrow> ('c, 'w, 'z, unit) ev_prog" where
  "bev_callback L unique member run h =
     andthen (bev_get h)
       (\<lambda>b. if \<not> varp b then raise (UndefinedBehaviour ''dangling varp'')
          else andthen (gets (unique h))
            (\<lambda>u. andthen
               (if \<not> u \<and> func_bool (member b)
                then func_call (\<lambda>s. Option.bind (bevs s h) member) run else ret ())
               (\<lambda>_. andthen (gets (unique h))
                 (\<lambda>u'. if u' then is_ignored_by_cxx L h else ret ()))))"

definition mk_libevent_bev_read ::
  "'w libevent \<Rightarrow> (nat \<Rightarrow> ('c, 'w, 'z) evst_scheme \<Rightarrow> bool) \<Rightarrow>
   ('c \<Rightarrow> ('c, 'w, 'z, unit) ev_prog) \<Rightarrow> nat \<Rightarrow> ('c, 'w, 'z, unit) ev_prog" where
  "mk_libevent_bev_read L unique run h = bev_callback L unique read_cb run h"

definition mk_libevent_bev_write ::
  "'w libevent \<Rightarrow> (nat \<Rightarrow> ('c, 'w, 'z) evst_scheme \<Rightarrow> bool) \<Rightarrow>
   ('c \<Rightarrow> ('c, 'w, 'z, unit) ev_prog) \<Rightarrow> nat \<Rightarrow> ('c, 'w, 'z, unit) ev_prog" where
  "mk_libevent_bev_write L unique run h = bev_callback L unique write_cb run h"

definition mk_libevent_bev_event ::
  "'w libevent \<Rightarrow> (nat \<Rightarrow> ('c, 'w, 'z) evst_scheme \<Rightarrow> bool) \<Rightarrow>
   ('c \<Rightarrow> u16 \<Rightarrow> ('c, 'w, 'z, unit) ev_prog) \<Rightarrow> u16 \<Rightarrow> nat \<Rightarrow> ('c, 'w, 'z, unit) ev_prog" where
  "mk_libevent_bev_event L unique run what h = bev_callback L unique event_cb (\<lambda>c. run c what) h"

definition run_once_clo ::
  "'w libevent \<Rightarrow> (nat \<Rightarrow> ('c, 'w, 'z) evst_scheme \<Rightarrow> bool) \<Rightarrow>
   ('c \<Rightarrow> u16 \<Rightarrow> ('c, 'w, 'z, unit) ev_prog) \<Rightarrow> 'c once_clo \<Rightarrow> u16 \<Rightarrow> ('c, 'w, 'z, unit) ev_prog"
where
  "run_once_clo L unique run c w =
     (case c of Once k \<Rightarrow> run k w | DeleteVarp h \<Rightarrow> delete_varp L unique h)"

definition mk_libevent_event_cb ::
  "'w libevent \<Rightarrow> (nat \<Rightarrow> ('c, 'w, 'z) evst_scheme \<Rightarrow> bool) \<Rightarrow>
   ('c \<Rightarrow> u16 \<Rightarrow> ('c, 'w, 'z, unit) ev_prog) \<Rightarrow> u16 \<Rightarrow> nat \<Rightarrow> ('c, 'w, 'z, unit) ev_prog" where
  "mk_libevent_event_cb L unique run w p =
     andthen (gets (\<lambda>s. onces s p))
       (\<lambda>f. case f of
            None \<Rightarrow> raise (UndefinedBehaviour ''dangling function'')
          | Some c \<Rightarrow> andthen (run_once_clo L unique run c w) (\<lambda>_. delete_once p))"

section \<open>Running the methods\<close>

lemma runs_setcb [prog_simps]:
  "bevs s h = Some b \<Longrightarrow> runs (setcb r w e h) s P =
     P () (s\<lparr>bevs := (bevs s)(h \<mapsto> b\<lparr>event_cb := e, read_cb := r, write_cb := w\<rparr>)\<rparr>)"
  by (simp add: setcb_def prog_simps)

lemma setcb_dangling: "bevs s h = None \<Longrightarrow>
    setcb r w e h s = (Throw (UndefinedBehaviour ''dangling Bufferevent''), s)"
  by (simp add: setcb_def bev_get_def prog_simps)

context bufferevent_api
begin

lemma runs_get_input [runs_intros]:
  assumes "bevs s h = Some b" "bevp b \<noteq> nullptr"
    and "P \<lparr>buf_ptr = bufferevent_get_input L (bevp b), buf_owned = False\<rparr> s"
  shows "runs (get_input L h) s P"
  using assms input_nonnull [of "bevp b"]
  by (simp add: get_input_def Evbuffer_assign_def prog_simps)

lemma runs_get_output [runs_intros]:
  assumes "bevs s h = Some b" "bevp b \<noteq> nullptr"
    and "P \<lparr>buf_ptr = bufferevent_get_output L (bevp b), buf_owned = False\<rparr> s"
  shows "runs (get_output L h) s P"
  using assms output_nonnull [of "bevp b"]
  by (simp add: get_output_def Evbuffer_assign_def prog_simps)

lemma runs_write [runs_intros]:
  assumes "bevs s h = Some b"
    and "\<And>w'. content w' = (content (world s))(bufferevent_get_output L (bevp b) :=
      content (world s) (bufferevent_get_output L (bevp b)) @ bs) \<Longrightarrow> P () (s\<lparr>world := w'\<rparr>)"
  shows "runs (bev_write L bs h) s P"
  using bev_write [of "bevp b" bs "world s"] assms
  by (auto simp: bev_write_def prog_simps)

lemma runs_enable [runs_intros]:
  assumes "bevs s h = Some b"
    and "\<And>w'. content w' = content (world s) \<Longrightarrow> P () (s\<lparr>world := w'\<rparr>)"
  shows "runs (enable L what h) s P"
  using bev_enable [of "bevp b" what "world s"] assms by (auto simp: enable_def prog_simps)

lemma runs_set_timeouts [runs_intros]:
  assumes "bevs s h = Some b"
    and "\<And>w'. content w' = content (world s) \<Longrightarrow> P () (s\<lparr>world := w'\<rparr>)"
  shows "runs (set_timeouts L rto wto h) s P"
  using bev_set_timeouts [of "bevp b" rto wto "world s"] assms
  by (auto simp: set_timeouts_def prog_simps)

lemma runs_socket_connect [runs_intros]:
  assumes "bevs s h = Some b"
    and "\<And>w'. content w' = content (world s) \<Longrightarrow> P () (s\<lparr>world := w'\<rparr>)"
  shows "runs (socket_connect L sa len h) s P"
  using bev_socket_connect [of "bevp b" sa len "world s"] assms
  by (auto simp: socket_connect_def prog_simps)

lemma runs_socket_new [runs_intros]:
  assumes "\<And>p w'. p \<noteq> nullptr \<Longrightarrow> content w' = content (world s) \<Longrightarrow>
      content (world s) (bufferevent_get_input L p) = [] \<Longrightarrow>
      content (world s) (bufferevent_get_output L p) = [] \<Longrightarrow>
      P (next_bev s) (s\<lparr>bevs := (bevs s)(next_bev s \<mapsto> new_bufev base p),
        next_bev := Suc (next_bev s), world := w'\<rparr>)"
  shows "runs (socket_new L base fd flags) s P"
proof -
  obtain p w1 where 1: "bufferevent_socket_new L (base_ptr base) fd flags (world s) = (p, w1)"
    "p \<noteq> nullptr" "content w1 = content (world s)"
    "content (world s) (bufferevent_get_input L p) = []"
    "content (world s) (bufferevent_get_output L p) = []"
    using bev_socket_new [of "base_ptr base" fd flags "world s"] by auto
  then show ?thesis
    using assms [of p "bufferevent_setcb L p (Some (next_bev s)) w1"]
      bev_setcb [of p "Some (next_bev s)" w1]
    by (simp add: socket_new_def alloc_bev_def prog_simps)
qed

lemma runs_once_call:
  assumes "\<And>w'. content w' = content (world s) \<Longrightarrow>
      event_base_once L (base_ptr base) sock what (next_once s) timeo (world s) = (0, w') \<Longrightarrow>
      P () (s\<lparr>onces := (onces s)(next_once s \<mapsto> cb),
        next_once := Suc (next_once s), world := w'\<rparr>)"
  shows "runs (EventBase_once L base sock what cb timeo) s P"
  using bev_once [of "base_ptr base" sock what "next_once s" timeo "world s"] assms
  by (auto simp: EventBase_once_def alloc_once_def prog_simps)

lemma runs_once [runs_intros]:
  assumes "\<And>w'. content w' = content (world s) \<Longrightarrow>
      P () (s\<lparr>onces := (onces s)(next_once s \<mapsto> cb),
        next_once := Suc (next_once s), world := w'\<rparr>)"
  shows "runs (EventBase_once L base sock what cb timeo) s P"
  by (rule runs_once_call) (rule assms)

end

end
