(* ===== verification/Helper_State.thy ===== *)
theory Helper_State
  imports Bufferevent
begin

text \<open>
  The state that \<open>src/common/evhelpers.hpp\<close> has besides the objects of libevent: the strings and booleans
  its functions are given the addresses of, the flag \<open>VERBOSE\<close>, what is written to \<open>std::clog\<close>, and the
  singleton of \<open>SslContext\<close>.  The state of \<open>OnionCtrl\<close> extends it, so that one program can use both.
\<close>

record ('c, 'w) ehst = "('c, 'w) evst" +
  strings :: "nat \<Rightarrow> string"
  flags :: "nat \<Rightarrow> bool"
  verbose :: bool
  clog :: string
  ssl_singleton :: "cptr option"

abbreviation same_helpers :: "('c, 'w, 'z) ehst_scheme \<Rightarrow> ('c, 'w, 'z) ehst_scheme \<Rightarrow> bool" where
  "same_helpers s t \<equiv> strings t = strings s \<and> flags t = flags s \<and> verbose t = verbose s \<and> clog t = clog s \<and>
     ssl_singleton t = ssl_singleton s"

end
