(* ===== verification/Onion_Parse.thy ===== *)
theory Onion_Parse
  imports Errors
begin

text \<open>
  \<open>src/tor/onion-ctrl.hpp\<close>, the parts that do no I/O: the statuses, the commands sent to tor,
  the tokenizer, and the parsers of the replies.
\<close>

section \<open>Statuses\<close>

datatype onion_status =
    ASYNC
  | UNRECOGNIZED_ENTITY
  | OK
  | NO_ERROR
  | GENERIC_ERROR
  | CONNECT_FAILED
  | UNEXPECTED_REPLY
  | EXPECTED_NOTICE_TOKEN
  | EXPECTED_BOOTSTRAP_TOKEN
  | EXPECTED_PROGRESS_KEY
  | EXPECTED_MORE_TOKENS
  | TOO_MANY_DIGITS
  | NOT_A_DIGIT
  | EXPECTED_VAR_NAME_KEY
  | EXPECTED_STATUS_CLIENT_TOKEN
  | UNEXPECTED_STATUS
  | TIMEOUT_ERROR
  | IO_ERROR
  | EOF_ERROR
  | UNKNOWN_STATUS_ERROR
  | ALREADY_CONNECTED
  | CANNOT_PARSE_ADDRPORT

fun onion_status_value :: "onion_status \<Rightarrow> int" where
  "onion_status_value ASYNC = 650"
| "onion_status_value UNRECOGNIZED_ENTITY = 552"
| "onion_status_value OK = 250"
| "onion_status_value NO_ERROR = 0"
| "onion_status_value GENERIC_ERROR = - 1"
| "onion_status_value CONNECT_FAILED = - 2"
| "onion_status_value UNEXPECTED_REPLY = - 3"
| "onion_status_value EXPECTED_NOTICE_TOKEN = - 4"
| "onion_status_value EXPECTED_BOOTSTRAP_TOKEN = - 5"
| "onion_status_value EXPECTED_PROGRESS_KEY = - 6"
| "onion_status_value EXPECTED_MORE_TOKENS = - 7"
| "onion_status_value TOO_MANY_DIGITS = - 8"
| "onion_status_value NOT_A_DIGIT = - 9"
| "onion_status_value EXPECTED_VAR_NAME_KEY = - 10"
| "onion_status_value EXPECTED_STATUS_CLIENT_TOKEN = - 11"
| "onion_status_value UNEXPECTED_STATUS = - 12"
| "onion_status_value TIMEOUT_ERROR = - 13"
| "onion_status_value IO_ERROR = - 14"
| "onion_status_value EOF_ERROR = - 15"
| "onion_status_value UNKNOWN_STATUS_ERROR = - 16"
| "onion_status_value ALREADY_CONNECTED = - 17"
| "onion_status_value CANNOT_PARSE_ADDRPORT = - 18"

section \<open>Commands\<close>

definition cmd_authenticate :: "string \<Rightarrow> string" where
  "cmd_authenticate param =
     ''AUTHENTICATE'' @ (if param \<noteq> '''' then '' '' @ param else '''') @ crlf"

definition cmd_disable_network :: "bool \<Rightarrow> string" where
  "cmd_disable_network value =
     ''SETCONF DisableNetwork='' @ (if value then ''1'' else ''0'') @ crlf"

text \<open>
  \<open>read_file\<close> is the file system: the content of a file, or nothing when opening or reading it
  fails.
\<close>

definition read_auth_cookie_as_string :: "(string \<Rightarrow> string option) \<Rightarrow> string \<Rightarrow> string" where
  "read_auth_cookie_as_string read_file source =
     (case read_file source of Some s \<Rightarrow> s | None \<Rightarrow> '''')"

text \<open>
  \<open>ss << std::hex << std::setfill('0')\<close>, then \<open>std::setw(2) << n\<close> for each byte.
\<close>

definition setw :: "nat \<Rightarrow> char \<Rightarrow> string \<Rightarrow> string" where
  "setw width fill s = replicate (width - length s) fill @ s"

definition auth_cookie_to_hex :: "string \<Rightarrow> string" where
  "auth_cookie_to_hex source =
     concat (map (\<lambda>c. setw 2 (CHR ''0'') (show_base 16 (uchar c))) source)"

definition read_auth_cookie_as_hex :: "(string \<Rightarrow> string option) \<Rightarrow> string \<Rightarrow> string" where
  "read_auth_cookie_as_hex read_file source =
     auth_cookie_to_hex (read_auth_cookie_as_string read_file source)"

section \<open>Tokens\<close>

fun tokenize_loop :: "string list \<Rightarrow> string \<Rightarrow> string \<Rightarrow> string list" where
  "tokenize_loop vec cur [] = (if cur \<noteq> '''' then vec @ [cur] else vec)"
| "tokenize_loop vec cur (c # s) =
     (if isspace c
      then (if cur \<noteq> '''' then tokenize_loop (vec @ [cur]) '''' s else tokenize_loop vec cur s)
      else tokenize_loop vec (cur @ [c]) s)"

definition tokenize :: "string \<Rightarrow> string list" where
  "tokenize s = tokenize_loop [] '''' s"

section \<open>Replies\<close>

text \<open>\<open>phase\<close> is a reference: the result is the status and what \<open>phase\<close> holds afterwards.\<close>

definition parse_bootstrap_progress ::
  "string \<Rightarrow> int \<Rightarrow> ('s, exn, onion_status \<times> int) prog" where
  "parse_bootstrap_progress s phase =
     (let vec = tokenize s in
      if length vec < 3 then ret (EXPECTED_MORE_TOKENS, phase)
      else if vec ! 0 \<noteq> ''NOTICE'' then ret (EXPECTED_NOTICE_TOKEN, phase)
      else if vec ! 1 \<noteq> ''BOOTSTRAP'' then ret (EXPECTED_BOOTSTRAP_TOKEN, phase)
      else if str_find (vec ! 2) ''PROGRESS='' \<noteq> Some 0 then ret (EXPECTED_PROGRESS_KEY, phase)
      else andthen (substr (vec ! 2) (length ''PROGRESS=''))
        (\<lambda>v. if 3 < length v then ret (TOO_MANY_DIGITS, phase)
           else if list_ex (\<lambda>c. \<not> isdigit c) v then ret (NOT_A_DIGIT, phase)
           else ret (OK, atoi (c_str v))))"

definition getconf_int ::
  "onion_status \<Rightarrow> char \<Rightarrow> string \<Rightarrow> string \<Rightarrow> int \<Rightarrow>
   (onion_status \<Rightarrow> int \<Rightarrow> ('s, exn, unit) prog) \<Rightarrow> ('s, exn, unit) prog" where
  "getconf_int status type s var_name default_value cb =
     (if status \<noteq> OK then cb status 0
      else if type \<noteq> CHR '' '' then cb UNEXPECTED_REPLY 0
      else if s = var_name then cb OK default_value
      else if str_find s var_name \<noteq> Some 0 then cb EXPECTED_VAR_NAME_KEY 0
      else andthen (substr s (length var_name + 1))
        (\<lambda>s. if 5 < length s then cb TOO_MANY_DIGITS 0
           else if list_ex (\<lambda>c. \<not> isdigit c) s then cb NOT_A_DIGIT 0
           else cb OK (atoi (c_str s))))"

definition do_void_cb ::
  "onion_status \<Rightarrow> char \<Rightarrow> (onion_status \<Rightarrow> ('s, exn, unit) prog) \<Rightarrow> ('s, exn, unit) prog" where
  "do_void_cb status type cb =
     (if status \<noteq> OK then cb status
      else if type \<noteq> CHR '' '' then cb UNEXPECTED_REPLY
      else cb status)"

section \<open>The cookie\<close>

text \<open>
  The specification of the conversion: two lower-case hexadecimal digits for each byte, from
  which \<open>hex_decode\<close> recovers the cookie.
\<close>

definition hex_value :: "char \<Rightarrow> nat" where
  "hex_value c = (if isdigit c then uchar c - 48 else uchar c - 87)"

fun hex_decode :: "string \<Rightarrow> string" where
  "hex_decode (a # b # s) = char_of (16 * hex_value a + hex_value b) # hex_decode s"
| "hex_decode _ = []"

lemma hex_value_digit_char [simp]: "d < 16 \<Longrightarrow> hex_value (digit_char d) = d"
  by (simp add: hex_value_def digit_char_def isdigit_def)

lemma byte_to_hex:
  assumes "n < 256"
  shows "setw 2 (CHR ''0'') (show_base 16 n) = [digit_char (n div 16), digit_char (n mod 16)]"
proof (cases "n < 16")
  case True
  have "digit_char 0 = CHR ''0''" unfolding digit_char_def by code_simp
  with True show ?thesis by (simp add: show_base.simps [of 16 n] setw_def)
next
  case False
  from assms have "n div 16 < 16" by (simp add: less_mult_imp_div_less)
  with False show ?thesis
    by (simp add: show_base.simps [of 16 n] show_base.simps [of 16 "n div 16"] setw_def)
qed

lemma auth_cookie_to_hex_simps [simp]:
  "auth_cookie_to_hex [] = []"
  "auth_cookie_to_hex (c # s) =
     digit_char (uchar c div 16) # digit_char (uchar c mod 16) # auth_cookie_to_hex s"
  by (simp_all add: auth_cookie_to_hex_def byte_to_hex uchar_less_256)

lemma hex_decode_auth_cookie: "hex_decode (auth_cookie_to_hex s) = s"
proof (induction s)
  case Nil
  then show ?case by simp
next
  case (Cons c s)
  have "uchar c div 16 < 16" using uchar_less_256 [of c] by (simp add: less_mult_imp_div_less)
  with Cons show ?case by simp
qed

lemma length_auth_cookie_to_hex: "length (auth_cookie_to_hex s) = 2 * length s"
  by (induction s) simp_all

lemma auth_cookie_to_hex_digits:
  "c \<in> set (auth_cookie_to_hex s) \<Longrightarrow> \<exists>d < 16. c = digit_char d"
proof (induction s)
  case Nil
  then show ?case by simp
next
  case (Cons a s)
  consider "c = digit_char (uchar a div 16)" | "c = digit_char (uchar a mod 16)"
    | "c \<in> set (auth_cookie_to_hex s)"
    using Cons.prems by auto
  then show ?case
  proof cases
    case 1
    moreover have "uchar a div 16 < 16"
      using uchar_less_256 [of a] by (simp add: less_mult_imp_div_less)
    ultimately show ?thesis by blast
  next
    case 2
    moreover have "uchar a mod 16 < 16" by simp
    ultimately show ?thesis by blast
  qed (rule Cons.IH)
qed

section \<open>The tokenizer\<close>

text \<open>
  The reference: skip white space, take the longest run without white space, repeat.
\<close>

function words :: "string \<Rightarrow> string list" where
  "words s = (let t = dropWhile isspace s in
     if t = [] then []
     else takeWhile (\<lambda>c. \<not> isspace c) t # words (dropWhile (\<lambda>c. \<not> isspace c) t))"
  by pat_completeness auto
termination
proof (relation "measure length")
  fix s t :: string
  assume t: "t = dropWhile isspace s" and "t \<noteq> []"
  then have "\<not> isspace (hd t)" by (metis hd_dropWhile)
  with \<open>t \<noteq> []\<close> have "length (dropWhile (\<lambda>c. \<not> isspace c) t) < length t"
    by (cases t) (auto simp: le_imp_less_Suc length_dropWhile_le)
  also have "\<dots> \<le> length s" by (simp add: t length_dropWhile_le)
  finally show "(dropWhile (\<lambda>c. \<not> isspace c) t, s) \<in> measure length" by simp
qed simp

declare words.simps [simp del]

lemma words_Nil [simp]: "words [] = []"
  by (simp add: words.simps)

lemma words_space: "isspace c \<Longrightarrow> words (c # s) = words s"
  by (subst words.simps, subst words.simps [of s]) simp

lemma words_word:
  assumes "\<forall>c \<in> set w. \<not> isspace c" and "w \<noteq> []" and "s = [] \<or> isspace (hd s)"
  shows "words (w @ s) = w # words s"
proof -
  have "dropWhile isspace (w @ s) = w @ s"
    using assms(1,2) by (cases w) auto
  moreover have "takeWhile (\<lambda>c. \<not> isspace c) (w @ s) = w"
    and "dropWhile (\<lambda>c. \<not> isspace c) (w @ s) = s"
    using assms(1,3) by (cases s; simp add: takeWhile_append dropWhile_append)+
  ultimately show ?thesis
    using assms(2) by (subst words.simps) (simp add: Let_def)
qed

lemma tokenize_loop_words:
  "(\<forall>c \<in> set cur. \<not> isspace c) \<Longrightarrow> tokenize_loop vec cur s = vec @ words (cur @ s)"
proof (induction vec cur s rule: tokenize_loop.induct)
  case (1 vec cur)
  then show ?case using words_word [of cur "[]"] by simp
next
  case (2 vec cur c s)
  then show ?case
    using words_word [of cur "c # s"] by (auto simp: words_space)
qed

lemma tokenize_eq_words: "tokenize s = words s"
  by (simp add: tokenize_def tokenize_loop_words)

definition is_token :: "string \<Rightarrow> bool" where
  "is_token t \<longleftrightarrow> t \<noteq> [] \<and> list_all (\<lambda>c. \<not> isspace c) t"

lemma tokenize_loop_tokens:
  "list_all is_token vec \<Longrightarrow> list_all (\<lambda>c. \<not> isspace c) cur \<Longrightarrow>
   list_all is_token (tokenize_loop vec cur s)"
  by (induction vec cur s rule: tokenize_loop.induct) (simp_all add: is_token_def)

lemma tokenize_tokens: "list_all is_token (tokenize s)"
  by (simp add: tokenize_def tokenize_loop_tokens)

lemma concat_tokenize: "concat (tokenize s) = filter (\<lambda>c. \<not> isspace c) s"
proof -
  have "(\<forall>c \<in> set cur. \<not> isspace c) \<Longrightarrow>
      concat (tokenize_loop vec cur s) = concat vec @ cur @ filter (\<lambda>c. \<not> isspace c) s" for vec cur s
    by (induction vec cur s rule: tokenize_loop.induct) auto
  then show ?thesis by (simp add: tokenize_def)
qed

text \<open>Tokens joined by a space are read back.\<close>

fun unwords :: "string list \<Rightarrow> string" where
  "unwords [] = []"
| "unwords [t] = t"
| "unwords (t # ts) = t @ CHR '' '' # unwords ts"

lemma tokenize_unwords:
  assumes "list_all is_token ts"
  shows "tokenize (unwords ts) = ts"
proof -
  have "words (unwords ts) = ts"
    using assms
  proof (induction ts rule: unwords.induct)
    case (2 t)
    then show ?case using words_word [of t "[]"] by (simp add: is_token_def list_all_iff)
  next
    case (3 t u ts)
    have sp: "isspace (CHR '' '')" by (simp add: isspace_def uchar_def)
    with 3 show ?case
      using words_word [of t "CHR '' '' # unwords (u # ts)"] by (simp add: words_space is_token_def list_all_iff)
  qed simp
  then show ?thesis by (simp add: tokenize_eq_words)
qed

section \<open>The bootstrap phase\<close>

text \<open>
  The specification of the parser over the tokens of the reply.  It is total: the slice of the
  third token is taken only after the prefix has been found, so \<open>substr\<close> cannot throw.
\<close>

fun bootstrap_tokens :: "string list \<Rightarrow> int \<Rightarrow> onion_status \<times> int" where
  "bootstrap_tokens (a # b # c # _) phase =
     (if a \<noteq> ''NOTICE'' then (EXPECTED_NOTICE_TOKEN, phase)
      else if b \<noteq> ''BOOTSTRAP'' then (EXPECTED_BOOTSTRAP_TOKEN, phase)
      else if \<not> prefix ''PROGRESS='' c then (EXPECTED_PROGRESS_KEY, phase)
      else let v = drop 9 c in
        if 3 < length v then (TOO_MANY_DIGITS, phase)
        else if \<not> list_all isdigit v then (NOT_A_DIGIT, phase)
        else (OK, int (digits_value 0 v)))"
| "bootstrap_tokens _ phase = (EXPECTED_MORE_TOKENS, phase)"

lemma not_all_digits: "list_ex (\<lambda>c. \<not> isdigit c) v \<longleftrightarrow> \<not> list_all isdigit v"
  by (auto simp: list_ex_iff list_all_iff)

lemma atoi_c_str_digits: "list_all isdigit v \<Longrightarrow> atoi (c_str v) = int (digits_value 0 v)"
  by (simp add: c_str_digits atoi_digits list_all_iff)

lemma length_progress: "length ''PROGRESS='' = 9"
  by simp

lemma parse_bootstrap_progress_eq:
  "parse_bootstrap_progress s phase = ret (bootstrap_tokens (words s) phase)"
proof (cases "words s")
  case Nil
  then show ?thesis by (simp add: parse_bootstrap_progress_def tokenize_eq_words)
next
  case a: (Cons a as)
  show ?thesis
  proof (cases as)
    case Nil
    with a show ?thesis by (simp add: parse_bootstrap_progress_def tokenize_eq_words)
  next
    case b: (Cons b bs)
    show ?thesis
    proof (cases bs)
      case Nil
      with a b show ?thesis by (simp add: parse_bootstrap_progress_def tokenize_eq_words)
    next
      case c: (Cons c cs)
      have vec: "words s = a # b # c # cs" using a b c by simp
      show ?thesis
      proof (cases "prefix ''PROGRESS='' c")
        case True
        then have "9 \<le> length c"
          using prefix_length_le [OF True] by simp
        then show ?thesis
          unfolding parse_bootstrap_progress_def tokenize_eq_words vec length_progress
          by (simp add: substr_in_range str_find_0_iff True not_all_digits atoi_c_str_digits
              andthen_ret Let_def)
      next
        case False
        then show ?thesis
          by (simp add: parse_bootstrap_progress_def tokenize_eq_words vec str_find_0_iff)
      qed
    qed
  qed
qed

text \<open>
  What is accepted: \<open>NOTICE BOOTSTRAP PROGRESS=\<close> followed directly by at most three digits.
\<close>

lemma bootstrap_tokens_OK_iff:
  "bootstrap_tokens vec phase = (OK, n) \<longleftrightarrow>
     (\<exists>d rest. vec = ''NOTICE'' # ''BOOTSTRAP'' # (''PROGRESS='' @ d) # rest \<and>
        length d \<le> 3 \<and> list_all isdigit d \<and> n = int (digits_value 0 d))"
  (is "?l \<longleftrightarrow> ?r")
proof
  assume l: ?l
  then obtain a b c rest where vec: "vec = a # b # c # rest"
    by (cases "(vec, phase)" rule: bootstrap_tokens.cases) auto
  with l have "a = ''NOTICE''" "b = ''BOOTSTRAP''" "prefix ''PROGRESS='' c"
    by (auto split: if_splits simp: Let_def)
  then obtain d where "c = ''PROGRESS='' @ d" by (auto elim: prefixE)
  with l vec show ?r by (auto simp: Let_def split: if_splits)
qed auto

lemma bootstrap_tokens_error:
  "fst (bootstrap_tokens vec phase) \<noteq> OK \<Longrightarrow> snd (bootstrap_tokens vec phase) = phase"
  by (cases "(vec, phase)" rule: bootstrap_tokens.cases) (auto simp: Let_def)

lemma bootstrap_tokens_range:
  assumes "bootstrap_tokens vec phase = (OK, n)"
  shows "0 \<le> n \<and> n \<le> 999"
proof -
  from assms obtain d where d: "length d \<le> 3" "list_all isdigit d" "n = int (digits_value 0 d)"
    by (auto simp: bootstrap_tokens_OK_iff)
  then have "digits_value 0 d < 10 ^ length d"
    using digits_value_bound [of d 0] by (simp add: list_all_iff)
  also have "\<dots> \<le> (10 :: nat) ^ 3" using d(1) by (intro power_increasing) simp_all
  finally show ?thesis using d(3) by simp
qed

section \<open>Integer configuration variables\<close>

text \<open>The specification: the one pair of arguments \<open>getconf_int\<close> passes to its callback.\<close>

definition getconf_result ::
  "onion_status \<Rightarrow> char \<Rightarrow> string \<Rightarrow> string \<Rightarrow> int \<Rightarrow> onion_status \<times> int" where
  "getconf_result status type s var_name default_value =
     (if status \<noteq> OK then (status, 0)
      else if type \<noteq> CHR '' '' then (UNEXPECTED_REPLY, 0)
      else if s = var_name then (OK, default_value)
      else if \<not> prefix var_name s then (EXPECTED_VAR_NAME_KEY, 0)
      else let v = drop (length var_name + 1) s in
        if 5 < length v then (TOO_MANY_DIGITS, 0)
        else if \<not> list_all isdigit v then (NOT_A_DIGIT, 0)
        else (OK, int (digits_value 0 v)))"

lemma getconf_int_eq:
  "getconf_int status type s var_name default_value cb =
     (case getconf_result status type s var_name default_value of (st, n) \<Rightarrow> cb st n)"
proof (cases "prefix var_name s \<and> s \<noteq> var_name")
  case True
  then have "length var_name < length s"
    by (intro prefix_length_less) (auto simp: strict_prefix_def)
  with True show ?thesis
    unfolding getconf_int_def getconf_result_def
    by (simp add: substr_in_range str_find_0_iff andthen_ret not_all_digits atoi_c_str_digits
        Let_def)
next
  case False
  then show ?thesis
    by (auto simp: getconf_int_def getconf_result_def str_find_0_iff)
qed

lemma getconf_result_value:
  assumes "n < 100000"
  shows "getconf_result OK (CHR '' '') (var_name @ x # show_nat n) var_name d = (OK, int n)"
proof -
  have "length (show_nat n) \<le> 5" using assms by (intro length_show_nat) simp_all
  then show ?thesis
    using show_nat_digits [of n]
    by (simp add: getconf_result_def list_all_iff digits_value_show_nat)
qed

lemma getconf_result_range:
  assumes "getconf_result status type s var_name d = (OK, n)" and "0 \<le> d" and "d \<le> 99999"
  shows "0 \<le> n \<and> n \<le> 99999"
proof -
  have "int (digits_value 0 v) \<le> 99999" if "length v \<le> 5" "list_all isdigit v" for v
  proof -
    have "digits_value 0 v < 10 ^ length v"
      using that digits_value_bound [of v 0] by (simp add: list_all_iff)
    also have "\<dots> \<le> (10 :: nat) ^ 5" using that(1) by (intro power_increasing) simp_all
    finally show ?thesis by simp
  qed
  with assms show ?thesis
    by (auto simp: getconf_result_def Let_def not_less split: if_splits)
qed

end
