(* ===== verification/Onion_Ctrl.thy ===== *)
theory Onion_Ctrl
  imports Helper_State Onion_Parse
begin

unbundle bit_operations_syntax

text \<open>
  \<open>src/tor/onion-ctrl.hpp\<close>: the class \<open>OnionCtrl\<close>, which talks to tor over its control port.

  Every function of the class takes a callback and stores closures in the bufferevent of the
  connection.  The closures are the constructors of the datatypes below, one for each lambda
  expression of the file, with the variables it captures.  The callbacks a client passes are
  values of a type \<open>'k\<close>, and \<open>client k r\<close> is what calling \<open>k\<close> with the arguments \<open>r\<close> does; it
  can be any program over the state, so every theorem that leaves \<open>client\<close> free holds for all
  code that uses the class.
\<close>

section \<open>Callbacks and state\<close>

text \<open>
  The arguments a client callback can be called with, one constructor per callback type.  The last two
  are those of the closures that the client itself gives to a timer or a bufferevent.
\<close>

datatype reply =
    VoidReply onion_status
  | IntReply onion_status int
  | StringReply onion_status string
  | ClientStatusReply onion_status string string "string list"
  | LineReply onion_status char string
  | SentReply onion_status
  | FuncReply
  | TimerReply u16

datatype 'k void_clo = UserVoid 'k | ConnAuth string nat 'k

datatype 'k string_clo = UserString 'k | BootstrapInt 'k | ClientStatus 'k

datatype 'k line_clo =
    UserLine 'k
  | AuthReply 'k
  | GetinfoBootstrap "'k string_clo" nat
  | GetconfInt string int 'k
  | DoVoid 'k
  | SetEvents "'k string_clo" nat

datatype 'k sent_clo = UserSent 'k | SendRecv nat "'k line_clo"

datatype 'k ctrl_clo =
    ConnectEvent nat "'k void_clo"
  | SentWrite "'k sent_clo"
  | SentEvent "'k sent_clo"
  | RecvRead nat "'k line_clo"
  | RecvEvent "'k line_clo"
  | ClientOnce 'k

record ctrl_obj =
  ctrl_evbase :: evbase
  ctrl_bev :: "nat option"

text \<open>
  \<open>ctrls\<close> holds the \<open>OnionCtrl\<close> objects; \<open>results\<close> and \<open>expecteds\<close> the strings and statuses
  that two of the lambdas share through a \<open>Var\<close>.
\<close>

record ('k, 'w) ocst = "('k ctrl_clo, 'w) ehst" +
  ctrls :: "nat \<Rightarrow> ctrl_obj option"
  next_ctrl :: nat
  results :: "nat \<Rightarrow> string"
  next_result :: nat
  expecteds :: "nat \<Rightarrow> onion_status"
  next_expected :: nat

type_synonym ('k, 'w, 'z, 'a) oc_prog = "(('k, 'w, 'z) ocst_scheme, exn, 'a) prog"

type_synonym ('k, 'w, 'z) oc_client = "'k \<Rightarrow> reply \<Rightarrow> ('k, 'w, 'z, unit) oc_prog"

definition ctrl_get :: "nat \<Rightarrow> ('k, 'w, 'z, ctrl_obj) oc_prog" where
  "ctrl_get c = andthen (gets (\<lambda>s. ctrls s c))
     (\<lambda>r. case r of None \<Rightarrow> raise (UndefinedBehaviour ''dangling OnionCtrl'') | Some x \<Rightarrow> ret x)"

text \<open>The handle behind \<open>ctrl->bev->\<close>; a null \<open>Var\<close> throws.\<close>

definition bev_of :: "nat \<Rightarrow> ('k, 'w, 'z, nat) oc_prog" where
  "bev_of c = andthen (ctrl_get c) (\<lambda>x. var_arrow (ctrl_bev x))"

definition create :: "evbase \<Rightarrow> ('k, 'w, 'z, nat) oc_prog" where
  "create evbase = andthen (gets next_ctrl)
     (\<lambda>c. andthen (modify (\<lambda>s. s\<lparr>ctrls := (ctrls s)(c \<mapsto> \<lparr>ctrl_evbase = evbase, ctrl_bev = None\<rparr>),
        next_ctrl := Suc c\<rparr>)) (\<lambda>_. ret c))"

definition close :: "nat \<Rightarrow> ('k, 'w, 'z, unit) oc_prog" where
  "close c = andthen (bev_of c) (setcb None None None)"

section \<open>Sending and receiving\<close>

definition event_mask_to_status :: "'w libevent \<Rightarrow> u16 \<Rightarrow> onion_status" where
  "event_mask_to_status L w =
     (if w AND BEV_EVENT_TIMEOUT L \<noteq> 0 then TIMEOUT_ERROR
      else if w AND BEV_EVENT_ERROR L \<noteq> 0 then IO_ERROR
      else if w AND BEV_EVENT_EOF L \<noteq> 0 then EOF_ERROR
      else GENERIC_ERROR)"

definition send :: "'w libevent \<Rightarrow> nat \<Rightarrow> string \<Rightarrow> 'k sent_clo \<Rightarrow> ('k, 'w, 'z, unit) oc_prog" where
  "send L c command cb =
     andthen (bev_of c) (\<lambda>h. andthen (bev_write L command h)
       (\<lambda>_. andthen (bev_of c) (setcb None (Some (SentWrite cb)) (Some (SentEvent cb)))))"

definition recv :: "'w libevent \<Rightarrow> nat \<Rightarrow> 'k line_clo \<Rightarrow> ('k, 'w, 'z, unit) oc_prog" where
  "recv L c cb =
     andthen (bev_of c) (\<lambda>h. andthen (enable L (EV_READ L) h)
       (\<lambda>_. andthen (bev_of c) (setcb (Some (RecvRead c cb)) None (Some (RecvEvent cb)))))"

definition sendrecv :: "'w libevent \<Rightarrow> nat \<Rightarrow> string \<Rightarrow> 'k line_clo \<Rightarrow> ('k, 'w, 'z, unit) oc_prog"
where
  "sendrecv L c command cb = send L c command (SendRecv c cb)"

section \<open>Running the closures\<close>

definition run_string_clo ::
  "('k, 'w, 'z) oc_client \<Rightarrow> 'k string_clo \<Rightarrow> onion_status \<Rightarrow> string \<Rightarrow> ('k, 'w, 'z, unit) oc_prog"
where
  "run_string_clo client clo status s = (case clo of
      UserString k \<Rightarrow> client k (StringReply status s)
    | BootstrapInt k \<Rightarrow>
        if status \<noteq> OK then client k (IntReply status 0)
        else andthen (parse_bootstrap_progress s 0)
          (\<lambda>(status, phase). client k (IntReply status phase))
    | ClientStatus k \<Rightarrow>
        if status \<noteq> ASYNC then client k (ClientStatusReply status '''' '''' [])
        else let vec = tokenize s in
          if length vec < 3 then client k (ClientStatusReply EXPECTED_MORE_TOKENS '''' '''' [])
          else if vec ! 0 \<noteq> ''STATUS_CLIENT''
          then client k (ClientStatusReply EXPECTED_STATUS_CLIENT_TOKEN '''' '''' [])
          else client k (ClientStatusReply status (vec ! 1) (vec ! 2) (drop 3 vec)))"

definition run_line_clo ::
  "('k, 'w, 'z) oc_client \<Rightarrow> 'k line_clo \<Rightarrow> onion_status \<Rightarrow> char \<Rightarrow> string \<Rightarrow>
   ('k, 'w, 'z, unit) oc_prog" where
  "run_line_clo client clo status type s = (case clo of
      UserLine k \<Rightarrow> client k (LineReply status type s)
    | AuthReply k \<Rightarrow>
        if status \<noteq> OK then client k (VoidReply status)
        else if type \<noteq> CHR '' '' then client k (VoidReply UNEXPECTED_REPLY)
        else client k (VoidReply status)
    | GetinfoBootstrap cb result \<Rightarrow>
        if status \<noteq> OK then run_string_clo client cb status ''''
        else if type = CHR ''-'' \<and> str_find s ''status/bootstrap-phase='' = Some 0
        then andthen (substr s (length ''status/bootstrap-phase=''))
          (\<lambda>t. modify (\<lambda>st. st\<lparr>results := (results st)(result := t)\<rparr>))
        else if type \<noteq> CHR '' '' then run_string_clo client cb UNEXPECTED_REPLY ''''
        else andthen (gets (\<lambda>st. results st result)) (run_string_clo client cb status)
    | GetconfInt var_name default_value k \<Rightarrow>
        getconf_int status type s var_name default_value (\<lambda>st n. client k (IntReply st n))
    | DoVoid k \<Rightarrow> do_void_cb status type (\<lambda>st. client k (VoidReply st))
    | SetEvents cb expected \<Rightarrow>
        andthen (gets (\<lambda>st. expecteds st expected))
          (\<lambda>e. if status \<noteq> e then run_string_clo client cb UNEXPECTED_STATUS ''''
             else if type \<noteq> CHR '' '' then run_string_clo client cb UNEXPECTED_REPLY ''''
             else andthen (modify (\<lambda>st. st\<lparr>expecteds := (expecteds st)(expected := ASYNC)\<rparr>))
               (\<lambda>_. if status = OK then ret () else run_string_clo client cb status s)))"

definition run_sent_clo ::
  "'w libevent \<Rightarrow> ('k, 'w, 'z) oc_client \<Rightarrow> 'k sent_clo \<Rightarrow> onion_status \<Rightarrow>
   ('k, 'w, 'z, unit) oc_prog" where
  "run_sent_clo L client clo status = (case clo of
      UserSent k \<Rightarrow> client k (SentReply status)
    | SendRecv c cb \<Rightarrow>
        if status \<noteq> NO_ERROR then run_line_clo client cb status (CHR 0x00) ''''
        else recv L c cb)"

definition run_void_clo ::
  "'w libevent \<Rightarrow> ('k, 'w, 'z) oc_client \<Rightarrow> 'k void_clo \<Rightarrow> onion_status \<Rightarrow>
   ('k, 'w, 'z, unit) oc_prog" where
  "run_void_clo L client clo status = (case clo of
      UserVoid k \<Rightarrow> client k (VoidReply status)
    | ConnAuth auth_token c k \<Rightarrow>
        if status \<noteq> NO_ERROR then client k (VoidReply status)
        else sendrecv L c (cmd_authenticate auth_token) (AuthReply k))"

text \<open>
  The read callback that \<open>recv\<close> installs: \<open>for (;;)\<close> over the lines that are buffered.  The
  loop body runs client code, so nothing in the code bounds the number of iterations: the loop
  has fuel, and running out of it is the outcome \<open>Diverge\<close>.
\<close>

definition reply_status :: "int \<Rightarrow> onion_status" where
  "reply_status result =
     (if result = 250 then OK
      else if result = 552 then UNRECOGNIZED_ENTITY
      else if result = 650 then ASYNC
      else UNKNOWN_STATUS_ERROR)"

fun recv_loop ::
  "'w libevent \<Rightarrow> ('k, 'w, 'z) oc_client \<Rightarrow> nat \<Rightarrow> nat \<Rightarrow> 'k line_clo \<Rightarrow> ('k, 'w, 'z, unit) oc_prog"
where
  "recv_loop L client 0 c cb = diverge"
| "recv_loop L client (Suc fuel) c cb =
     andthen (bev_of c) (\<lambda>h. andthen (get_input L h)
       (\<lambda>input. andthen (Evbuffer_readln L (EVBUFFER_EOL_CRLF L) input)
         (\<lambda>line.
            if line = '''' then ret ()
            else if length line < 4 then run_line_clo client cb EXPECTED_MORE_TOKENS (CHR 0x00) ''''
            else if \<not> isdigit (line ! 0) \<or> \<not> isdigit (line ! 1) \<or> \<not> isdigit (line ! 2)
            then run_line_clo client cb NOT_A_DIGIT (CHR 0x00) ''''
            else andthen (substr line 4)
              (\<lambda>rest. andthen
                 (run_line_clo client cb (reply_status (atoi (c_str (take 3 line)))) (line ! 3) rest)
                 (\<lambda>_. recv_loop L client fuel c cb)))))"

text \<open>The closures a bufferevent stores: those of type \<open>void()\<close> and those of type \<open>void(short)\<close>.\<close>

definition run_ctrl_clo ::
  "'w libevent \<Rightarrow> ('k, 'w, 'z) oc_client \<Rightarrow> nat \<Rightarrow> 'k ctrl_clo \<Rightarrow> ('k, 'w, 'z, unit) oc_prog" where
  "run_ctrl_clo L client fuel clo = (case clo of
      SentWrite cb \<Rightarrow> run_sent_clo L client cb NO_ERROR
    | RecvRead c cb \<Rightarrow> recv_loop L client fuel c cb
    | ClientOnce k \<Rightarrow> client k FuncReply
    | _ \<Rightarrow> raise (UndefinedBehaviour ''not a void() closure''))"

definition run_ctrl_event ::
  "'w libevent \<Rightarrow> ('k, 'w, 'z) oc_client \<Rightarrow> 'k ctrl_clo \<Rightarrow> u16 \<Rightarrow> ('k, 'w, 'z, unit) oc_prog" where
  "run_ctrl_event L client clo what = (case clo of
      ConnectEvent c cb \<Rightarrow>
        if what \<noteq> BEV_EVENT_CONNECTED L
        then andthen (andthen (bev_of c) (setcb None None None))
          (\<lambda>_. run_void_clo L client cb CONNECT_FAILED)
        else run_void_clo L client cb NO_ERROR
    | SentEvent cb \<Rightarrow> run_sent_clo L client cb (event_mask_to_status L what)
    | RecvEvent cb \<Rightarrow> run_line_clo client cb (event_mask_to_status L what) (CHR 0x00) ''''
    | ClientOnce k \<Rightarrow> client k (TimerReply what)
    | _ \<Rightarrow> raise (UndefinedBehaviour ''not a void(short) closure''))"

section \<open>Connecting\<close>

definition connect ::
  "'w libevent \<Rightarrow> ('k, 'w, 'z) oc_client \<Rightarrow> nat \<Rightarrow> string \<Rightarrow> int \<Rightarrow> 'k void_clo \<Rightarrow>
   timeval option \<Rightarrow> ('k, 'w, 'z, unit) oc_prog" where
  "connect L client c sa len cb timeout =
     andthen (ctrl_get c)
       (\<lambda>x. if ctrl_bev x \<noteq> None then run_void_clo L client cb ALREADY_CONNECTED
          else andthen (socket_new L (ctrl_evbase x) (- 1) (BEV_OPT_CLOSE_ON_FREE L))
            (\<lambda>h. andthen (modify (\<lambda>s. s\<lparr>ctrls := (ctrls s)(c \<mapsto> x\<lparr>ctrl_bev := Some h\<rparr>)\<rparr>))
            (\<lambda>_. andthen (andthen (bev_of c) (setcb None None (Some (ConnectEvent c cb))))
            (\<lambda>_. andthen (andthen (bev_of c) (set_timeouts L timeout timeout))
            (\<lambda>_. andthen (bev_of c) (socket_connect L sa len))))))"

text \<open>The three overloads of \<open>connect_and_authenticate\<close>, by sockaddr, endpoint and port.\<close>

definition connect_and_authenticate_sa ::
  "'w libevent \<Rightarrow> ('k, 'w, 'z) oc_client \<Rightarrow> nat \<Rightarrow> string \<Rightarrow> int \<Rightarrow> 'k \<Rightarrow> string \<Rightarrow>
   timeval option \<Rightarrow> ('k, 'w, 'z, unit) oc_prog" where
  "connect_and_authenticate_sa L client c sa len cb auth_token timeout =
     connect L client c sa len (ConnAuth auth_token c cb) timeout"

definition sizeof_sockaddr_storage :: int where
  "sizeof_sockaddr_storage = 128"

definition connect_and_authenticate_epnt ::
  "'w libevent \<Rightarrow> ('k, 'w, 'z) oc_client \<Rightarrow> nat \<Rightarrow> string \<Rightarrow> 'k \<Rightarrow> string \<Rightarrow>
   timeval option \<Rightarrow> ('k, 'w, 'z, unit) oc_prog" where
  "connect_and_authenticate_epnt L client c epnt cb auth_token timeout =
     (case parse_sockaddr_port L epnt sizeof_sockaddr_storage of (err, sa, len) \<Rightarrow>
        if error_neq_int err 0 then client cb (VoidReply CANNOT_PARSE_ADDRPORT)
        else connect_and_authenticate_sa L client c sa len cb auth_token timeout)"

definition connect_and_authenticate ::
  "'w libevent \<Rightarrow> ('k, 'w, 'z) oc_client \<Rightarrow> nat \<Rightarrow> 'k \<Rightarrow> string \<Rightarrow> int \<Rightarrow> string \<Rightarrow>
   timeval option \<Rightarrow> ('k, 'w, 'z, unit) oc_prog" where
  "connect_and_authenticate L client c cb auth_token port address timeout =
     connect_and_authenticate_epnt L client c (address @ '':'' @ show_int port) cb auth_token timeout"

section \<open>Commands\<close>

definition new_result :: "('k, 'w, 'z, nat) oc_prog" where
  "new_result = andthen (gets next_result)
     (\<lambda>r. andthen (modify (\<lambda>s. s\<lparr>results := (results s)(r := ''''), next_result := Suc r\<rparr>))
       (\<lambda>_. ret r))"

definition new_expected :: "('k, 'w, 'z, nat) oc_prog" where
  "new_expected = andthen (gets next_expected)
     (\<lambda>r. andthen (modify (\<lambda>s. s\<lparr>expecteds := (expecteds s)(r := OK), next_expected := Suc r\<rparr>))
       (\<lambda>_. ret r))"

definition getinfo_status_bootstrap_phase_as_string ::
  "'w libevent \<Rightarrow> nat \<Rightarrow> 'k string_clo \<Rightarrow> ('k, 'w, 'z, unit) oc_prog" where
  "getinfo_status_bootstrap_phase_as_string L c cb =
     andthen new_result
       (\<lambda>result. sendrecv L c (''GETINFO status/bootstrap-phase'' @ crlf) (GetinfoBootstrap cb result))"

definition getinfo_status_bootstrap_phase_as_int ::
  "'w libevent \<Rightarrow> nat \<Rightarrow> 'k \<Rightarrow> ('k, 'w, 'z, unit) oc_prog" where
  "getinfo_status_bootstrap_phase_as_int L c cb =
     getinfo_status_bootstrap_phase_as_string L c (BootstrapInt cb)"

definition getconf_socks_port :: "'w libevent \<Rightarrow> nat \<Rightarrow> 'k \<Rightarrow> ('k, 'w, 'z, unit) oc_prog" where
  "getconf_socks_port L c cb =
     sendrecv L c (''GETCONF SOCKSPort'' @ crlf) (GetconfInt ''SocksPort'' 9050 cb)"

definition getconf_disable_network :: "'w libevent \<Rightarrow> nat \<Rightarrow> 'k \<Rightarrow> ('k, 'w, 'z, unit) oc_prog" where
  "getconf_disable_network L c cb =
     sendrecv L c (''GETCONF DisableNetwork'' @ crlf) (GetconfInt ''DisableNetwork'' 0 cb)"

definition signal_shutdown :: "'w libevent \<Rightarrow> nat \<Rightarrow> 'k \<Rightarrow> ('k, 'w, 'z, unit) oc_prog" where
  "signal_shutdown L c cb = sendrecv L c (''SIGNAL SHUTDOWN'' @ crlf) (DoVoid cb)"

definition setconf_disable_network ::
  "'w libevent \<Rightarrow> nat \<Rightarrow> bool \<Rightarrow> 'k \<Rightarrow> ('k, 'w, 'z, unit) oc_prog" where
  "setconf_disable_network L c value cb =
     sendrecv L c (cmd_disable_network value) (DoVoid cb)"

definition setevents_client_status_as_string ::
  "'w libevent \<Rightarrow> nat \<Rightarrow> 'k string_clo \<Rightarrow> ('k, 'w, 'z, unit) oc_prog" where
  "setevents_client_status_as_string L c cb =
     andthen new_expected
       (\<lambda>expected. sendrecv L c (''SETEVENTS STATUS_CLIENT'' @ crlf) (SetEvents cb expected))"

definition setevents_client_status :: "'w libevent \<Rightarrow> nat \<Rightarrow> 'k \<Rightarrow> ('k, 'w, 'z, unit) oc_prog" where
  "setevents_client_status L c cb = setevents_client_status_as_string L c (ClientStatus cb)"

end
