(* ===== verification/Onion_Stream.thy ===== *)
theory Onion_Stream
  imports Onion_Ctrl
begin

text \<open>
  The specification of the receiving side of \<open>OnionCtrl\<close> as a function on the bytes received:
  which calls of the line callback the bytes produce, and which bytes are left for later.
\<close>

type_synonym line_args = "onion_status \<times> char \<times> string"

text \<open>
  One line: the arguments for the callback, and whether the loop goes on to the next line.
\<close>

definition parse_reply_line :: "string \<Rightarrow> line_args \<times> bool" where
  "parse_reply_line line =
     (if length line < 4 then ((EXPECTED_MORE_TOKENS, CHR 0x00, ''''), False)
      else if \<not> list_all isdigit (take 3 line) then ((NOT_A_DIGIT, CHR 0x00, ''''), False)
      else ((reply_status (atoi (take 3 line)), line ! 3, drop 4 line), True))"

function reply_stream :: "string \<Rightarrow> line_args list \<times> string" where
  "reply_stream buf = (case find_eol buf of
      None \<Rightarrow> ([], buf)
    | Some (pos, n) \<Rightarrow>
        if pos = 0 then ([], drop n buf)
        else case parse_reply_line (take pos buf) of (args, go_on) \<Rightarrow>
          if go_on
          then (args # fst (reply_stream (drop (pos + n) buf)), snd (reply_stream (drop (pos + n) buf)))
          else ([args], drop (pos + n) buf))"
  by pat_completeness auto
termination
  by (relation "measure length") (auto dest!: find_eol_bounds)

declare reply_stream.simps [simp del]

text \<open>Whether the loop stopped because the rest of the buffer holds no complete line.\<close>

function drained :: "string \<Rightarrow> bool" where
  "drained buf = (case find_eol buf of
      None \<Rightarrow> True
    | Some (pos, n) \<Rightarrow> pos \<noteq> 0 \<and> snd (parse_reply_line (take pos buf)) \<and> drained (drop (pos + n) buf))"
  by pat_completeness auto
termination
  by (relation "measure length") (auto dest!: find_eol_bounds)

declare drained.simps [simp del]

lemma reply_stream_None: "find_eol buf = None \<Longrightarrow> reply_stream buf = ([], buf)"
  by (simp add: reply_stream.simps [of buf])

lemma reply_stream_rest_length: "length (snd (reply_stream buf)) \<le> length buf"
proof (induction buf rule: reply_stream.induct)
  case (1 buf)
  show ?case
  proof (cases "find_eol buf")
    case None
    then show ?thesis by (simp add: reply_stream_None)
  next
    case (Some r)
    then obtain pos n where r: "find_eol buf = Some (pos, n)" by (cases r) auto
    show ?thesis
    proof (cases "pos \<noteq> 0 \<and> snd (parse_reply_line (take pos buf))")
      case True
      with r "1.IH" [of "(pos, n)" pos n] have
        "length (snd (reply_stream (drop (pos + n) buf))) \<le> length (drop (pos + n) buf)"
        by (cases "parse_reply_line (take pos buf)") auto
      with r True show ?thesis
        by (simp add: reply_stream.simps [of buf] case_prod_beta)
    next
      case False
      with r show ?thesis by (auto simp: reply_stream.simps [of buf] case_prod_beta)
    qed
  qed
qed

text \<open>
  Splitting the input anywhere makes no difference, as long as the first part did not stop the
  loop early: receiving \<open>a\<close>, then \<open>b\<close>, is receiving \<open>a @ b\<close>.
\<close>

lemma reply_stream_append:
  assumes "drained a"
  shows "reply_stream (a @ b) =
    (fst (reply_stream a) @ fst (reply_stream (snd (reply_stream a) @ b)),
     snd (reply_stream (snd (reply_stream a) @ b)))"
  using assms
proof (induction a rule: drained.induct)
  case (1 a)
  show ?case
  proof (cases "find_eol a")
    case None
    then show ?thesis by (simp add: reply_stream_None)
  next
    case (Some r)
    then obtain pos n where r: "find_eol a = Some (pos, n)" by (cases r) auto
    from "1.prems" r have go: "pos \<noteq> 0" "snd (parse_reply_line (take pos a))"
      and rest: "drained (drop (pos + n) a)"
      by (simp_all add: drained.simps [of a])
    note bounds = find_eol_bounds [OF r]
    have ih: "reply_stream (drop (pos + n) a @ b) =
        (fst (reply_stream (drop (pos + n) a)) @
           fst (reply_stream (snd (reply_stream (drop (pos + n) a)) @ b)),
         snd (reply_stream (snd (reply_stream (drop (pos + n) a)) @ b)))"
      using "1.IH" [OF r refl] go rest by simp
    from bounds go ih find_eol_append [OF r, of b] r show ?thesis
      by (simp add: reply_stream.simps [of a] reply_stream.simps [of "a @ b"] case_prod_beta)
  qed
qed

lemma drained_append:
  assumes "drained a"
  shows "drained (a @ b) \<longleftrightarrow> drained (snd (reply_stream a) @ b)"
  using assms
proof (induction a rule: drained.induct)
  case (1 a)
  show ?case
  proof (cases "find_eol a")
    case None
    then show ?thesis by (simp add: reply_stream_None)
  next
    case (Some r)
    then obtain pos n where r: "find_eol a = Some (pos, n)" by (cases r) auto
    from "1.prems" r have go: "pos \<noteq> 0" "snd (parse_reply_line (take pos a))"
      and rest: "drained (drop (pos + n) a)"
      by (simp_all add: drained.simps [of a])
    have ih: "drained (drop (pos + n) a @ b) \<longleftrightarrow>
        drained (snd (reply_stream (drop (pos + n) a)) @ b)"
      using "1.IH" [OF r refl] go rest by simp
    from find_eol_bounds [OF r] go ih find_eol_append [OF r, of b] r show ?thesis
      by (simp add: drained.simps [of "a @ b"] reply_stream.simps [of a] case_prod_beta)
  qed
qed

section \<open>Well-formed replies\<close>

text \<open>
  The lines a tor control connection sends: three digits, one character (a space on the last
  line of a reply), a body without line terminators, CR LF.
\<close>

definition reply_line :: "nat \<times> char \<times> string \<Rightarrow> string" where
  "reply_line = (\<lambda>(code, type, body). setw 3 (CHR ''0'') (show_nat code) @ type # body @ crlf)"

definition wf_line :: "nat \<times> char \<times> string \<Rightarrow> bool" where
  "wf_line = (\<lambda>(code, type, body). code < 1000 \<and>
     list_all (\<lambda>x. x \<noteq> CHR 0x0A \<and> x \<noteq> CHR 0x0D) (type # body))"

definition line_args_of :: "nat \<times> char \<times> string \<Rightarrow> line_args" where
  "line_args_of = (\<lambda>(code, type, body). (reply_status (int code), type, body))"

definition wire :: "(nat \<times> char \<times> string) list \<Rightarrow> string" where
  "wire ls = concat (map reply_line ls)"

lemma three_digits:
  assumes "code < 1000"
  shows "length (setw 3 (CHR ''0'') (show_nat code)) = 3"
    and "list_all isdigit (setw 3 (CHR ''0'') (show_nat code))"
    and "atoi (setw 3 (CHR ''0'') (show_nat code)) = int code"
proof -
  have len: "length (show_nat code) \<le> 3" using assms by (intro length_show_nat) simp_all
  have zero: "isdigit (CHR ''0'')" by (simp add: isdigit_def uchar_def)
  have dv: "digits_value 0 (replicate k (CHR ''0'') @ s) = digits_value 0 s" for k s
    by (induction k) (simp_all add: isdigit_def digit_value_def uchar_def)
  show "length (setw 3 (CHR ''0'') (show_nat code)) = 3"
    using len by (simp add: setw_def)
  show d: "list_all isdigit (setw 3 (CHR ''0'') (show_nat code))"
    using show_nat_digits [of code] zero by (auto simp: setw_def list_all_iff)
  then show "atoi (setw 3 (CHR ''0'') (show_nat code)) = int code"
    by (simp add: atoi_digits list_all_iff) (simp add: setw_def dv digits_value_show_nat)
qed

lemma reply_line_eol:
  assumes "wf_line l"
  shows "\<exists>line. find_eol (reply_line l @ t) = Some (length line, 2) \<and>
    take (length line) (reply_line l @ t) = line \<and> drop (length line + 2) (reply_line l @ t) = t \<and>
    line \<noteq> [] \<and> parse_reply_line line = (line_args_of l, True)"
proof -
  obtain code type body where l: "l = (code, type, body)" by (cases l) auto
  let ?d = "setw 3 (CHR ''0'') (show_nat code)"
  let ?line = "?d @ type # body"
  from assms l have code: "code < 1000" and body: "CHR 0x0A \<notin> set (type # body)"
    "CHR 0x0D \<notin> set (type # body)"
    by (auto simp: wf_line_def list_all_iff)
  note d = three_digits [OF code]
  have "CHR 0x0A \<notin> set ?d" "CHR 0x0D \<notin> set ?d"
    using d(2) by (auto simp: list_all_iff isdigit_def uchar_def)
  with body have "find_eol (?line @ CHR 0x0D # CHR 0x0A # t) = Some (length ?line, 2)"
    by (intro find_eol_line) auto
  moreover have "parse_reply_line ?line = (line_args_of l, True)"
    using d by (simp add: parse_reply_line_def l line_args_of_def nth_append)
  ultimately show ?thesis
    by (intro exI [of _ ?line]) (simp add: l reply_line_def numeral_3_eq_3)
qed

lemma reply_stream_wire:
  assumes "list_all wf_line ls" and "find_eol t = None"
  shows "reply_stream (wire ls @ t) = (map line_args_of ls, t) \<and> drained (wire ls @ t)"
  using assms(1)
proof (induction ls)
  case Nil
  then show ?case
    using assms(2) by (simp add: wire_def reply_stream_None drained.simps [of t])
next
  case (Cons l ls)
  from Cons.prems have "wf_line l" by simp
  from reply_line_eol [OF this, of "wire ls @ t"] obtain line where
    "find_eol (wire (l # ls) @ t) = Some (length line, 2)"
    "take (length line) (wire (l # ls) @ t) = line"
    "drop (length line + 2) (wire (l # ls) @ t) = wire ls @ t"
    "line \<noteq> []" "parse_reply_line line = (line_args_of l, True)"
    by (auto simp: wire_def)
  with Cons show ?case
    by (simp add: reply_stream.simps [of "wire (l # ls) @ t"] drained.simps [of "wire (l # ls) @ t"])
qed

text \<open>
  A line that the loop stops at, because it is empty, has less than four bytes or does not begin with
  three digits: the arguments of the one call it leads to, or of none when it is empty.
\<close>

definition malformed :: "string \<Rightarrow> bool" where
  "malformed l \<longleftrightarrow> CHR 0x0A \<notin> set l \<and> CHR 0x0D \<notin> set l \<and> (length l < 4 \<or> \<not> list_all isdigit (take 3 l))"

definition malformed_args :: "string \<Rightarrow> line_args list" where
  "malformed_args l = (if l = '''' then []
     else if length l < 4 then [(EXPECTED_MORE_TOKENS, CHR 0x00, '''')] else [(NOT_A_DIGIT, CHR 0x00, '''')])"

text \<open>Well-formed lines are received, whatever comes after them.\<close>

lemma reply_stream_wire_append:
  assumes "list_all wf_line ls"
  shows "reply_stream (wire ls @ u) = (map line_args_of ls @ fst (reply_stream u), snd (reply_stream u))"
  using assms
proof (induction ls)
  case Nil
  then show ?case by (simp add: wire_def)
next
  case (Cons l ls)
  from Cons.prems have "wf_line l" by simp
  from reply_line_eol [OF this, of "wire ls @ u"] obtain line where
    "find_eol (wire (l # ls) @ u) = Some (length line, 2)"
    "take (length line) (wire (l # ls) @ u) = line"
    "drop (length line + 2) (wire (l # ls) @ u) = wire ls @ u"
    "line \<noteq> []" "parse_reply_line line = (line_args_of l, True)"
    by (auto simp: wire_def)
  with Cons show ?case by (simp add: reply_stream.simps [of "wire (l # ls) @ u"])
qed

text \<open>The loop stops after a malformed line, and leaves unread what follows it.\<close>

lemma reply_stream_malformed:
  assumes "list_all wf_line ls" and "malformed l"
  shows "reply_stream (wire ls @ l @ crlf @ t) = (map line_args_of ls @ malformed_args l, t)"
proof -
  define bytes where "bytes = l @ crlf @ t"
  have "find_eol bytes = Some (length l, 2)"
    unfolding bytes_def using assms(2) find_eol_line [of l t] by (simp add: malformed_def)
  moreover have "drop (length l + 2) bytes = t" and "take (length l) bytes = l" by (simp_all add: bytes_def)
  ultimately have "reply_stream bytes = (malformed_args l, t)"
    using assms(2)
    by (auto simp: reply_stream.simps [of bytes] parse_reply_line_def malformed_def malformed_args_def numeral_2_eq_2)
  with reply_stream_wire_append [OF assms(1), of bytes] show ?thesis by (simp add: bytes_def)
qed

text \<open>A prefix of well-formed lines never stops the loop early.\<close>

lemma drained_prefix:
  assumes "drained (a @ b)"
  shows "drained a"
  using assms
proof (induction a arbitrary: b rule: drained.induct)
  case (1 a)
  show ?case
  proof (cases "find_eol a")
    case None
    then show ?thesis by (simp add: drained.simps [of a])
  next
    case (Some r)
    then obtain pos n where r: "find_eol a = Some (pos, n)" by (cases r) auto
    from find_eol_bounds [OF r] "1.prems" find_eol_append [OF r, of b]
    have "pos \<noteq> 0" "snd (parse_reply_line (take pos a))" "drained (drop (pos + n) a @ b)"
      by (auto simp: drained.simps [of "a @ b"])
    with "1.IH" [OF r refl] r show ?thesis by (simp add: drained.simps [of a])
  qed
qed

text \<open>
  Receiving a sequence of chunks: the callback arguments accumulate, the rest is kept.
\<close>

fun receive_chunks :: "string \<Rightarrow> string list \<Rightarrow> line_args list \<times> string" where
  "receive_chunks buf [] = ([], buf)"
| "receive_chunks buf (x # xs) =
     (case reply_stream (buf @ x) of (args, rest) \<Rightarrow>
        case receive_chunks rest xs of (args', rest') \<Rightarrow> (args @ args', rest'))"

lemma receive_chunks_concat:
  assumes "drained (buf @ concat xs)" and "find_eol buf = None"
  shows "receive_chunks buf xs = reply_stream (buf @ concat xs)"
proof -
  have rest: "find_eol (snd (reply_stream a)) = None" if "drained a" for a
    using that
  proof (induction a rule: drained.induct)
    case (1 a)
    show ?case
    proof (cases "find_eol a")
      case None
      then show ?thesis by (simp add: reply_stream_None)
    next
      case (Some r)
      then obtain pos n where r: "find_eol a = Some (pos, n)" by (cases r) auto
      with 1 show ?thesis
        by (simp add: drained.simps [of a] reply_stream.simps [of a] case_prod_beta)
    qed
  qed
  from assms show ?thesis
  proof (induction xs arbitrary: buf)
    case Nil
    then show ?case by (simp add: reply_stream_None)
  next
    case (Cons x xs)
    from Cons.prems have all: "drained ((buf @ x) @ concat xs)" by simp
    then have dx: "drained (buf @ x)" by (rule drained_prefix)
    with all have "drained (snd (reply_stream (buf @ x)) @ concat xs)"
      by (simp only: drained_append)
    with Cons.IH [OF _ rest [OF dx]] reply_stream_append [OF dx, of "concat xs"] show ?case
      by (simp add: case_prod_beta)
  qed
qed

end
