(* ===== verification/Libevent_Sim.thy ===== *)
theory Libevent_Sim
  imports Bufferevent
begin

text \<open>
  An event library that satisfies the documented behaviour of libevent: evbuffers are chains of
  extents, a bufferevent \<open>p\<close> has the evbuffers \<open>3 * p\<close> and \<open>3 * p + 1\<close>, and the other evbuffers are
  of the form \<open>3 * b + 2\<close>.  It shows that the hypotheses about libevent can hold together, and it is
  what the witnesses of the properties run on; no property is about it.
\<close>

record simw =
  sim_bufs :: "(cptr \<times> string list) list"
  sim_cbs :: "(cptr \<times> nat option) list"
  sim_onces :: "nat list"
  sim_layers :: "(cptr \<times> cptr \<times> cptr) list"

definition sim_empty :: simw where
  "sim_empty = \<lparr>sim_bufs = [], sim_cbs = [], sim_onces = [], sim_layers = []\<rparr>"

definition sim_chain :: "simw \<Rightarrow> cptr \<Rightarrow> string list" where
  "sim_chain w b = (case map_of (sim_bufs w) b of None \<Rightarrow> [] | Some cs \<Rightarrow> cs)"

definition sim_content :: "simw \<Rightarrow> cptr \<Rightarrow> string" where
  "sim_content w b = concat (sim_chain w b)"

definition sim_store :: "cptr \<Rightarrow> string list \<Rightarrow> simw \<Rightarrow> simw" where
  "sim_store b cs w = w\<lparr>sim_bufs := (b, cs) # sim_bufs w\<rparr>"

fun drain_chain :: "nat \<Rightarrow> string list \<Rightarrow> string list" where
  "drain_chain n [] = []"
| "drain_chain n (c # cs) =
     (if n < length c then drop n c # cs else drain_chain (n - length c) cs)"

definition sim_add :: "cptr \<Rightarrow> string \<Rightarrow> simw \<Rightarrow> simw" where
  "sim_add b s w = sim_store b (sim_chain w b @ [s]) w"

definition sim_move :: "cptr \<Rightarrow> cptr \<Rightarrow> simw \<Rightarrow> simw" where
  "sim_move from to w = sim_store from [] (sim_store to (sim_chain w to @ sim_chain w from) w)"

definition sim_fresh :: "simw \<Rightarrow> nat" where
  "sim_fresh w = Suc (sum_list (map fst (sim_bufs w)) + sum_list (map fst (sim_cbs w)))"

definition sim_libevent :: "simw libevent" where
  "sim_libevent =
     \<lparr>EV_TIMEOUT = 1, EV_READ = 2, EV_WRITE = 4,
      BEV_EVENT_READING = 1, BEV_EVENT_WRITING = 2, BEV_EVENT_EOF = 16, BEV_EVENT_ERROR = 32,
      BEV_EVENT_TIMEOUT = 64, BEV_EVENT_CONNECTED = 128,
      BEV_OPT_CLOSE_ON_FREE = 1, BUFFEREVENT_SSL_CONNECTING = 1, EVBUFFER_EOL_CRLF = 1,
      evutil_make_socket_nonblocking = (\<lambda>_ w. (0, w)),
      evutil_parse_sockaddr_port = (\<lambda>s n. if CHR '':'' \<in> set s then (0, s, n) else (-1, '''', n)),
      evutil_make_listen_socket_reuseable = (\<lambda>_ w. (0, w)),
      event_base_new = (\<lambda>w. (1, w)),
      event_base_free = (\<lambda>_ w. w),
      event_base_dispatch = (\<lambda>_ w. (0, w)),
      event_base_loop = (\<lambda>_ _ w. (0, w)),
      event_base_loopbreak = (\<lambda>_ w. (0, w)),
      event_base_once = (\<lambda>_ _ _ cbp _ w. (0, w\<lparr>sim_onces := sim_onces w @ [cbp]\<rparr>)),
      evbuffer_new = (\<lambda>w. (3 * sim_fresh w + 2, sim_store (3 * sim_fresh w + 2) [] w)),
      evbuffer_free = (\<lambda>_ w. w),
      evbuffer_get_length = (\<lambda>b w. length (sim_content w b)),
      evbuffer_drain = (\<lambda>b n w. (0, sim_store b (drain_chain n (sim_chain w b)) w)),
      evbuffer_add = (\<lambda>b s w. (0, sim_add b s w)),
      evbuffer_add_buffer = (\<lambda>b c w. (0, sim_move c b w)),
      evbuffer_peek = (\<lambda>b _ _ n w. ((int (length (sim_chain w b)), take n (sim_chain w b)), w)),
      evbuffer_remove_buffer = (\<lambda>_ _ _ w. (0, w)),
      evbuffer_search_eol = (\<lambda>b _ _ w.
        ((case find_eol (sim_content w b) of None \<Rightarrow> (- 1, 0) | Some (pos, n) \<Rightarrow> (int pos, n)), w)),
      bufferevent_socket_new = (\<lambda>_ _ _ w. let p = sim_fresh w in
        (p, sim_store (3 * p) [] (sim_store (3 * p + 1) [] w))),
      bufferevent_free = (\<lambda>p w. w\<lparr>sim_cbs := (p, None) # sim_cbs w\<rparr>),
      bufferevent_setcb = (\<lambda>p arg w. w\<lparr>sim_cbs := (p, arg) # sim_cbs w\<rparr>),
      bufferevent_socket_connect = (\<lambda>_ _ _ w. (0, w)),
      bufferevent_write = (\<lambda>p s w. (0, sim_add (3 * p + 1) s w)),
      bufferevent_write_buffer = (\<lambda>p b w. (0, sim_move b (3 * p + 1) w)),
      bufferevent_read = (\<lambda>_ _ w. ('''', w)),
      bufferevent_read_buffer = (\<lambda>p b w. (0, sim_move (3 * p) b w)),
      bufferevent_enable = (\<lambda>_ _ w. (0, w)),
      bufferevent_disable = (\<lambda>_ _ w. (0, w)),
      bufferevent_set_timeouts = (\<lambda>_ _ _ w. (0, w)),
      bufferevent_openssl_filter_new = (\<lambda>_ u ssl _ _ w. let p = Suc (sim_fresh w + u) in
        (p, sim_store (3 * p) [] (sim_store (3 * p + 1) []
          (w\<lparr>sim_cbs := (u, None) # sim_cbs w, sim_layers := (p, u, ssl) # sim_layers w\<rparr>)))),
      bufferevent_get_openssl_error = (\<lambda>_ w. (0, w)),
      bufferevent_get_input = (\<lambda>p. 3 * p),
      bufferevent_get_output = (\<lambda>p. 3 * p + 1)\<rparr>"

lemma concat_drain_chain: "concat (drain_chain n cs) = drop n (concat cs)"
  by (induction n cs rule: drain_chain.induct) auto

lemma sim_content_store [simp]:
  "sim_content (sim_store b cs w) = (sim_content w)(b := concat cs)"
  by (rule ext) (simp add: sim_content_def sim_chain_def sim_store_def)

lemma sim_content_frame [simp]:
  "sim_content (w\<lparr>sim_cbs := x\<rparr>) = sim_content w"
  "sim_content (w\<lparr>sim_onces := y\<rparr>) = sim_content w"
  "sim_content (w\<lparr>sim_layers := z\<rparr>) = sim_content w"
  by (rule ext, simp add: sim_content_def sim_chain_def)+

lemma sim_content_fresh: "sim_fresh w \<le> b \<Longrightarrow> sim_content w b = []"
proof -
  assume b: "sim_fresh w \<le> b"
  have "k \<le> sum_list (map fst (sim_bufs w))" if "(k, cs) \<in> set (sim_bufs w)" for k cs
    using that by (force intro: member_le_sum_list)
  with b have "map_of (sim_bufs w) b = None"
    by (force simp: map_of_eq_None_iff sim_fresh_def)
  then show ?thesis by (simp add: sim_content_def sim_chain_def)
qed

lemma sim_content_add [simp]:
  "sim_content (sim_add b s w) = (sim_content w)(b := sim_content w b @ s)"
  by (simp add: sim_add_def) (simp add: sim_content_def)

lemma sim_content_move [simp]:
  "from \<noteq> to \<Longrightarrow> sim_content (sim_move from to w) =
     (sim_content w)(to := sim_content w to @ sim_content w from, from := [])"
  by (simp add: sim_move_def) (simp add: sim_content_def)

interpretation sim: bufferevent_api sim_libevent sim_content
proof unfold_locales
  fix base fd flags w
  show "\<exists>p w'. bufferevent_socket_new sim_libevent base fd flags w = (p, w') \<and>
        p \<noteq> nullptr \<and> sim_content w (bufferevent_get_input sim_libevent p) = [] \<and>
        sim_content w (bufferevent_get_output sim_libevent p) = [] \<and> sim_content w' = sim_content w"
    by (auto simp: sim_libevent_def Let_def sim_content_fresh fun_upd_idem sim_fresh_def)
next
  fix p q :: nat
  show "bufferevent_get_input sim_libevent p \<noteq> bufferevent_get_output sim_libevent q"
    by (simp add: sim_libevent_def) presburger
next
  fix b w
  show "\<exists>exts. concat exts = sim_content w b \<and>
      (\<forall>n. evbuffer_peek sim_libevent b (- 1) None n w = ((int (length exts), take n exts), w))"
    by (auto simp: sim_libevent_def sim_content_def)
qed (auto simp: sim_libevent_def concat_drain_chain sim_content_def [symmetric])

lemma sim_flags_distinct: "distinct_bits (bev_event_flags sim_libevent)"
  unfolding distinct_bits_def bev_event_flags_def sim_libevent_def
  by (rule exI [of _ "[0, 1, 4, 5, 6, 7]"]) simp

end
