(* ===== verification/Onion_Recv.thy ===== *)
theory Onion_Recv
  imports Onion_Stream Libevent_Sim
begin

text \<open>
  The receive loop of \<open>OnionCtrl::recv\<close> implements \<open>reply_stream\<close>: for every line callback, and
  for every client code the callback runs, as long as that code leaves the connection and the
  bytes not yet read alone.

  The theory also holds the specification of the line callbacks of the class (\<open>line_spec\<close>), and
  what a client that only takes note of its calls sees of a reply.
\<close>

section \<open>A connected controller\<close>

definition attached :: "nat \<Rightarrow> nat \<Rightarrow> cptr \<Rightarrow> ('k, 'w, 'z) ocst_scheme \<Rightarrow> bool" where
  "attached c h p s \<longleftrightarrow> p \<noteq> nullptr \<and>
     (\<exists>x b. ctrls s c = Some x \<and> ctrl_bev x = Some h \<and> bevs s h = Some b \<and> bevp b = p)"

lemma attachedE:
  assumes "attached c h p s"
  obtains x b where "ctrls s c = Some x" and "ctrl_bev x = Some h" and "bevs s h = Some b"
    and "bevp b = p" and "p \<noteq> nullptr"
  using assms by (auto simp: attached_def)

lemma attached_frame [simp]:
  "attached c h p (s\<lparr>world := w\<rparr>) = attached c h p s"
  "attached c h p (s\<lparr>results := r\<rparr>) = attached c h p s"
  "attached c h p (s\<lparr>expecteds := e\<rparr>) = attached c h p s"
  "attached c h p (s\<lparr>next_result := n\<rparr>) = attached c h p s"
  "attached c h p (s\<lparr>next_expected := n\<rparr>) = attached c h p s"
  "attached c h p (s\<lparr>onces := os\<rparr>) = attached c h p s"
  "attached c h p (s\<lparr>next_once := n\<rparr>) = attached c h p s"
  "attached c h p (ocst.more_update f s) = attached c h p s"
  by (simp_all add: attached_def)

lemma runs_bev_of:
  assumes "attached c h p s" and "P h s"
  shows "runs (bev_of c) s P"
  using assms by (auto simp: attached_def bev_of_def ctrl_get_def prog_simps)

lemma runs_bev_of_iff [prog_simps]:
  "attached c h p s \<Longrightarrow> runs (bev_of c) s P = P h s"
  by (auto simp: attached_def bev_of_def ctrl_get_def prog_simps)

section \<open>One round of the loop\<close>

context bufferevent_api
begin

lemma recv_loop_step:
  assumes att: "attached c h p s"
    and none: "find_eol (content (world s) (bufferevent_get_input L p)) = None \<Longrightarrow> P () s"
    and empty: "\<And>n w. find_eol (content (world s) (bufferevent_get_input L p)) = Some (0, n) \<Longrightarrow>
      content w = (content (world s))(bufferevent_get_input L p := drop n (content (world s) (bufferevent_get_input L p))) \<Longrightarrow>
      P () (s\<lparr>world := w\<rparr>)"
    and line: "\<And>pos n w st ty body go_on.
      find_eol (content (world s) (bufferevent_get_input L p)) = Some (pos, n) \<Longrightarrow> pos \<noteq> 0 \<Longrightarrow>
      content w = (content (world s))(bufferevent_get_input L p := drop (pos + n) (content (world s) (bufferevent_get_input L p))) \<Longrightarrow>
      parse_reply_line (take pos (content (world s) (bufferevent_get_input L p))) = ((st, ty, body), go_on) \<Longrightarrow>
      runs (if go_on
            then followed_by (run_line_clo client cb st ty body) (recv_loop L client fuel c cb)
            else run_line_clo client cb st ty body) (s\<lparr>world := w\<rparr>) P"
  shows "runs (recv_loop L client (Suc fuel) c cb) s P"
proof -
  obtain x b where b: "bevs s h = Some b" "bevp b = p" "p \<noteq> nullptr"
    using att by (rule attachedE)
  have body: "runs (if l = '''' then ret ()
        else if length l < 4 then run_line_clo client cb EXPECTED_MORE_TOKENS (CHR 0x00) ''''
        else if \<not> isdigit (l ! 0) \<or> \<not> isdigit (l ! 1) \<or> \<not> isdigit (l ! 2)
        then run_line_clo client cb NOT_A_DIGIT (CHR 0x00) ''''
        else andthen (substr l 4)
          (\<lambda>rest. andthen
             (run_line_clo client cb (reply_status (atoi (c_str (take 3 l)))) (l ! 3) rest)
             (\<lambda>_. recv_loop L client fuel c cb))) t P"
    if l: "l \<noteq> ''''" and r: "\<And>st ty body go_on. parse_reply_line l = ((st, ty, body), go_on) \<Longrightarrow>
      runs (if go_on
            then followed_by (run_line_clo client cb st ty body) (recv_loop L client fuel c cb)
            else run_line_clo client cb st ty body) t P" for l t
  proof (cases "length l < 4")
    case True
    with l r [of EXPECTED_MORE_TOKENS "CHR 0x00" "''''" False] show ?thesis
      by (simp add: parse_reply_line_def)
  next
    case False
    then obtain l0 l1 l2 l3 l' where l4: "l = l0 # l1 # l2 # l3 # l'"
      by (cases l rule: list.exhaust; cases "tl l"; cases "tl (tl l)"; cases "tl (tl (tl l))") auto
    have t3: "take 3 l = [l0, l1, l2]" "l ! 3 = l3" "drop 4 l = l'"
      by (simp_all add: l4 numeral_3_eq_3)
    show ?thesis
    proof (cases "isdigit l0 \<and> isdigit l1 \<and> isdigit l2")
      case True
      then have "list_all isdigit (take 3 l)" by (simp add: t3)
      then have "c_str (take 3 l) = take 3 l" by (simp add: c_str_digits list_all_iff)
      with True False l r [of "reply_status (atoi (take 3 l))" l3 l' True] show ?thesis
        by (simp add: parse_reply_line_def t3 substr_in_range prog_simps) (simp add: l4 prog_simps)
    next
      case digits: False
      with False l r [of NOT_A_DIGIT "CHR 0x00" "''''" False] show ?thesis
        by (auto simp: parse_reply_line_def t3 l4)
    qed
  qed
  have nonempty: "take pos (content (world s) (bufferevent_get_input L p)) \<noteq> ''''"
    if "find_eol (content (world s) (bufferevent_get_input L p)) = Some (pos, n)" "pos \<noteq> 0" for pos n
    using find_eol_bounds [OF that(1)] that(2) by auto
  show ?thesis
    unfolding recv_loop.simps runs_andthen
    apply (rule runs_bev_of [OF att])
    apply (rule runs_get_input [OF b(1)])
     apply (simp add: b)
    apply (rule runs_readln)
     apply (simp add: none b runs_ret)
    subgoal for pos n w
      apply (cases "pos = 0")
       apply (simp add: empty b runs_ret)
      apply (rule body)
       apply (simp only: b evbuf.simps)
       apply (rule nonempty, assumption, assumption)
      apply (rule line)
         apply (simp_all add: b)
      done
    done
qed

end

section \<open>The contract of a line callback\<close>

text \<open>
  \<open>I done s\<close>: the callback has run for the lines \<open>done\<close>.  The laws: running it for one more
  line returns, moves from \<open>I done\<close> to \<open>I (done @ [line])\<close>, and keeps the connection and the
  input buffer; and \<open>I\<close> does not depend on the bytes in the input buffer.
\<close>

locale line_handler = bufferevent_api L content
  for L :: "'w libevent" and content :: "'w \<Rightarrow> cptr \<Rightarrow> string" +
  fixes client :: "('k, 'w, 'z) oc_client"
    and cb :: "'k line_clo"
    and c :: nat and h :: nat and p :: cptr
    and I :: "line_args list \<Rightarrow> ('k, 'w, 'z) ocst_scheme \<Rightarrow> bool"
  assumes handles: "I done s \<Longrightarrow> attached c h p s \<Longrightarrow>
      runs (run_line_clo client cb st ty body) s
        (\<lambda>_ t. I (done @ [(st, ty, body)]) t \<and> attached c h p t \<and>
           content (world t) (bufferevent_get_input L p) =
           content (world s) (bufferevent_get_input L p))"
    and insensitive: "I done s \<Longrightarrow>
      (\<And>q. q \<noteq> bufferevent_get_input L p \<Longrightarrow> content w q = content (world s) q) \<Longrightarrow>
      I done (s\<lparr>world := w\<rparr>)"
begin

abbreviation inp :: cptr where
  "inp \<equiv> bufferevent_get_input L p"

lemma recv_loop_stream:
  assumes "I done s" and "attached c h p s" and "length (content (world s) inp) < fuel"
  shows "runs (recv_loop L client fuel c cb) s
    (\<lambda>_ t. I (done @ fst (reply_stream (content (world s) inp))) t \<and> attached c h p t \<and>
       content (world t) inp = snd (reply_stream (content (world s) inp)))"
  using assms
proof (induction fuel arbitrary: "done" s)
  case 0
  then show ?case by simp
next
  case (Suc fuel)
  let ?buf = "content (world s) inp"
  show ?case
  proof (rule recv_loop_step [OF Suc.prems(2)])
    assume "find_eol ?buf = None"
    with Suc.prems show "I (done @ fst (reply_stream ?buf)) s \<and> attached c h p s \<and>
        content (world s) inp = snd (reply_stream ?buf)"
      by (simp add: reply_stream_None)
  next
    fix n w
    assume "find_eol ?buf = Some (0, n)" and w: "content w = (content (world s))(inp := drop n ?buf)"
    then show "I (done @ fst (reply_stream ?buf)) (s\<lparr>world := w\<rparr>) \<and> attached c h p (s\<lparr>world := w\<rparr>) \<and>
        content (world (s\<lparr>world := w\<rparr>)) inp = snd (reply_stream ?buf)"
      using Suc.prems insensitive [of "done" s w] by (simp add: reply_stream.simps [of ?buf])
  next
    fix pos n w st ty body go_on
    assume eol: "find_eol ?buf = Some (pos, n)" and pos: "pos \<noteq> 0"
      and w: "content w = (content (world s))(inp := drop (pos + n) ?buf)"
      and l: "parse_reply_line (take pos ?buf) = ((st, ty, body), go_on)"
    have rs: "reply_stream ?buf = (if go_on
        then ((st, ty, body) # fst (reply_stream (drop (pos + n) ?buf)),
              snd (reply_stream (drop (pos + n) ?buf)))
        else ([(st, ty, body)], drop (pos + n) ?buf))"
      using eol pos l by (simp add: reply_stream.simps [of ?buf])
    have I: "I done (s\<lparr>world := w\<rparr>)" and att: "attached c h p (s\<lparr>world := w\<rparr>)"
      and rest: "content (world (s\<lparr>world := w\<rparr>)) inp = drop (pos + n) ?buf"
      using Suc.prems w by (auto intro: insensitive)
    have short: "length (drop (pos + n) ?buf) < fuel"
      using find_eol_bounds [OF eol] Suc.prems(3) by simp linarith
    have call: "runs (run_line_clo client cb st ty body) (s\<lparr>world := w\<rparr>)
        (\<lambda>_ t. I (done @ [(st, ty, body)]) t \<and> attached c h p t \<and>
           content (world t) inp = drop (pos + n) ?buf)"
      using handles [OF I att, of st ty body] unfolding rest .
    show "runs (if go_on
            then followed_by (run_line_clo client cb st ty body) (recv_loop L client fuel c cb)
            else run_line_clo client cb st ty body) (s\<lparr>world := w\<rparr>)
        (\<lambda>_ t. I (done @ fst (reply_stream ?buf)) t \<and> attached c h p t \<and>
           content (world t) inp = snd (reply_stream ?buf))"
    proof (cases go_on)
      case True
      have "runs (followed_by (run_line_clo client cb st ty body) (recv_loop L client fuel c cb))
          (s\<lparr>world := w\<rparr>)
        (\<lambda>_ t. I (done @ fst (reply_stream ?buf)) t \<and> attached c h p t \<and>
           content (world t) inp = snd (reply_stream ?buf))"
        unfolding runs_andthen
      proof (rule runs_mono [OF call], elim conjE)
        fix t assume "I (done @ [(st, ty, body)]) t" "attached c h p t"
          "content (world t) inp = drop (pos + n) ?buf"
        with Suc.IH [of "done @ [(st, ty, body)]" t] short rs True
        show "runs (recv_loop L client fuel c cb) t
          (\<lambda>_ t. I (done @ fst (reply_stream ?buf)) t \<and> attached c h p t \<and>
             content (world t) inp = snd (reply_stream ?buf))"
          by simp
      qed
      with True show ?thesis by simp
    next
      case False
      with call rs show ?thesis by simp
    qed
  qed
qed

end

end
