(* ===== verification/Onion_Lines.thy ===== *)
theory Onion_Lines
  imports Onion_Recv
begin

text \<open>
  What the line callbacks of \<open>OnionCtrl\<close> report to the client, as functions on the arguments
  they get; the clients that only take note of the calls (\<open>passive_client\<close>); and the two put
  together: what such a client sees of a reply.
\<close>

section \<open>Specification of the callbacks\<close>

text \<open>A call of client code: the callback and its arguments.\<close>

type_synonym 'k call = "'k \<times> reply"

definition client_status_reply :: "onion_status \<Rightarrow> string \<Rightarrow> reply" where
  "client_status_reply status s =
     (if status \<noteq> ASYNC then ClientStatusReply status '''' '''' []
      else case words s of
          kind # severity # action # args \<Rightarrow>
            (if kind \<noteq> ''STATUS_CLIENT''
             then ClientStatusReply EXPECTED_STATUS_CLIENT_TOKEN '''' '''' []
             else ClientStatusReply ASYNC severity action args)
        | _ \<Rightarrow> ClientStatusReply EXPECTED_MORE_TOKENS '''' '''' [])"

definition bootstrap_reply :: "onion_status \<Rightarrow> string \<Rightarrow> reply" where
  "bootstrap_reply status s =
     (if status \<noteq> OK then IntReply status 0
      else case bootstrap_tokens (words s) 0 of (st, n) \<Rightarrow> IntReply st n)"

fun string_call :: "'k string_clo \<Rightarrow> onion_status \<Rightarrow> string \<Rightarrow> 'k call" where
  "string_call (UserString k) status s = (k, StringReply status s)"
| "string_call (BootstrapInt k) status s = (k, bootstrap_reply status s)"
| "string_call (ClientStatus k) status s = (k, client_status_reply status s)"

definition void_status :: "onion_status \<Rightarrow> char \<Rightarrow> onion_status" where
  "void_status status type =
     (if status = OK \<and> type \<noteq> CHR '' '' then UNEXPECTED_REPLY else status)"

text \<open>
  The state two of the callbacks keep between lines: the text of the reply so far, and the
  status the next line must have.
\<close>

type_synonym line_state = "string \<times> onion_status"

fun line_spec :: "'k line_clo \<Rightarrow> line_state \<Rightarrow> line_args \<Rightarrow> line_state \<times> 'k call list" where
  "line_spec (UserLine k) x (st, ty, s) = (x, [(k, LineReply st ty s)])"
| "line_spec (AuthReply k) x (st, ty, s) = (x, [(k, VoidReply (void_status st ty))])"
| "line_spec (DoVoid k) x (st, ty, s) = (x, [(k, VoidReply (void_status st ty))])"
| "line_spec (GetconfInt v d k) x (st, ty, s) =
     (case getconf_result st ty s v d of (st', n) \<Rightarrow> (x, [(k, IntReply st' n)]))"
| "line_spec (GetinfoBootstrap cb r) (t, e) (st, ty, s) =
     (if st \<noteq> OK then ((t, e), [string_call cb st ''''])
      else if ty = CHR ''-'' \<and> prefix ''status/bootstrap-phase='' s then ((drop 23 s, e), [])
      else if ty \<noteq> CHR '' '' then ((t, e), [string_call cb UNEXPECTED_REPLY ''''])
      else ((t, e), [string_call cb OK t]))"
| "line_spec (SetEvents cb r) (t, e) (st, ty, s) =
     (if st \<noteq> e then ((t, e), [string_call cb UNEXPECTED_STATUS ''''])
      else if ty \<noteq> CHR '' '' then ((t, e), [string_call cb UNEXPECTED_REPLY ''''])
      else ((t, ASYNC), if st = OK then [] else [string_call cb st s]))"

fun lines_spec :: "'k line_clo \<Rightarrow> line_state \<Rightarrow> line_args list \<Rightarrow> line_state \<times> 'k call list" where
  "lines_spec cb x [] = (x, [])"
| "lines_spec cb x (a # as) =
     (case line_spec cb x a of (y, cs) \<Rightarrow>
        case lines_spec cb y as of (z, ds) \<Rightarrow> (z, cs @ ds))"

lemma lines_spec_snoc:
  "lines_spec cb x (as @ [a]) =
     (case lines_spec cb x as of (y, cs) \<Rightarrow>
        case line_spec cb y a of (z, ds) \<Rightarrow> (z, cs @ ds))"
  by (induction as arbitrary: x) (simp_all add: case_prod_beta)

text \<open>Where a callback keeps its state.\<close>

definition cells :: "'k line_clo \<Rightarrow> ('k, 'w, 'z) ocst_scheme \<Rightarrow> line_state" where
  "cells cb s = (case cb of
      GetinfoBootstrap _ r \<Rightarrow> (results s r, OK)
    | SetEvents _ e \<Rightarrow> ('''', expecteds s e)
    | _ \<Rightarrow> ('''', OK))"

lemma cells_frame [simp]:
  "cells cb (s\<lparr>world := w\<rparr>) = cells cb s"
  "cells cb (s\<lparr>bevs := bs\<rparr>) = cells cb s"
  "cells cb (s\<lparr>onces := os\<rparr>) = cells cb s"
  "cells cb (s\<lparr>next_once := n\<rparr>) = cells cb s"
  "cells cb (ocst.more_update f s) = cells cb s"
  by (simp_all add: cells_def split: line_clo.splits)

section \<open>Clients that only take note of the calls\<close>

text \<open>
  The contract: calling back returns, leaves the objects and the bytes alone, and appends the
  call to a log that the client keeps in its own part of the state.
\<close>

definition same_objects ::
  "('w \<Rightarrow> cptr \<Rightarrow> string) \<Rightarrow> ('k, 'w, 'z) ocst_scheme \<Rightarrow> ('k, 'w, 'z) ocst_scheme \<Rightarrow> bool" where
  "same_objects content s t \<longleftrightarrow> content (world t) = content (world s) \<and> bevs t = bevs s \<and>
     onces t = onces s \<and> ctrls t = ctrls s \<and> results t = results s \<and> expecteds t = expecteds s"

definition same_handles ::
  "('k, 'w, 'z) ocst_scheme \<Rightarrow> ('k, 'w, 'z) ocst_scheme \<Rightarrow> bool" where
  "same_handles s t \<longleftrightarrow> bevs t = bevs s \<and> onces t = onces s \<and> ctrls t = ctrls s"

lemma same_handles_trans: "same_handles s t \<Longrightarrow> same_handles t u \<Longrightarrow> same_handles s u"
  by (simp add: same_handles_def)

lemma attached_same_handles: "same_handles s t \<Longrightarrow> attached c h p t = attached c h p s"
  by (simp add: same_handles_def attached_def)

locale passive_client = bufferevent_api L content
  for L :: "'w libevent" and content :: "'w \<Rightarrow> cptr \<Rightarrow> string" +
  fixes client :: "('k, 'w, 'z) oc_client"
    and log_of :: "'z \<Rightarrow> 'k call list"
  assumes takes_note: "runs (client k r) s
      (\<lambda>_ t. same_objects content s t \<and> log_of (ocst.more t) = log_of (ocst.more s) @ [(k, r)])"
begin

abbreviation log :: "('k, 'w, 'z) ocst_scheme \<Rightarrow> 'k call list" where
  "log s \<equiv> log_of (ocst.more s)"

lemma runs_client:
  assumes "\<And>t. same_objects content s t \<Longrightarrow> log t = log s @ [(k, r)] \<Longrightarrow> P () t"
  shows "runs (client k r) s P"
  using takes_note [of k r s] by (rule runs_mono) (use assms in auto)

lemma runs_string_clo:
  assumes "\<And>t. same_objects content s t \<Longrightarrow> log t = log s @ [string_call cb st body] \<Longrightarrow> P () t"
  shows "runs (run_string_clo client cb st body) s P"
proof (cases cb)
  case (UserString k)
  with assms show ?thesis by (simp add: run_string_clo_def runs_client)
next
  case (BootstrapInt k)
  with assms show ?thesis
    by (auto simp: run_string_clo_def bootstrap_reply_def parse_bootstrap_progress_eq andthen_ret
        case_prod_beta intro!: runs_client)
next
  case (ClientStatus k)
  have "run_string_clo client (ClientStatus k) st body = client k (client_status_reply st body)"
    by (auto simp: run_string_clo_def client_status_reply_def tokenize_eq_words Let_def
        split: list.splits)
  with ClientStatus assms show ?thesis by (auto intro!: runs_client)
qed

lemma handles_line:
  "runs (run_line_clo client cb st ty body) s
    (\<lambda>_ t. (cells cb t, log t) =
         (case line_spec cb (cells cb s) (st, ty, body) of (x, cs) \<Rightarrow> (x, log s @ cs)) \<and>
       same_handles s t \<and> content (world t) = content (world s))"
proof (cases cb)
  case (UserLine k)
  then show ?thesis
    by (auto simp: run_line_clo_def cells_def same_objects_def same_handles_def intro!: runs_client)
next
  case (AuthReply k)
  then show ?thesis
    by (auto simp: run_line_clo_def void_status_def cells_def same_objects_def same_handles_def
        intro!: runs_client)
next
  case (DoVoid k)
  then show ?thesis
    by (auto simp: run_line_clo_def do_void_cb_def void_status_def cells_def same_objects_def
        same_handles_def intro!: runs_client)
next
  case (GetconfInt v d k)
  then show ?thesis
    by (auto simp: run_line_clo_def getconf_int_eq cells_def same_objects_def same_handles_def
        case_prod_beta intro!: runs_client)
next
  case (GetinfoBootstrap k r)
  have 23: "length ''status/bootstrap-phase='' = 23" by simp
  show ?thesis
  proof (cases "st = OK \<and> ty = CHR ''-'' \<and> prefix ''status/bootstrap-phase='' body")
    case True
    then have "23 \<le> length body"
      using prefix_length_le [of "''status/bootstrap-phase=''" body] by simp
    with True GetinfoBootstrap show ?thesis
      unfolding run_line_clo_def 23
      by (simp add: str_find_0_iff substr_in_range andthen_ret runs_def prog_simps cells_def
          same_handles_def)
  next
    case False
    with GetinfoBootstrap show ?thesis
      by (auto simp: run_line_clo_def str_find_0_iff prog_simps cells_def same_objects_def
          same_handles_def intro!: runs_string_clo)
  qed
next
  case (SetEvents k e)
  then show ?thesis
    by (auto simp: run_line_clo_def prog_simps cells_def same_objects_def same_handles_def
        intro!: runs_string_clo)
qed

text \<open>So every line callback of the class is a \<open>line_handler\<close> when the client is passive.\<close>

abbreviation reported ::
  "'k line_clo \<Rightarrow> ('k, 'w, 'z) ocst_scheme \<Rightarrow> line_args list \<Rightarrow> ('k, 'w, 'z) ocst_scheme \<Rightarrow> bool" where
  "reported cb s0 args t \<equiv> same_handles s0 t \<and> (cells cb t, log t) =
     (case lines_spec cb (cells cb s0) args of (x, cs) \<Rightarrow> (x, log s0 @ cs))"

sublocale handler: line_handler L content client cb c h p "reported cb s0" for cb c h p s0
proof unfold_locales
  fix "done" s st ty body
  assume "reported cb s0 done s" and "attached c h p s"
  then show "runs (run_line_clo client cb st ty body) s
      (\<lambda>_ t. reported cb s0 (done @ [(st, ty, body)]) t \<and> attached c h p t \<and>
         content (world t) (bufferevent_get_input L p) =
         content (world s) (bufferevent_get_input L p))"
    by (intro runs_mono [OF handles_line])
      (auto simp: lines_spec_snoc case_prod_beta attached_same_handles
        dest: same_handles_trans)
next
  fix "done" s and w :: 'w
  assume "reported cb s0 done s"
  then show "reported cb s0 done (s\<lparr>world := w\<rparr>)" by (simp add: same_handles_def)
qed

lemma recv_loop_reports:
  assumes "attached c h p s" and "length (content (world s) (bufferevent_get_input L p)) < fuel"
  shows "runs (recv_loop L client fuel c cb) s
    (\<lambda>_ t. reported cb s (fst (reply_stream (content (world s) (bufferevent_get_input L p)))) t \<and>
       content (world t) (bufferevent_get_input L p) =
         snd (reply_stream (content (world s) (bufferevent_get_input L p))))"
proof -
  have "reported cb s [] s" by (simp add: same_handles_def)
  from handler.recv_loop_stream [OF this assms] show ?thesis
    by (rule runs_mono) simp
qed

end

section \<open>The client that records\<close>

definition log_client :: "('k, 'w, 'k call list) oc_client" where
  "log_client k r = modify (ocst.more_update (\<lambda>calls. calls @ [(k, r)]))"

interpretation recorder: passive_client sim_libevent sim_content log_client "\<lambda>calls. calls"
  by unfold_locales (simp add: log_client_def prog_simps same_objects_def)

lemma log_client_passive:
  assumes "bufferevent_api L content"
  shows "passive_client L content log_client (\<lambda>calls. calls)"
  using assms unfolding passive_client_def passive_client_axioms_def
  by (simp add: log_client_def prog_simps same_objects_def)

end
