(* ===== verification/Events.thy ===== *)
theory Events
  imports Libevent_Sim
begin

text \<open>
  The environment of a bufferevent: bytes arrive, the output is sent, an event is signalled; each
  makes libevent run one of the C callbacks of \<open>libevent.cpp\<close>.  The theory has the lemmas that
  carry a statement about a closure through the C callback that runs it.
\<close>

section \<open>What libevent does\<close>

text \<open>
  \<open>arrive p x w\<close> is libevent's state after it has read \<open>x\<close> from the socket of \<open>p\<close> into the
  input buffer, \<open>flush p w\<close> after it has written the output buffer to the socket.
\<close>

locale event_env = bufferevent_api L content
  for L :: "'w libevent" and content :: "'w \<Rightarrow> cptr \<Rightarrow> string" +
  fixes arrive :: "cptr \<Rightarrow> string \<Rightarrow> 'w \<Rightarrow> 'w"
    and flush :: "cptr \<Rightarrow> 'w \<Rightarrow> 'w"
  assumes arrives: "content (arrive p x w) = (content w)
      (bufferevent_get_input L p := content w (bufferevent_get_input L p) @ x)"
    and flushes: "content (flush p w) = (content w)(bufferevent_get_output L p := '''')"

definition sim_arrive :: "cptr \<Rightarrow> string \<Rightarrow> simw \<Rightarrow> simw" where
  "sim_arrive p x w = sim_add (bufferevent_get_input sim_libevent p) x w"

definition sim_flush :: "cptr \<Rightarrow> simw \<Rightarrow> simw" where
  "sim_flush p w = sim_store (bufferevent_get_output sim_libevent p) [] w"

interpretation sim_env: event_env sim_libevent sim_content sim_arrive sim_flush
  by unfold_locales (simp_all add: sim_arrive_def sim_flush_def)

text \<open>
  Making an event base and leaving its loop, which the programs under \<open>example/\<close> do: libevent does not
  touch the bytes of the connections.  \<open>loop_left\<close> says that the last thing done to libevent was to
  tell the loop of a base to end.
\<close>

definition loop_left :: "'w libevent \<Rightarrow> evbase \<Rightarrow> ('c, 'w, 'z) evst_scheme \<Rightarrow> bool" where
  "loop_left L base t \<longleftrightarrow> (\<exists>w. event_base_loopbreak L (base_ptr base) w = (0, world t))"

locale loop_env = event_env L content arrive flush
  for L :: "'w libevent" and content :: "'w \<Rightarrow> cptr \<Rightarrow> string"
    and arrive :: "cptr \<Rightarrow> string \<Rightarrow> 'w \<Rightarrow> 'w" and flush :: "cptr \<Rightarrow> 'w \<Rightarrow> 'w" +
  assumes base_new: "\<exists>p w'. event_base_new L w = (p, w') \<and> p \<noteq> nullptr \<and> content w' = content w"
    and loopbreak: "\<exists>w'. event_base_loopbreak L p w = (0, w') \<and> content w' = content w"
begin

lemma runs_loopbreak:
  assumes "\<And>w. content w = content (world s) \<Longrightarrow> loop_left L base (s\<lparr>world := w\<rparr>) \<Longrightarrow> P () (s\<lparr>world := w\<rparr>)"
  shows "runs (EventBase_loopbreak L base) s P"
proof -
  obtain w where w: "event_base_loopbreak L (base_ptr base) (world s) = (0, w)" "content w = content (world s)"
    using loopbreak by blast
  then have "loop_left L base (s\<lparr>world := w\<rparr>)" by (auto simp: loop_left_def)
  with w show ?thesis by (simp add: EventBase_loopbreak_def runs_lib_check assms)
qed

lemma runs_EventBase_create:
  assumes "\<And>p w. content w = content (world s) \<Longrightarrow> P \<lparr>base_ptr = p, base_owned = True\<rparr> (s\<lparr>world := w\<rparr>)"
  shows "runs (EventBase_create L) s P"
  using base_new [of "world s"] assms
  by (auto simp: EventBase_create_def EventBase_assign_def runs_andthen runs_lib runs_ret)

end

interpretation sim_loop: loop_env sim_libevent sim_content sim_arrive sim_flush
  by unfold_locales (simp_all add: sim_libevent_def)

datatype event = Readable string | Writable | Event u16

text \<open>
  \<open>tuned L w v\<close> says that libevent's state is \<open>v\<close> after calls, in the state \<open>w\<close>, that only set callbacks,
  disable events or set a timer.  They are the calls of a C callback that disposes of its object.
\<close>

inductive tuned :: "'w libevent \<Rightarrow> 'w \<Rightarrow> 'w \<Rightarrow> bool" for L where
  tuned_refl: "tuned L w w"
| tuned_setcb: "tuned L w v \<Longrightarrow> tuned L w (bufferevent_setcb L p arg v)"
| tuned_disable: "tuned L w v \<Longrightarrow> bufferevent_disable L p what v = (r, v') \<Longrightarrow> tuned L w v'"
| tuned_once: "tuned L w v \<Longrightarrow> event_base_once L base sock what cbp timeo v = (r, v') \<Longrightarrow> tuned L w v'"

text \<open>
  \<open>run\<close> and \<open>run_event\<close> say what the closures of the client of the bufferevents do.
\<close>

definition deliver ::
  "'w libevent \<Rightarrow> (cptr \<Rightarrow> string \<Rightarrow> 'w \<Rightarrow> 'w) \<Rightarrow> (cptr \<Rightarrow> 'w \<Rightarrow> 'w) \<Rightarrow>
   (nat \<Rightarrow> ('c, 'w, 'z) evst_scheme \<Rightarrow> bool) \<Rightarrow> ('c \<Rightarrow> ('c, 'w, 'z, unit) ev_prog) \<Rightarrow>
   ('c \<Rightarrow> u16 \<Rightarrow> ('c, 'w, 'z, unit) ev_prog) \<Rightarrow> nat \<Rightarrow> event \<Rightarrow> ('c, 'w, 'z, unit) ev_prog"
where
  "deliver L arrive flush unique run run_event h e = (case e of
      Readable x \<Rightarrow> andthen (bev_get h)
        (\<lambda>b. followed_by (modify (\<lambda>s. s\<lparr>world := arrive (bevp b) x (world s)\<rparr>))
          (mk_libevent_bev_read L unique run h))
    | Writable \<Rightarrow> andthen (bev_get h)
        (\<lambda>b. followed_by (modify (\<lambda>s. s\<lparr>world := flush (bevp b) (world s)\<rparr>))
          (mk_libevent_bev_write L unique run h))
    | Event what \<Rightarrow> mk_libevent_bev_event L unique run_event what h)"

section \<open>Through the C callbacks\<close>

context bufferevent_api
begin

abbreviation inbuf :: "cptr \<Rightarrow> ('c, 'w, 'z) evst_scheme \<Rightarrow> string" where
  "inbuf p s \<equiv> content (world s) (bufferevent_get_input L p)"

abbreviation outbuf :: "cptr \<Rightarrow> ('c, 'w, 'z) evst_scheme \<Rightarrow> string" where
  "outbuf p s \<equiv> content (world s) (bufferevent_get_output L p)"

lemma runs_is_ignored_by_cxx:
  assumes "bevs s h = Some b"
    and "\<And>w. content w = content (world s) \<Longrightarrow> tuned L (world s) w \<Longrightarrow>
      P () (s\<lparr>onces := (onces s)(next_once s \<mapsto> DeleteVarp h), next_once := Suc (next_once s),
        world := w\<rparr>)"
  shows "runs (is_ignored_by_cxx L h) s P"
proof (cases "bevp b = nullptr")
  case True
  with assms show ?thesis
    by (simp add: is_ignored_by_cxx_def prog_simps)
      (rule runs_once_call, simp add: tuned_once [OF tuned_refl])
next
  case False
  obtain w where w: "bufferevent_disable L (bevp b) (EV_READ L OR EV_WRITE L)
      (bufferevent_setcb L (bevp b) None (world s)) = (0, w)"
    "content w = content (world s)"
    using bev_disable [of "bevp b" _ "bufferevent_setcb L (bevp b) None (world s)"]
    by (metis bev_setcb)
  have "tuned L (world s) w" by (rule tuned_disable [OF tuned_setcb [OF tuned_refl] w(1)])
  with w False assms show ?thesis
    by (simp add: is_ignored_by_cxx_def prog_simps) (rule runs_once_call, simp add: tuned_once)
qed

text \<open>
  A C callback of an object that C++ code refers to runs the member.  Afterwards the object may
  be found without references; what that adds to the state is \<open>ignored\<close>.
\<close>

definition ignored :: "nat \<Rightarrow> ('c, 'w, 'z) evst_scheme \<Rightarrow> ('c, 'w, 'z) evst_scheme \<Rightarrow> bool" where
  "ignored h s t \<longleftrightarrow> t = s \<or> (\<exists>w. content w = content (world s) \<and> tuned L (world s) w \<and>
     t = s\<lparr>onces := (onces s)(next_once s \<mapsto> DeleteVarp h), next_once := Suc (next_once s),
       world := w\<rparr>)"

lemma runs_bev_callback_ignored:
  assumes "bevs s h = Some b" and "varp b" and "member b = Some clo" and "\<not> unique h s"
    and "runs (run clo) s (\<lambda>_ t. bevs t h \<noteq> None \<and> (\<forall>u. ignored h t u \<longrightarrow> P () u))"
  shows "runs (bev_callback L unique member run h) s P"
proof -
  have "runs (run clo) s
      (\<lambda>_ t. runs (if unique h t then is_ignored_by_cxx L h else ret ()) t P)"
    using assms(5)
  proof (rule runs_mono, elim conjE)
    fix t
    assume t: "bevs t h \<noteq> None" and P: "\<forall>u. ignored h t u \<longrightarrow> P () u"
    then obtain b' where "bevs t h = Some b'" by auto
    then have "runs (is_ignored_by_cxx L h) t P"
      using P by (rule_tac runs_is_ignored_by_cxx) (auto simp: ignored_def)
    moreover have "P () t" using P by (simp add: ignored_def)
    ultimately show "runs (if unique h t then is_ignored_by_cxx L h else ret ()) t P"
      by (simp add: runs_ret)
  qed
  with assms(1-4) show ?thesis
    by (simp add: bev_callback_def runs_andthen runs_gets func_bool_def runs_func_call runs_bev_get)
qed

lemma runs_bev_callback_none_ignored:
  assumes "bevs s h = Some b" and "varp b" and "member b = None"
    and "\<forall>u. ignored h s u \<longrightarrow> P () u"
  shows "runs (bev_callback L unique member run h) s P"
proof -
  have "runs (is_ignored_by_cxx L h) s P"
    using assms(4) by (intro runs_is_ignored_by_cxx [OF assms(1)]) (auto simp: ignored_def)
  moreover have "P () s" using assms(4) by (simp add: ignored_def)
  ultimately show ?thesis
    using assms(1-3)
    by (simp add: bev_callback_def runs_andthen runs_gets func_bool_def runs_bev_get runs_ret)
qed

end

section \<open>What the peer sees\<close>

text \<open>An observation of the state: the run goes wrong where it fails.\<close>

definition expects :: "('s \<Rightarrow> bool) \<Rightarrow> ('s, exn, unit) prog" where
  "expects Q = (\<lambda>s. if Q s then (Return (), s) else (Throw (UndefinedBehaviour ''not as expected''), s))"

lemma runs_expects: "runs (expects Q) s P \<longleftrightarrow> Q s \<and> P () s"
  by (simp add: expects_def runs_def)

text \<open>The bytes in the output buffer of the bufferevent \<open>h\<close> are \<open>x\<close>.\<close>

definition output_is ::
  "'w libevent \<Rightarrow> ('w \<Rightarrow> cptr \<Rightarrow> string) \<Rightarrow> nat \<Rightarrow> string \<Rightarrow> ('c, 'w, 'z) evst_scheme \<Rightarrow> bool" where
  "output_is L content h x s = (case bevs s h of
      None \<Rightarrow> False
    | Some b \<Rightarrow> content (world s) (bufferevent_get_output L (bevp b)) = x)"

text \<open>The peer of \<open>h\<close> reads \<open>x\<close>, and nothing else, from the connection; \<open>netw\<close> handles the events.\<close>

abbreviation peer_reads ::
  "'w libevent \<Rightarrow> ('w \<Rightarrow> cptr \<Rightarrow> string) \<Rightarrow> (nat \<Rightarrow> event \<Rightarrow> ('c, 'w, 'z, unit) ev_prog) \<Rightarrow> nat \<Rightarrow> string \<Rightarrow>
   ('c, 'w, 'z, unit) ev_prog" where
  "peer_reads L content netw h x \<equiv> followed_by (expects (output_is L content h x)) (netw h Writable)"

section \<open>The closures of a program\<close>

text \<open>
  \<open>run\<close> and \<open>run_event\<close> say what the closures do, and \<open>unique\<close> gives a fair account of the references: a
  bufferevent whose callback for events is set is referred to, because the closures of the code
  capture it.  One event runs at most one closure; the condition \<open>Q\<close> holds afterwards, whether the
  object is then found without references or not.
\<close>

locale dispatching = event_env L content arrive flush
  for L :: "'w libevent" and content :: "'w \<Rightarrow> cptr \<Rightarrow> string"
    and arrive :: "cptr \<Rightarrow> string \<Rightarrow> 'w \<Rightarrow> 'w" and flush :: "cptr \<Rightarrow> 'w \<Rightarrow> 'w" +
  fixes run :: "'c \<Rightarrow> ('c, 'w, 'z, unit) ev_prog" and run_event :: "'c \<Rightarrow> u16 \<Rightarrow> ('c, 'w, 'z, unit) ev_prog"
    and unique :: "nat \<Rightarrow> ('c, 'w, 'z) evst_scheme \<Rightarrow> bool"
  assumes refs: "bevs s h = Some b \<Longrightarrow> event_cb b \<noteq> None \<Longrightarrow> \<not> unique h s"
begin

abbreviation handle :: "nat \<Rightarrow> event \<Rightarrow> ('c, 'w, 'z, unit) ev_prog" where
  "handle h \<equiv> deliver L arrive flush unique run run_event h"

abbreviation server_reads :: "nat \<Rightarrow> string \<Rightarrow> ('c, 'w, 'z, unit) ev_prog" where
  "server_reads \<equiv> peer_reads L content handle"

lemma runs_callback:
  assumes "bevs s h = Some b" and "varp b" and "event_cb b \<noteq> None \<or> member b = None"
    and "case member b of None \<Rightarrow> Q s | Some clo \<Rightarrow> runs (runner clo) s (\<lambda>_. Q)"
    and stable: "\<And>t u. Q t \<Longrightarrow> ignored h t u \<Longrightarrow> Q u" "\<And>t. Q t \<Longrightarrow> bevs t h \<noteq> None"
  shows "runs (bev_callback L unique member runner h) s (\<lambda>_. Q)"
proof (cases "member b")
  case None
  with assms(4) show ?thesis
    by (intro runs_bev_callback_none_ignored [OF assms(1,2)]) (auto intro: stable(1))
next
  case (Some clo)
  with assms(4) have "runs (runner clo) s (\<lambda>_. Q)" by simp
  then have "runs (runner clo) s (\<lambda>_ t. bevs t h \<noteq> None \<and> (\<forall>u. ignored h t u \<longrightarrow> Q u))"
    by (rule runs_mono) (use stable in blast)
  with Some assms(1-3) refs [OF assms(1)] show ?thesis by (intro runs_bev_callback_ignored) simp_all
qed

lemma runs_readable:
  assumes "bevs s h = Some b" and "varp b" and "event_cb b \<noteq> None \<or> read_cb b = None"
    and "case read_cb b of None \<Rightarrow> Q (s\<lparr>world := arrive (bevp b) x (world s)\<rparr>)
      | Some clo \<Rightarrow> runs (run clo) (s\<lparr>world := arrive (bevp b) x (world s)\<rparr>) (\<lambda>_. Q)"
    and "\<And>t u. Q t \<Longrightarrow> ignored h t u \<Longrightarrow> Q u" "\<And>t. Q t \<Longrightarrow> bevs t h \<noteq> None"
  shows "runs (handle h (Readable x)) s (\<lambda>_. Q)"
  using assms runs_callback [of "s\<lparr>world := arrive (bevp b) x (world s)\<rparr>" h b read_cb Q run]
  by (simp add: deliver_def runs_andthen runs_bev_get runs_modify mk_libevent_bev_read_def)

lemma runs_writable:
  assumes "bevs s h = Some b" and "varp b" and "event_cb b \<noteq> None \<or> write_cb b = None"
    and "case write_cb b of None \<Rightarrow> Q (s\<lparr>world := flush (bevp b) (world s)\<rparr>)
      | Some clo \<Rightarrow> runs (run clo) (s\<lparr>world := flush (bevp b) (world s)\<rparr>) (\<lambda>_. Q)"
    and "\<And>t u. Q t \<Longrightarrow> ignored h t u \<Longrightarrow> Q u" "\<And>t. Q t \<Longrightarrow> bevs t h \<noteq> None"
  shows "runs (handle h Writable) s (\<lambda>_. Q)"
  using assms runs_callback [of "s\<lparr>world := flush (bevp b) (world s)\<rparr>" h b write_cb Q run]
  by (simp add: deliver_def runs_andthen runs_bev_get runs_modify mk_libevent_bev_write_def)

lemma runs_event:
  assumes "bevs s h = Some b" and "varp b"
    and "case event_cb b of None \<Rightarrow> Q s | Some clo \<Rightarrow> runs (run_event clo what) s (\<lambda>_. Q)"
    and "\<And>t u. Q t \<Longrightarrow> ignored h t u \<Longrightarrow> Q u" "\<And>t. Q t \<Longrightarrow> bevs t h \<noteq> None"
  shows "runs (handle h (Event what)) s (\<lambda>_. Q)"
  using assms runs_callback [of s h b event_cb Q "\<lambda>c. run_event c what"]
  by (cases "event_cb b") (simp_all add: deliver_def mk_libevent_bev_event_def)

end

end
