(* ===== verification/Onion_Session.thy ===== *)
theory Onion_Session
  imports Onion_Lines Events
begin

text \<open>
  Whole conversations over the bufferevent of an \<open>OnionCtrl\<close>: what its functions make of what
  libevent signals, from the command to the last line of the reply.
\<close>

section \<open>Events\<close>

definition handle_event ::
  "'w libevent \<Rightarrow> (cptr \<Rightarrow> string \<Rightarrow> 'w \<Rightarrow> 'w) \<Rightarrow> (cptr \<Rightarrow> 'w \<Rightarrow> 'w) \<Rightarrow>
   (nat \<Rightarrow> ('k, 'w, 'z) ocst_scheme \<Rightarrow> bool) \<Rightarrow> ('k, 'w, 'z) oc_client \<Rightarrow> nat \<Rightarrow> nat \<Rightarrow> event \<Rightarrow>
   ('k, 'w, 'z, unit) oc_prog" where
  "handle_event L arrive flush unique client fuel h e =
     deliver L arrive flush unique (run_ctrl_clo L client fuel) (run_ctrl_event L client) h e"

abbreviation handle_events ::
  "'w libevent \<Rightarrow> (cptr \<Rightarrow> string \<Rightarrow> 'w \<Rightarrow> 'w) \<Rightarrow> (cptr \<Rightarrow> 'w \<Rightarrow> 'w) \<Rightarrow>
   (nat \<Rightarrow> ('k, 'w, 'z) ocst_scheme \<Rightarrow> bool) \<Rightarrow> ('k, 'w, 'z) oc_client \<Rightarrow> nat \<Rightarrow> nat \<Rightarrow>
   event list \<Rightarrow> ('k, 'w, 'z, unit) oc_prog" where
  "handle_events L arrive flush unique client fuel h \<equiv>
     run_all (handle_event L arrive flush unique client fuel h)"

text \<open>
  A controller that is referred to keeps its bufferevent alive: \<open>unique\<close> is false of it.
\<close>

definition counts_refs :: "(nat \<Rightarrow> ('k, 'w, 'z) ocst_scheme \<Rightarrow> bool) \<Rightarrow> bool" where
  "counts_refs unique \<longleftrightarrow> (\<forall>c h p s. attached c h p s \<longrightarrow> \<not> unique h s)"

lemma counts_refsD: "counts_refs unique \<Longrightarrow> attached c h p s \<Longrightarrow> \<not> unique h s"
  by (auto simp: counts_refs_def)

text \<open>The bufferevent of a controller with its three callbacks.\<close>

definition callbacks ::
  "nat \<Rightarrow> nat \<Rightarrow> cptr \<Rightarrow> 'k ctrl_clo option \<Rightarrow> 'k ctrl_clo option \<Rightarrow> 'k ctrl_clo option \<Rightarrow>
   ('k, 'w, 'z) ocst_scheme \<Rightarrow> bool" where
  "callbacks c h p r w e s \<longleftrightarrow> attached c h p s \<and>
     (\<exists>b. bevs s h = Some b \<and> varp b \<and> read_cb b = r \<and> write_cb b = w \<and> event_cb b = e)"

lemma callbacks_attached: "callbacks c h p r w e s \<Longrightarrow> attached c h p s"
  by (simp add: callbacks_def)

lemma callbacks_same_handles:
  "same_handles s t \<Longrightarrow> callbacks c h p r w e t = callbacks c h p r w e s"
  by (simp add: callbacks_def attached_same_handles) (simp add: same_handles_def)

lemma callbacks_frame [simp]:
  "callbacks c h p r w e (s\<lparr>world := v\<rparr>) = callbacks c h p r w e s"
  "callbacks c h p r w e (s\<lparr>results := x\<rparr>) = callbacks c h p r w e s"
  "callbacks c h p r w e (s\<lparr>expecteds := y\<rparr>) = callbacks c h p r w e s"
  "callbacks c h p r w e (s\<lparr>next_result := n\<rparr>) = callbacks c h p r w e s"
  "callbacks c h p r w e (s\<lparr>next_expected := n\<rparr>) = callbacks c h p r w e s"
  "callbacks c h p r w e (s\<lparr>onces := os\<rparr>) = callbacks c h p r w e s"
  "callbacks c h p r w e (s\<lparr>next_once := n\<rparr>) = callbacks c h p r w e s"
  by (simp_all add: callbacks_def)

section \<open>One event\<close>

text \<open>The C callbacks of a bufferevent that a controller refers to run the member and no more.\<close>

lemma runs_bev_callback:
  assumes "counts_refs unique" and "attached c h p s"
    and "bevs s h = Some b" and "varp b" and "member b = Some clo"
    and "runs (run clo) s (\<lambda>_ t. attached c h p t \<and> P () t)"
  shows "runs (bev_callback L unique member run h) s P"
proof -
  have "\<not> unique h s" using assms(1,2) by (rule counts_refsD)
  moreover have "runs (run clo) s (\<lambda>_ t. \<not> unique h t \<and> P () t)"
    using assms(6) by (rule runs_mono) (auto dest: counts_refsD [OF assms(1)])
  ultimately show ?thesis
    using assms(3-5)
    by (auto simp: bev_callback_def prog_simps func_bool_def runs_func_call elim: runs_mono)
qed

lemma runs_bev_callback_none:
  assumes "counts_refs unique" and "attached c h p s"
    and "bevs s h = Some b" and "varp b" and "member b = None" and "P () s"
  shows "runs (bev_callback L unique member run h) s P"
  using assms counts_refsD [OF assms(1,2)]
  by (simp add: bev_callback_def prog_simps func_bool_def)

lemma runs_setcb_attached:
  assumes "callbacks c h p r' w' e' s"
    and "\<And>t. callbacks c h p r w e t \<Longrightarrow> world t = world s \<Longrightarrow> ocst.more t = ocst.more s \<Longrightarrow>
      results t = results s \<Longrightarrow> expecteds t = expecteds s \<Longrightarrow> same_helpers s t \<Longrightarrow> onces t = onces s \<Longrightarrow>
      next_once t = next_once s \<Longrightarrow>
      ctrls t = ctrls s \<Longrightarrow> next_bev t = next_bev s \<Longrightarrow> next_ctrl t = next_ctrl s \<Longrightarrow> P () t"
  shows "runs (setcb r w e h) s P"
  using assms by (auto simp: callbacks_def attached_def prog_simps)

text \<open>What a step that calls no client leaves alone.\<close>

definition silent :: "('k, 'w, 'z) ocst_scheme \<Rightarrow> ('k, 'w, 'z) ocst_scheme \<Rightarrow> bool" where
  "silent s t \<longleftrightarrow> results t = results s \<and> expecteds t = expecteds s \<and> onces t = onces s \<and>
     next_once t = next_once s \<and> ocst.more t = ocst.more s \<and>
     (\<forall>c. map_option ctrl_evbase (ctrls t c) = map_option ctrl_evbase (ctrls s c)) \<and>
     next_bev t = next_bev s \<and> next_ctrl t = next_ctrl s \<and> same_helpers s t"

text \<open>What a conversation leaves alone, even when it runs client code of the class.\<close>

definition steady :: "('k, 'w, 'z) ocst_scheme \<Rightarrow> ('k, 'w, 'z) ocst_scheme \<Rightarrow> bool" where
  "steady s t \<longleftrightarrow> ocst.more t = ocst.more s \<and>
     (\<forall>c. map_option ctrl_evbase (ctrls t c) = map_option ctrl_evbase (ctrls s c)) \<and>
     next_bev t = next_bev s \<and> next_ctrl t = next_ctrl s \<and> same_helpers s t"

lemma steady_refl: "steady s s"
  and steady_trans: "steady s t \<Longrightarrow> steady t u \<Longrightarrow> steady s u"
  and silent_steady: "silent s t \<Longrightarrow> steady s t"
  by (auto simp: steady_def silent_def)

lemma silent_trans: "silent s t \<Longrightarrow> silent t u \<Longrightarrow> silent s u"
  by (simp add: silent_def)

lemma silent_cells: "silent s t \<Longrightarrow> cells cb t = cells cb s"
  by (simp add: silent_def cells_def split: line_clo.splits)

section \<open>Steps that call no client\<close>

text \<open>
  An event library, any client, a fair account of the references, and fuel for the receive loop.
\<close>

locale ctrl_session = event_env L content arrive flush
  for L :: "'w libevent" and content :: "'w \<Rightarrow> cptr \<Rightarrow> string"
    and arrive :: "cptr \<Rightarrow> string \<Rightarrow> 'w \<Rightarrow> 'w" and flush :: "cptr \<Rightarrow> 'w \<Rightarrow> 'w" +
  fixes client :: "('k, 'w, 'z) oc_client"
    and unique :: "nat \<Rightarrow> ('k, 'w, 'z) ocst_scheme \<Rightarrow> bool"
    and fuel :: nat
  assumes refs: "counts_refs unique"
begin

abbreviation handle :: "nat \<Rightarrow> event \<Rightarrow> ('k, 'w, 'z, unit) oc_prog" where
  "handle h \<equiv> handle_event L arrive flush unique client fuel h"

abbreviation sending :: "nat \<Rightarrow> nat \<Rightarrow> cptr \<Rightarrow> 'k line_clo \<Rightarrow> ('k, 'w, 'z) ocst_scheme \<Rightarrow> bool" where
  "sending c h p cb \<equiv> callbacks c h p None (Some (SentWrite (SendRecv c cb)))
     (Some (SentEvent (SendRecv c cb)))"

abbreviation receiving :: "nat \<Rightarrow> nat \<Rightarrow> cptr \<Rightarrow> 'k line_clo \<Rightarrow> ('k, 'w, 'z) ocst_scheme \<Rightarrow> bool" where
  "receiving c h p cb \<equiv> callbacks c h p (Some (RecvRead c cb)) None (Some (RecvEvent cb))"

lemma runs_send:
  assumes "callbacks c h p r w e s"
  shows "runs (send L c command cb) s
    (\<lambda>_ t. callbacks c h p None (Some (SentWrite cb)) (Some (SentEvent cb)) t \<and> silent s t \<and>
       outbuf p t = outbuf p s @ command \<and> inbuf p t = inbuf p s)"
proof -
  note att = callbacks_attached [OF assms]
  then obtain b where b: "bevs s h = Some b" "bevp b = p" "p \<noteq> nullptr" by (rule attachedE)
  show ?thesis
    unfolding send_def runs_andthen
    apply (rule runs_bev_of [OF att])
    apply (rule runs_write [OF b(1)])
    apply (rule runs_bev_of [of c h p])
     apply (simp add: att)
    apply (rule runs_setcb_attached [of c h p r w e])
     apply (simp add: assms)
    using input_not_output [OF b(3) b(3)] b(2)
    apply (simp add: silent_def)
    done
qed

lemma runs_recv:
  assumes "callbacks c h p r w e s"
  shows "runs (recv L c cb) s
    (\<lambda>_ t. receiving c h p cb t \<and> silent s t \<and> content (world t) = content (world s))"
proof -
  note att = callbacks_attached [OF assms]
  then obtain b where b: "bevs s h = Some b" "bevp b = p" "p \<noteq> nullptr" by (rule attachedE)
  show ?thesis
    unfolding recv_def runs_andthen
    apply (rule runs_bev_of [OF att])
    apply (rule runs_enable [OF b(1)])
    apply (rule runs_bev_of [of c h p])
     apply (simp add: att)
    apply (rule runs_setcb_attached [of c h p r w e])
     apply (simp add: assms)
    apply (simp add: silent_def)
    done
qed

lemma runs_sendrecv:
  assumes "callbacks c h p r w e s"
  shows "runs (sendrecv L c command cb) s
    (\<lambda>_ t. sending c h p cb t \<and> silent s t \<and>
       outbuf p t = outbuf p s @ command \<and> inbuf p t = inbuf p s)"
  unfolding sendrecv_def by (rule runs_send [OF assms])

lemma runs_writable:
  assumes "sending c h p cb s"
  shows "runs (handle h Writable) s
    (\<lambda>_ t. receiving c h p cb t \<and> silent s t \<and> outbuf p t = '''' \<and> inbuf p t = inbuf p s)"
proof -
  from assms obtain b where b: "bevs s h = Some b" "varp b" "bevp b = p" "p \<noteq> nullptr"
    "write_cb b = Some (SentWrite (SendRecv c cb))"
    by (auto simp: callbacks_def attached_def)
  let ?s = "s\<lparr>world := flush p (world s)\<rparr>"
  have "runs (run_ctrl_clo L client fuel (SentWrite (SendRecv c cb))) ?s
     (\<lambda>_ t. attached c h p t \<and> receiving c h p cb t \<and> silent s t \<and> outbuf p t = '''' \<and>
        inbuf p t = inbuf p s)"
    unfolding run_ctrl_clo_def ctrl_clo.case run_sent_clo_def sent_clo.case
    by (simp, rule runs_mono [OF runs_recv [of c h p]])
      (use assms input_not_output [OF b(4) b(4)] in
        \<open>auto simp: callbacks_attached silent_def flushes\<close>)
  with b refs callbacks_attached [OF assms] show ?thesis
    by (simp add: handle_event_def deliver_def prog_simps mk_libevent_bev_write_def)
      (rule runs_bev_callback [of unique c h p], simp_all)
qed

abbreviation connecting :: "nat \<Rightarrow> nat \<Rightarrow> cptr \<Rightarrow> string \<Rightarrow> 'k \<Rightarrow> ('k, 'w, 'z) ocst_scheme \<Rightarrow> bool" where
  "connecting c h p token k \<equiv> callbacks c h p None None (Some (ConnectEvent c (ConnAuth token c k)))"

lemma runs_connect:
  assumes "ctrls s c = Some x" and "ctrl_bev x = None"
  shows "runs (connect L client c sa len cb timeout) s
    (\<lambda>_ t. silent (s\<lparr>next_bev := Suc (next_bev s)\<rparr>) t \<and> content (world t) = content (world s) \<and>
       (\<forall>d. d \<noteq> c \<longrightarrow> ctrls t d = ctrls s d) \<and> (\<forall>g. g \<noteq> next_bev s \<longrightarrow> bevs t g = bevs s g) \<and>
       (\<exists>p. callbacks c (next_bev s) p None None (Some (ConnectEvent c cb)) t \<and>
         inbuf p t = '''' \<and> outbuf p t = ''''))"
proof -
  let ?h = "next_bev s"
  have att: "attached c ?h p t" and bev: "runs (bev_of c) t P \<longleftrightarrow> P ?h t"
    if "ctrls t c = Some (x\<lparr>ctrl_bev := Some ?h\<rparr>)" "bevs t ?h = Some b" "bevp b = p" "p \<noteq> nullptr"
    for t b p and P :: "nat \<Rightarrow> ('k, 'w, 'z) ocst_scheme \<Rightarrow> bool"
  proof -
    show "attached c ?h p t" using that by (simp add: attached_def)
    then show "runs (bev_of c) t P \<longleftrightarrow> P ?h t" by (rule runs_bev_of_iff)
  qed
  show ?thesis
    apply (simp add: connect_def ctrl_get_def prog_simps assms)
    apply (rule runs_socket_new)
    apply (simp add: bev prog_simps new_bufev_def)
    apply (rule runs_set_timeouts, simp)
    apply (simp add: bev)
    apply (rule runs_socket_connect, simp)
    apply (auto simp: callbacks_def silent_def assms(1) intro!: exI att)
    done
qed

lemma runs_connected:
  assumes "connecting c h p token k s"
  shows "runs (handle h (Event (BEV_EVENT_CONNECTED L))) s
    (\<lambda>_ t. sending c h p (AuthReply k) t \<and> silent s t \<and>
       outbuf p t = outbuf p s @ cmd_authenticate token \<and> inbuf p t = inbuf p s)"
proof -
  from assms obtain b where b: "bevs s h = Some b" "varp b"
    "event_cb b = Some (ConnectEvent c (ConnAuth token c k))"
    by (auto simp: callbacks_def)
  have "runs (run_ctrl_event L client (ConnectEvent c (ConnAuth token c k)) (BEV_EVENT_CONNECTED L)) s
     (\<lambda>_ t. attached c h p t \<and> sending c h p (AuthReply k) t \<and> silent s t \<and>
       outbuf p t = outbuf p s @ cmd_authenticate token \<and> inbuf p t = inbuf p s)"
    by (simp add: run_ctrl_event_def run_void_clo_def)
      (rule runs_mono [OF runs_sendrecv [OF assms]], auto simp: callbacks_attached)
  with b refs callbacks_attached [OF assms] show ?thesis
    by (simp add: handle_event_def deliver_def mk_libevent_bev_event_def)
      (rule runs_bev_callback [of unique c h p], simp_all)
qed

lemma runs_close:
  assumes "callbacks c h p r w e s"
  shows "runs (close c) s (\<lambda>_ t. callbacks c h p None None None t \<and> silent s t \<and> world t = world s)"
  unfolding close_def runs_andthen
  by (rule runs_bev_of [OF callbacks_attached [OF assms]], rule runs_setcb_attached [OF assms])
    (simp add: silent_def)

lemma runs_closed:
  assumes "callbacks c h p None None None s"
  shows "runs (handle h e) s (\<lambda>_ t. callbacks c h p None None None t \<and> silent s t)"
proof -
  from assms obtain b where "bevs s h = Some b" "varp b" "read_cb b = None" "write_cb b = None"
    "event_cb b = None"
    by (auto simp: callbacks_def)
  then show ?thesis
    using assms
    by (cases e)
      (auto simp: handle_event_def deliver_def prog_simps mk_libevent_bev_read_def mk_libevent_bev_write_def
        mk_libevent_bev_event_def silent_def callbacks_attached
        intro!: runs_bev_callback_none [OF refs, of c h p])
qed

lemma runs_closed_all:
  assumes "callbacks c h p None None None s"
  shows "runs (run_all (handle h) es) s (\<lambda>_ t. callbacks c h p None None None t \<and> silent s t)"
  using assms
proof (induction es arbitrary: s)
  case Nil
  then show ?case by (simp add: runs_ret silent_def)
next
  case (Cons e es)
  show ?case
    unfolding run_all.simps runs_andthen
    by (rule runs_mono [OF runs_closed [OF Cons.prems]], elim conjE, rule runs_mono, rule Cons.IH)
      (auto intro: silent_trans)
qed

end

section \<open>The contract of a session\<close>

text \<open>A session whose client only takes note of the calls.\<close>

locale session = passive_client L content client log_of +
  ctrl_session L content arrive flush client unique fuel
  for L :: "'w libevent" and content :: "'w \<Rightarrow> cptr \<Rightarrow> string"
    and client :: "('k, 'w, 'z) oc_client" and log_of :: "'z \<Rightarrow> 'k call list"
    and arrive :: "cptr \<Rightarrow> string \<Rightarrow> 'w \<Rightarrow> 'w" and flush :: "cptr \<Rightarrow> 'w \<Rightarrow> 'w"
    and unique :: "nat \<Rightarrow> ('k, 'w, 'z) ocst_scheme \<Rightarrow> bool"
    and fuel :: nat
begin

lemma runs_readable:
  assumes "receiving c h p cb s" and "length (inbuf p s @ x) < fuel"
  shows "runs (handle h (Readable x)) s
    (\<lambda>_ t. receiving c h p cb t \<and>
       (cells cb t, log t) = (case lines_spec cb (cells cb s) (fst (reply_stream (inbuf p s @ x)))
          of (y, cs) \<Rightarrow> (y, log s @ cs)) \<and>
       inbuf p t = snd (reply_stream (inbuf p s @ x)))"
proof -
  from assms obtain b where b: "bevs s h = Some b" "varp b" "bevp b = p" "p \<noteq> nullptr"
    "read_cb b = Some (RecvRead c cb)"
    by (auto simp: callbacks_def attached_def)
  let ?s = "s\<lparr>world := arrive p x (world s)\<rparr>"
  have "runs (run_ctrl_clo L client fuel (RecvRead c cb)) ?s
     (\<lambda>_ t. attached c h p t \<and> receiving c h p cb t \<and>
       (cells cb t, log t) = (case lines_spec cb (cells cb s) (fst (reply_stream (inbuf p s @ x)))
          of (y, cs) \<Rightarrow> (y, log s @ cs)) \<and>
       inbuf p t = snd (reply_stream (inbuf p s @ x)))"
    unfolding run_ctrl_clo_def ctrl_clo.case
    by (rule runs_mono [OF recv_loop_reports [of c h p ?s]])
      (use assms in \<open>auto simp: callbacks_attached arrives callbacks_same_handles
          attached_same_handles\<close>)
  with b refs callbacks_attached [OF assms(1)] show ?thesis
    by (simp add: handle_event_def deliver_def prog_simps mk_libevent_bev_read_def)
      (rule runs_bev_callback [of unique c h p], simp_all)
qed

end

section \<open>Conversations\<close>

lemma lines_spec_append:
  "lines_spec cb x (as @ bs) =
     (case lines_spec cb x as of (y, cs) \<Rightarrow>
        case lines_spec cb y bs of (z, ds) \<Rightarrow> (z, cs @ ds))"
  by (induction as arbitrary: x) (simp_all add: case_prod_beta)

lemma event_mask_to_status_error: "event_mask_to_status L what \<noteq> NO_ERROR"
  by (simp add: event_mask_to_status_def)

context session
begin

lemma runs_readables:
  assumes "receiving c h p cb s" and "length (inbuf p s @ concat xs) < fuel"
  shows "runs (run_all (handle h) (map Readable xs)) s
    (\<lambda>_ t. receiving c h p cb t \<and>
       (cells cb t, log t) = (case lines_spec cb (cells cb s) (fst (receive_chunks (inbuf p s) xs))
          of (y, cs) \<Rightarrow> (y, log s @ cs)) \<and>
       inbuf p t = snd (receive_chunks (inbuf p s) xs))"
  using assms
proof (induction xs arbitrary: s)
  case Nil
  then show ?case by (simp add: runs_ret)
next
  case (Cons x xs)
  let ?rs = "reply_stream (inbuf p s @ x)"
  have "length (inbuf p s @ x) < fuel" using Cons.prems(2) by simp
  note first = runs_readable [OF Cons.prems(1) this]
  have fuel: "length (snd ?rs @ concat xs) < fuel"
    using Cons.prems(2) reply_stream_rest_length [of "inbuf p s @ x"] by simp
  show ?case
    unfolding list.map run_all.simps runs_andthen
  proof (rule runs_mono [OF first], elim conjE)
    fix t
    assume "receiving c h p cb t" and in': "inbuf p t = snd ?rs"
      and log: "(cells cb t, log t) =
        (case lines_spec cb (cells cb s) (fst ?rs) of (y, cs) \<Rightarrow> (y, log s @ cs))"
    with Cons.IH [of t] fuel show "runs (run_all (handle h) (map Readable xs)) t
      (\<lambda>_ t. receiving c h p cb t \<and>
        (cells cb t, log t) =
          (case lines_spec cb (cells cb s) (fst (receive_chunks (inbuf p s) (x # xs)))
            of (y, cs) \<Rightarrow> (y, log s @ cs)) \<and>
        inbuf p t = snd (receive_chunks (inbuf p s) (x # xs)))"
      by (simp add: case_prod_beta lines_spec_append)
  qed
qed

text \<open>
  From the command to the reply: the command goes out, once, and the client gets what the lines
  of the reply stand for, however the bytes are cut into pieces.
\<close>

lemma runs_reply:
  assumes "sending c h p cb s" and "inbuf p s = ''''"
    and "drained (concat xs)" and "length (concat xs) < fuel"
  shows "runs (run_all (handle h) (Writable # map Readable xs)) s
    (\<lambda>_ t. receiving c h p cb t \<and>
       (cells cb t, log t) = (case lines_spec cb (cells cb s) (fst (reply_stream (concat xs)))
          of (y, cs) \<Rightarrow> (y, log s @ cs)) \<and>
       inbuf p t = snd (reply_stream (concat xs)))"
  unfolding runs_andthen run_all.simps
proof (rule runs_mono [OF runs_writable [OF assms(1)]], elim conjE)
  fix u
  assume u: "receiving c h p cb u" "silent s u" "inbuf p u = inbuf p s"
  have chunks: "receive_chunks '''' xs = reply_stream (concat xs)"
    using receive_chunks_concat [of "''''" xs] assms(3) by simp
  have su: "cells cb u = cells cb s" "log u = log s"
    using u(2) by (rule silent_cells) (use u(2) in \<open>simp add: silent_def\<close>)
  have "length (inbuf p u @ concat xs) < fuel" using assms(2,4) u(3) by simp
  from runs_readables [OF u(1) this] show "runs (run_all (handle h) (map Readable xs)) u
    (\<lambda>_ t. receiving c h p cb t \<and>
       (cells cb t, log t) = (case lines_spec cb (cells cb s) (fst (reply_stream (concat xs)))
          of (y, cs) \<Rightarrow> (y, log s @ cs)) \<and>
       inbuf p t = snd (reply_stream (concat xs)))"
    unfolding su u(3) assms(2) chunks .
qed

lemma runs_conversation:
  assumes "callbacks c h p r w e s" and "inbuf p s = ''''"
    and "list_all wf_line ls" and "concat xs = wire ls" and "length (wire ls) < fuel"
  shows "runs (sendrecv L c command cb) s
    (\<lambda>_ t. outbuf p t = outbuf p s @ command \<and>
       runs (run_all (handle h) (Writable # map Readable xs)) t
         (\<lambda>_ u. log u = log s @ snd (lines_spec cb (cells cb s) (map line_args_of ls)) \<and>
            inbuf p u = '''' \<and> receiving c h p cb u))"
proof (rule runs_mono [OF runs_sendrecv [OF assms(1)]], elim conjE)
  fix t
  assume t: "sending c h p cb t" "silent s t" "inbuf p t = inbuf p s"
    and out: "outbuf p t = outbuf p s @ command"
  have "drained (wire ls)" "reply_stream (wire ls) = (map line_args_of ls, '''')"
    using reply_stream_wire [OF assms(3), of "''''"] by simp_all
  moreover have "cells cb t = cells cb s" "log t = log s"
    using t(2) by (rule silent_cells) (use t(2) in \<open>simp add: silent_def\<close>)
  ultimately have "runs (run_all (handle h) (Writable # map Readable xs)) t
      (\<lambda>_ u. log u = log s @ snd (lines_spec cb (cells cb s) (map line_args_of ls)) \<and>
         inbuf p u = '''' \<and> receiving c h p cb u)"
    using t(3) assms(2,4,5)
    by (intro runs_mono [OF runs_reply [OF t(1), of xs]]) (simp_all add: case_prod_beta)
  with out show "outbuf p t = outbuf p s @ command \<and>
      runs (run_all (handle h) (Writable # map Readable xs)) t
         (\<lambda>_ u. log u = log s @ snd (lines_spec cb (cells cb s) (map line_args_of ls)) \<and>
            inbuf p u = '''' \<and> receiving c h p cb u)" ..
qed

text \<open>An event before the command is sent, or while the reply is awaited, ends in one error.\<close>

lemma runs_event_receiving:
  assumes "receiving c h p cb s"
  shows "runs (handle h (Event what)) s
    (\<lambda>_ t. receiving c h p cb t \<and>
       (cells cb t, log t) =
         (case line_spec cb (cells cb s) (event_mask_to_status L what, CHR 0x00, '''')
            of (y, cs) \<Rightarrow> (y, log s @ cs)))"
proof -
  from assms obtain b where b: "bevs s h = Some b" "varp b" "event_cb b = Some (RecvEvent cb)"
    by (auto simp: callbacks_def)
  have "runs (run_ctrl_event L client (RecvEvent cb) what) s
     (\<lambda>_ t. attached c h p t \<and> receiving c h p cb t \<and>
       (cells cb t, log t) =
         (case line_spec cb (cells cb s) (event_mask_to_status L what, CHR 0x00, '''')
            of (y, cs) \<Rightarrow> (y, log s @ cs)))"
    unfolding run_ctrl_event_def ctrl_clo.case
    by (rule runs_mono [OF handles_line], elim conjE)
      (simp add: assms callbacks_attached [OF assms] callbacks_same_handles [of s]
        attached_same_handles [of s])
  with b refs callbacks_attached [OF assms] show ?thesis
    by (simp add: handle_event_def deliver_def mk_libevent_bev_event_def)
      (rule runs_bev_callback [of unique c h p], simp_all)
qed

lemma runs_event_sending:
  assumes "sending c h p cb s"
  shows "runs (handle h (Event what)) s
    (\<lambda>_ t. sending c h p cb t \<and>
       (cells cb t, log t) =
         (case line_spec cb (cells cb s) (event_mask_to_status L what, CHR 0x00, '''')
            of (y, cs) \<Rightarrow> (y, log s @ cs)))"
proof -
  from assms obtain b where b: "bevs s h = Some b" "varp b"
    "event_cb b = Some (SentEvent (SendRecv c cb))"
    by (auto simp: callbacks_def)
  have "runs (run_ctrl_event L client (SentEvent (SendRecv c cb)) what) s
     (\<lambda>_ t. attached c h p t \<and> sending c h p cb t \<and>
       (cells cb t, log t) =
         (case line_spec cb (cells cb s) (event_mask_to_status L what, CHR 0x00, '''')
            of (y, cs) \<Rightarrow> (y, log s @ cs)))"
    unfolding run_ctrl_event_def ctrl_clo.case run_sent_clo_def sent_clo.case
    by (simp add: event_mask_to_status_error, rule runs_mono [OF handles_line], elim conjE)
      (simp add: assms callbacks_attached [OF assms] callbacks_same_handles [of s]
        attached_same_handles [of s])
  with b refs callbacks_attached [OF assms] show ?thesis
    by (simp add: handle_event_def deliver_def mk_libevent_bev_event_def)
      (rule runs_bev_callback [of unique c h p], simp_all)
qed

end

section \<open>Connecting, authenticating, closing\<close>

context session
begin

lemma runs_connect_failed:
  assumes "connecting c h p token k s" and "what \<noteq> BEV_EVENT_CONNECTED L"
  shows "runs (handle h (Event what)) s
    (\<lambda>_ t. callbacks c h p None None None t \<and> log t = log s @ [(k, VoidReply CONNECT_FAILED)] \<and>
       content (world t) = content (world s))"
proof -
  note att = callbacks_attached [OF assms(1)]
  from assms obtain b where b: "bevs s h = Some b" "varp b"
    "event_cb b = Some (ConnectEvent c (ConnAuth token c k))"
    by (auto simp: callbacks_def)
  have "runs (client k (VoidReply CONNECT_FAILED)) t
     (\<lambda>_ t. attached c h p t \<and> callbacks c h p None None None t \<and>
       log t = log s @ [(k, VoidReply CONNECT_FAILED)] \<and> content (world t) = content (world s))"
    if "callbacks c h p None None None t" "world t = world s" "ocst.more t = ocst.more s" for t
    using that callbacks_attached [OF that(1)]
    by (intro runs_client) (auto simp: same_objects_def attached_def callbacks_def)
  then have "runs (run_ctrl_event L client (ConnectEvent c (ConnAuth token c k)) what) s
     (\<lambda>_ t. attached c h p t \<and> callbacks c h p None None None t \<and>
       log t = log s @ [(k, VoidReply CONNECT_FAILED)] \<and> content (world t) = content (world s))"
    using assms(2)
    by (simp add: run_ctrl_event_def run_void_clo_def runs_andthen runs_bev_of_iff [OF att])
      (rule runs_setcb_attached [OF assms(1)], simp)
  with b refs att show ?thesis
    by (simp add: handle_event_def deliver_def mk_libevent_bev_event_def)
      (rule runs_bev_callback [of unique c h p], simp_all)
qed

lemma runs_authenticate:
  assumes "ctrls s c = Some x" and "ctrl_bev x = None"
    and "drained (concat xs)" and "length (concat xs) < fuel"
  shows "runs (followed_by (connect_and_authenticate_sa L client c sa len k token timeout)
      (run_all (handle (next_bev s))
        (Event (BEV_EVENT_CONNECTED L) # Writable # map Readable xs))) s
    (\<lambda>_ t. log t = log s @
       map (\<lambda>(st, ty, _). (k, VoidReply (void_status st ty))) (fst (reply_stream (concat xs))))"
  unfolding runs_andthen run_all.simps connect_and_authenticate_sa_def
proof (rule runs_mono [OF runs_connect [OF assms(1,2)]], elim conjE exE)
  fix t p
  assume t: "silent (s\<lparr>next_bev := Suc (next_bev s)\<rparr>) t" "connecting c (next_bev s) p token k t" "inbuf p t = ''''"
  show "runs (handle (next_bev s) (Event (BEV_EVENT_CONNECTED L))) t
    (\<lambda>_ t. runs (handle (next_bev s) Writable) t
      (\<lambda>_ t. runs (run_all (handle (next_bev s)) (map Readable xs)) t
        (\<lambda>_ t. log t = log s @
           map (\<lambda>(st, ty, _). (k, VoidReply (void_status st ty))) (fst (reply_stream (concat xs))))))"
  proof (rule runs_mono [OF runs_connected [OF t(2)]], elim conjE,
      rule runs_mono [OF runs_writable], assumption, elim conjE)
    fix u v
    assume u: "silent t u" "inbuf p u = inbuf p t" and v: "receiving c (next_bev s) p (AuthReply k) v"
      "silent u v" "inbuf p v = inbuf p u"
    have "length (inbuf p v @ concat xs) < fuel" using v u t assms(4) by simp
    note reads = runs_readables [OF v(1) this]
    have calls: "lines_spec (AuthReply k) y as =
        (y, map (\<lambda>(st, ty, _). (k, VoidReply (void_status st ty))) as)" for y as
      by (induction as) (auto simp: case_prod_beta)
    have chunks: "receive_chunks '''' xs = reply_stream (concat xs)"
      using receive_chunks_concat [of "''''" xs] assms(3) by simp
    have "log v = log s" using t(1) u(1) v(2) by (simp add: silent_def)
    then show "runs (run_all (handle (next_bev s)) (map Readable xs)) v
        (\<lambda>_ t. log t = log s @
           map (\<lambda>(st, ty, _). (k, VoidReply (void_status st ty))) (fst (reply_stream (concat xs))))"
      using v u t by (intro runs_mono [OF reads]) (simp add: calls chunks)
  qed
qed

end

section \<open>The session of the recording client\<close>

text \<open>
  The references to a bufferevent that C++ code holds are those of the controllers.
\<close>

definition ctrl_unique :: "nat \<Rightarrow> ('k, 'w, 'z) ocst_scheme \<Rightarrow> bool" where
  "ctrl_unique h s \<longleftrightarrow> (\<forall>c. case ctrls s c of None \<Rightarrow> True | Some x \<Rightarrow> ctrl_bev x \<noteq> Some h)"

lemma ctrl_unique_counts: "counts_refs ctrl_unique"
  by (auto simp: counts_refs_def ctrl_unique_def attached_def split: option.splits)

interpretation sim_session: session sim_libevent sim_content log_client "\<lambda>calls. calls"
  sim_arrive sim_flush ctrl_unique fuel for fuel
  by unfold_locales (rule ctrl_unique_counts)

text \<open>A state with one controller, connected through bufferevent 1; and one not yet connected.\<close>

definition demo_base :: evbase where
  "demo_base = \<lparr>base_ptr = 1, base_owned = True\<rparr>"

definition demo_state ::
  "'k ctrl_clo option \<Rightarrow> 'k ctrl_clo option \<Rightarrow> 'k ctrl_clo option \<Rightarrow>
   ('k, simw, 'a list) ocst_scheme" where
  "demo_state r w e =
     \<lparr>world = sim_empty,
      bevs = [0 \<mapsto> \<lparr>event_cb = e, read_cb = r, write_cb = w, bevp = 1, bev_base = demo_base,
        varp = True\<rparr>],
      next_bev = 1, onces = Map.empty, next_once = 0,
      strings = (\<lambda>_. ''''), flags = (\<lambda>_. False), verbose = False, clog = '''',
     ssl_singleton = None, ctrls = [0 \<mapsto> \<lparr>ctrl_evbase = demo_base, ctrl_bev = Some 0\<rparr>], next_ctrl = 1,
      results = (\<lambda>_. ''''), next_result = 0, expecteds = (\<lambda>_. OK), next_expected = 0, \<dots> = []\<rparr>"

definition demo_new :: "('k, simw, 'a list) ocst_scheme" where
  "demo_new = (demo_state None None None)
     \<lparr>ctrls := [0 \<mapsto> \<lparr>ctrl_evbase = demo_base, ctrl_bev = None\<rparr>]\<rparr>"

lemma demo_state_simps [simp]:
  "callbacks 0 0 1 r w e (demo_state r w e)"
  "attached 0 0 1 (demo_state r w e)"
  "ocst.more (demo_state r w e) = []"
  "sim_content (world (demo_state r w e)) b = ''''"
  "cells cb (demo_state r w e) = ('''', OK)"
  "ctrls demo_new 0 = Some \<lparr>ctrl_evbase = demo_base, ctrl_bev = None\<rparr>"
  "ocst.more demo_new = []"
  "next_bev demo_new = 1"
  by (simp_all add: demo_state_def demo_new_def callbacks_def attached_def sim_empty_def
      sim_content_def sim_chain_def cells_def split: line_clo.splits)

section \<open>Commands whose callback keeps state\<close>

context session
begin

lemma runs_getinfo:
  assumes "callbacks c h p r w e s" and "inbuf p s = ''''"
    and "list_all wf_line ls" and "concat xs = wire ls" and "length (wire ls) < fuel"
  shows "runs (getinfo_status_bootstrap_phase_as_string L c cb) s
    (\<lambda>_ t. outbuf p t = outbuf p s @ ''GETINFO status/bootstrap-phase'' @ crlf \<and>
       runs (run_all (handle h) (Writable # map Readable xs)) t
         (\<lambda>_ u. log u = log s @ snd (lines_spec (GetinfoBootstrap cb (next_result s)) ('''', OK)
              (map line_args_of ls)) \<and>
            inbuf p u = ''''))"
proof -
  let ?s = "s\<lparr>results := (results s)(next_result s := ''''), next_result := Suc (next_result s)\<rparr>"
  have "callbacks c h p r w e ?s" "inbuf p ?s = ''''" using assms by simp_all
  note conv = runs_conversation [OF this assms(3-5)]
  have cells: "cells (GetinfoBootstrap cb (next_result s)) ?s = ('''', OK)"
    by (simp add: cells_def)
  show ?thesis
    unfolding getinfo_status_bootstrap_phase_as_string_def new_result_def
    by (simp add: runs_andthen runs_gets runs_modify runs_ret del: run_all.simps list.map,
        rule runs_mono [OF conv])
      (auto simp: cells simp del: run_all.simps list.map elim: runs_mono)
qed

lemma runs_setevents:
  assumes "callbacks c h p r w e s" and "inbuf p s = ''''"
    and "list_all wf_line ls" and "concat xs = wire ls" and "length (wire ls) < fuel"
  shows "runs (setevents_client_status_as_string L c cb) s
    (\<lambda>_ t. outbuf p t = outbuf p s @ ''SETEVENTS STATUS_CLIENT'' @ crlf \<and>
       runs (run_all (handle h) (Writable # map Readable xs)) t
         (\<lambda>_ u. log u = log s @ snd (lines_spec (SetEvents cb (next_expected s)) ('''', OK)
              (map line_args_of ls)) \<and>
            inbuf p u = ''''))"
proof -
  let ?s = "s\<lparr>expecteds := (expecteds s)(next_expected s := OK),
    next_expected := Suc (next_expected s)\<rparr>"
  have "callbacks c h p r w e ?s" "inbuf p ?s = ''''" using assms by simp_all
  note conv = runs_conversation [OF this assms(3-5)]
  have cells: "cells (SetEvents cb (next_expected s)) ?s = ('''', OK)"
    by (simp add: cells_def)
  show ?thesis
    unfolding setevents_client_status_as_string_def new_expected_def
    by (simp add: runs_andthen runs_gets runs_modify runs_ret del: run_all.simps list.map,
        rule runs_mono [OF conv])
      (auto simp: cells simp del: run_all.simps list.map elim: runs_mono)
qed

end

text \<open>The texts tor sends: the bootstrap phase, and the status events.\<close>

lemma bootstrap_text:
  assumes "n < 1000" and "t = [] \<or> isspace (hd t)"
  shows "bootstrap_tokens (words (''NOTICE BOOTSTRAP PROGRESS='' @ show_nat n @ t)) 0 = (OK, int n)"
proof -
  have nb: "\<forall>x \<in> set (''PROGRESS='' @ show_nat n). \<not> isspace x"
    using show_nat_digits [of n] by (auto simp: isspace_def isdigit_def uchar_def)
  have sp: "isspace (CHR '' '')" by (simp add: isspace_def uchar_def)
  have "words (''PROGRESS='' @ show_nat n @ t) = (''PROGRESS='' @ show_nat n) # words t"
    using words_word [OF nb _ assms(2)] by simp
  then have "words (''BOOTSTRAP '' @ ''PROGRESS='' @ show_nat n @ t) =
      ''BOOTSTRAP'' # (''PROGRESS='' @ show_nat n) # words t"
    using words_word [of "''BOOTSTRAP''" "'' PROGRESS='' @ show_nat n @ t"] words_space [OF sp] sp
    by (simp add: isspace_def uchar_def)
  then have "words (''NOTICE BOOTSTRAP PROGRESS='' @ show_nat n @ t) =
      ''NOTICE'' # ''BOOTSTRAP'' # (''PROGRESS='' @ show_nat n) # words t"
    using words_word [of "''NOTICE''" "'' BOOTSTRAP PROGRESS='' @ show_nat n @ t"] words_space [OF sp] sp
    by (simp add: isspace_def uchar_def)
  moreover have "length (show_nat n) \<le> 3" using assms(1) by (intro length_show_nat) simp_all
  ultimately show ?thesis
    using show_nat_digits [of n]
    by (simp add: bootstrap_tokens_OK_iff digits_value_show_nat list_all_iff)
qed

lemma async_lines:
  "lines_spec (SetEvents cb e) (t, ASYNC) (map (\<lambda>b. (ASYNC, CHR '' '', b)) bodies) =
     ((t, ASYNC), map (string_call cb ASYNC) bodies)"
  by (induction bodies) simp_all

end
