(* ===== verification/Onion_Props.thy ===== *)
theory Onion_Props
  imports Onion_Session
begin

text \<open>
  The properties of \<open>OnionCtrl\<close>.  Most of them speak of a \<open>session\<close>: libevent as documented, and
  a client that takes note of how it is called.  They are about the whole way from the call of
  a function of the class to the calls of the client, through the C callbacks of
  \<open>libevent.cpp\<close> and the closures the class leaves in the bufferevent.
\<close>

section \<open>Replies\<close>

text \<open>
  C1: How the bytes of a reply are cut into reads makes no difference, when they are the bytes of a reply:
  every complete line in them is one that the receive loop does not stop at, that is, it has at least
  four bytes and begins with three digits (\<open>drained\<close>; the bytes may end in the middle of a line).  Then
  two ways of delivering the same bytes both return (no exception, no endless loop), make the same calls
  of the client in the same order, and leave the same unread bytes in the buffer; the calls are those of
  the specification for the lines in the bytes.  Without that condition the cutting does make a
  difference: see \<open>malformed_line_stalls\<close>.
\<close>

theorem reply_segmentation:
  assumes "session L content client log_of arrive flush unique"
    and "callbacks c h p (Some (RecvRead c cb)) None (Some (RecvEvent cb)) s"
    and "content (world s) (bufferevent_get_input L p) = ''''"
    and "concat xs = concat ys" and "drained (concat xs)" and "length (concat xs) < fuel"
  shows "\<exists>calls rest. calls = snd (lines_spec cb (cells cb s) (fst (reply_stream (concat xs)))) \<and>
    (\<forall>zs \<in> {xs, ys}.
      runs (handle_events L arrive flush unique client fuel h (map Readable zs)) s
        (\<lambda>_ t. log_of (ocst.more t) = log_of (ocst.more s) @ calls \<and>
           content (world t) (bufferevent_get_input L p) = rest))"
proof -
  have *: "runs (handle_events L arrive flush unique client fuel h (map Readable zs)) s
        (\<lambda>_ t. log_of (ocst.more t) = log_of (ocst.more s) @
             snd (lines_spec cb (cells cb s) (fst (reply_stream (concat xs)))) \<and>
           content (world t) (bufferevent_get_input L p) = snd (reply_stream (concat xs)))"
    if "concat zs = concat xs" for zs
    using assms(3,5,6) that receive_chunks_concat [of "''''" zs]
    by (intro runs_mono [OF session.runs_readables [OF assms(1,2)]]) (simp_all add: case_prod_beta)
  then show ?thesis using assms(4) by (intro exI) auto
qed

theorem reply_segmentation_witness:
  "runs (handle_events sim_libevent sim_arrive sim_flush ctrl_unique log_client 20 0
       (map Readable [''250 OK'' @ crlf])) (demo_state (Some (RecvRead 0 (DoVoid (7 :: nat)))) None
         (Some (RecvEvent (DoVoid 7))))
     (\<lambda>_ t. ocst.more t = [(7, VoidReply OK)]) \<and>
   runs (handle_events sim_libevent sim_arrive sim_flush ctrl_unique log_client 20 0
       (map Readable [''25'', ''0 OK'' @ [CHR 0x0D], [CHR 0x0A]]))
       (demo_state (Some (RecvRead 0 (DoVoid (7 :: nat)))) None (Some (RecvEvent (DoVoid 7))))
     (\<lambda>_ t. ocst.more t = [(7, VoidReply OK)])"
proof -
  have rs: "reply_stream (''250 OK'' @ crlf) = ([(OK, CHR '' '', ''OK'')], '''')"
    and dr: "drained (''250 OK'' @ crlf)"
    by code_simp+
  show ?thesis
    using reply_segmentation [OF sim_session.session_axioms demo_state_simps(1),
        where cb = "DoVoid 7" and xs = "[''250 OK'' @ crlf]" and fuel = 20
          and ys = "[''25'', ''0 OK'' @ [CHR 0x0D], [CHR 0x0A]]"] rs dr
    by (auto simp: void_status_def simp del: run_all.simps list.map elim: runs_mono)
qed

text \<open>
  C39: A line that is not one of a reply (empty, of less than four bytes, or not beginning with three
  digits) stops the receive loop, after the call that reports the error (none for an empty line).  The
  lines after it that came with the same read stay unread: no call is made for them until more bytes
  come.  Had the same bytes been cut after the malformed line, the calls would have been made.
\<close>

theorem malformed_line_stalls:
  assumes "session L content client log_of arrive flush unique"
    and "callbacks c h p (Some (RecvRead c cb)) None (Some (RecvEvent cb)) s"
    and "content (world s) (bufferevent_get_input L p) = ''''"
    and "list_all wf_line ls" and "malformed l" and "list_all wf_line ms"
    and "length (wire ls @ l @ crlf @ wire ms) < fuel"
  shows "runs (handle_events L arrive flush unique client fuel h (map Readable [wire ls @ l @ crlf @ wire ms])) s
      (\<lambda>_ t. log_of (ocst.more t) = log_of (ocst.more s) @
           snd (lines_spec cb (cells cb s) (map line_args_of ls @ malformed_args l)) \<and>
         content (world t) (bufferevent_get_input L p) = wire ms) \<and>
    runs (handle_events L arrive flush unique client fuel h (map Readable [wire ls @ l @ crlf, wire ms])) s
      (\<lambda>_ t. log_of (ocst.more t) = log_of (ocst.more s) @
           snd (lines_spec cb (cells cb s) (map line_args_of ls @ malformed_args l @ map line_args_of ms)) \<and>
         content (world t) (bufferevent_get_input L p) = '''')"
proof -
  note reads = session.runs_readables [OF assms(1,2)]
  have one: "receive_chunks '''' [wire ls @ l @ crlf @ wire ms] = (map line_args_of ls @ malformed_args l, wire ms)"
    using reply_stream_malformed [OF assms(4,5), of "wire ms"] by simp
  have two: "receive_chunks '''' [wire ls @ l @ crlf, wire ms] =
      (map line_args_of ls @ malformed_args l @ map line_args_of ms, '''')"
    using reply_stream_malformed [OF assms(4,5), of "''''"] reply_stream_wire [OF assms(6), of "''''"] by simp
  show ?thesis
    by (intro conjI; rule runs_mono [OF reads])
      (use assms(3,7) in \<open>simp_all only: one two append_Nil concat.simps append_Nil2 append_assoc\<close>,
       simp_all add: case_prod_beta)
qed

theorem malformed_line_stalls_witness:
  "runs (handle_events sim_libevent sim_arrive sim_flush ctrl_unique log_client 40 0
       (map Readable [wire [(250, CHR ''+'', ''x='')] @ ''ab'' @ crlf @ wire [(250, CHR '' '', ''OK'')]]))
       (demo_state (Some (RecvRead 0 (DoVoid (7 :: nat)))) None (Some (RecvEvent (DoVoid 7))))
     (\<lambda>_ t. ocst.more t = [(7, VoidReply UNEXPECTED_REPLY), (7, VoidReply EXPECTED_MORE_TOKENS)]) \<and>
   runs (handle_events sim_libevent sim_arrive sim_flush ctrl_unique log_client 40 0
       (map Readable [wire [(250, CHR ''+'', ''x='')] @ ''ab'' @ crlf, wire [(250, CHR '' '', ''OK'')]]))
       (demo_state (Some (RecvRead 0 (DoVoid (7 :: nat)))) None (Some (RecvEvent (DoVoid 7))))
     (\<lambda>_ t. ocst.more t = [(7, VoidReply UNEXPECTED_REPLY), (7, VoidReply EXPECTED_MORE_TOKENS), (7, VoidReply OK)])"
proof -
  let ?ls = "[(250, CHR ''+'', ''x='')]" and ?ms = "[(250, CHR '' '', ''OK'')]"
  have wf: "list_all wf_line ?ls" "malformed ''ab''" "list_all wf_line ?ms"
    and fuel: "length (wire ?ls @ ''ab'' @ crlf @ wire ?ms) < 40"
    and calls: "snd (lines_spec (DoVoid (7 :: nat)) (cells (DoVoid 7) (demo_state (Some (RecvRead 0 (DoVoid (7 :: nat)))) None (Some (RecvEvent (DoVoid 7)))))
      (map line_args_of ?ls @ malformed_args ''ab'')) = [(7, VoidReply UNEXPECTED_REPLY), (7, VoidReply EXPECTED_MORE_TOKENS)]"
    "snd (lines_spec (DoVoid (7 :: nat)) (cells (DoVoid 7) (demo_state (Some (RecvRead 0 (DoVoid (7 :: nat)))) None (Some (RecvEvent (DoVoid 7)))))
      (map line_args_of ?ls @ malformed_args ''ab'' @ map line_args_of ?ms)) =
      [(7, VoidReply UNEXPECTED_REPLY), (7, VoidReply EXPECTED_MORE_TOKENS), (7, VoidReply OK)]"
    by code_simp+
  note stalls = malformed_line_stalls [OF sim_session.session_axioms demo_state_simps(1,4) wf fuel,
      where cb = "DoVoid (7 :: nat)"]
  show ?thesis
    by (intro conjI; rule runs_mono [OF stalls [THEN conjunct1]] runs_mono [OF stalls [THEN conjunct2]]; simp only: calls)
      simp_all
qed

text \<open>
  C2: A command and its reply, whole: \<open>sendrecv\<close> appends the command to the output buffer, and
  once it is flushed and the lines of the reply have arrived, in whatever pieces, the client has
  been called for exactly those lines, nothing is left unread, and the callbacks for the reply
  stay installed.
\<close>

theorem command_and_reply:
  assumes "session L content client log_of arrive flush unique"
    and "callbacks c h p r w e s" and "content (world s) (bufferevent_get_input L p) = ''''"
    and "list_all wf_line ls" and "concat xs = wire ls" and "length (wire ls) < fuel"
  shows "runs (sendrecv L c command cb) s
    (\<lambda>_ t. content (world t) (bufferevent_get_output L p) =
         content (world s) (bufferevent_get_output L p) @ command \<and>
       runs (handle_events L arrive flush unique client fuel h (Writable # map Readable xs)) t
         (\<lambda>_ u. log_of (ocst.more u) = log_of (ocst.more s) @
              snd (lines_spec cb (cells cb s) (map line_args_of ls)) \<and>
            content (world u) (bufferevent_get_input L p) = '''' \<and>
            callbacks c h p (Some (RecvRead c cb)) None (Some (RecvEvent cb)) u))"
  by (rule session.runs_conversation [OF assms])

theorem command_and_reply_witness:
  "runs (sendrecv sim_libevent 0 ''GETINFO version'' (UserLine (7 :: nat))) (demo_state None None None)
    (\<lambda>_ t. runs (handle_events sim_libevent sim_arrive sim_flush ctrl_unique log_client 40 0
         (Writable # map Readable [''250-versi'', ''on=0.2'' @ crlf @ ''250 OK'' @ crlf])) t
       (\<lambda>_ u. ocst.more u = [(7, LineReply OK (CHR ''-'') ''version=0.2''),
          (7, LineReply OK (CHR '' '') ''OK'')]))"
proof -
  have "list_all wf_line [(250, CHR ''-'', ''version=0.2''), (250, CHR '' '', ''OK'')]"
    and "concat [''250-versi'', ''on=0.2'' @ crlf @ ''250 OK'' @ crlf] =
      wire [(250, CHR ''-'', ''version=0.2''), (250, CHR '' '', ''OK'')]"
    and "length (wire [(250, CHR ''-'', ''version=0.2''), (250, CHR '' '', ''OK'')]) < 40"
    by code_simp+
  note reply = command_and_reply [OF sim_session.session_axioms demo_state_simps(1) _ this,
      where cb = "UserLine 7" and command = "''GETINFO version''"]
  show ?thesis
    by (rule runs_mono [OF reply], simp, elim conjE runs_mono)
      (simp add: line_args_of_def reply_status_def)
qed

text \<open>
  C7: \<open>getinfo_status_bootstrap_phase_as_int\<close> sends its command and, when tor answers with the
  phase \<open>n\<close> and \<open>250 OK\<close>, calls back exactly once, with \<open>OK\<close> and \<open>n\<close>.
\<close>

theorem getinfo_bootstrap_phase:
  assumes "session L content client log_of arrive flush unique"
    and "callbacks c h p r w e s" and "content (world s) (bufferevent_get_input L p) = ''''"
    and "n < 1000" and "tail = '''' \<or> isspace (hd tail)"
    and "CHR 0x0A \<notin> set tail" and "CHR 0x0D \<notin> set tail"
    and "concat xs = wire [(250, CHR ''-'', ''status/bootstrap-phase='' @
        ''NOTICE BOOTSTRAP PROGRESS='' @ show_nat n @ tail), (250, CHR '' '', ''OK'')]"
    and "length (concat xs) < fuel"
  shows "runs (getinfo_status_bootstrap_phase_as_int L c k) s
    (\<lambda>_ t. content (world t) (bufferevent_get_output L p) =
         content (world s) (bufferevent_get_output L p) @ ''GETINFO status/bootstrap-phase'' @ crlf \<and>
       runs (handle_events L arrive flush unique client fuel h (Writable # map Readable xs)) t
         (\<lambda>_ u. log_of (ocst.more u) = log_of (ocst.more s) @ [(k, IntReply OK (int n))]))"
proof -
  define b where "b = ''NOTICE BOOTSTRAP PROGRESS='' @ show_nat n @ tail"
  let ?ls = "[(250, CHR ''-'', ''status/bootstrap-phase='' @ b), (250, CHR '' '', ''OK'')]"
  have phase: "bootstrap_tokens (words b) 0 = (OK, int n)"
    unfolding b_def by (rule bootstrap_text [OF assms(4,5)])
  have "CHR 0x0A \<notin> set b" "CHR 0x0D \<notin> set b"
    using show_nat_digits [of n] assms(6,7) by (auto simp: b_def isdigit_def uchar_def)
  then have wf: "list_all wf_line ?ls" by (auto simp: wf_line_def list_all_iff)
  have calls: "snd (lines_spec (GetinfoBootstrap (BootstrapInt k) r) ('''', OK)
      (map line_args_of ?ls)) = [(k, IntReply OK (int n))]" for r
    by (simp add: line_args_of_def reply_status_def bootstrap_reply_def phase)
  have ls: "concat xs = wire ?ls" using assms(8) by (simp only: b_def)
  note conv = session.runs_getinfo [OF assms(1-3) wf ls assms(9) [unfolded ls],
      where cb = "BootstrapInt k", unfolded calls]
  show ?thesis
    unfolding getinfo_status_bootstrap_phase_as_int_def by (rule runs_then_mono [OF conv]) simp
qed

theorem getinfo_bootstrap_phase_witness:
  "runs (getinfo_status_bootstrap_phase_as_int sim_libevent 0 (7 :: nat)) (demo_state None None None)
    (\<lambda>_ t. runs (handle_events sim_libevent sim_arrive sim_flush ctrl_unique log_client 90 0
         (Writable # map Readable [wire [(250, CHR ''-'', ''status/bootstrap-phase='' @
            ''NOTICE BOOTSTRAP PROGRESS='' @ show_nat 85 @ '' TAG=x''), (250, CHR '' '', ''OK'')]])) t
       (\<lambda>_ u. ocst.more u = [(7, IntReply OK 85)]))"
proof -
  have "isspace (hd '' TAG=x'')" "CHR 0x0A \<notin> set '' TAG=x''" "CHR 0x0D \<notin> set '' TAG=x''"
    and "length (concat [wire [(250, CHR ''-'', ''status/bootstrap-phase='' @
        ''NOTICE BOOTSTRAP PROGRESS='' @ show_nat 85 @ '' TAG=x''), (250, CHR '' '', ''OK'')]]) < 90"
    by code_simp+
  note reply = getinfo_bootstrap_phase [OF sim_session.session_axioms demo_state_simps(1) _ _
      disjI2 [OF this(1)] this(2,3) _ this(4), where k = 7 and n = 85]
  show ?thesis
    by (rule runs_mono [OF reply], simp, simp, simp, elim conjE runs_mono) simp
qed

text \<open>
  \<open>getconf_socks_port\<close>: a port tor reports is handed to the callback as it is, and when the
  variable has no value the callback gets the default, 9050; once, in both cases.
\<close>

theorem getconf_socks_port_reply:
  assumes "session L content client log_of arrive flush unique"
    and "callbacks c h p r w e s" and "content (world s) (bufferevent_get_input L p) = ''''"
    and "concat xs = wire [(250, CHR '' '',
      case port of None \<Rightarrow> ''SocksPort'' | Some n \<Rightarrow> ''SocksPort='' @ show_nat n)]"
    and "\<forall>n. port = Some n \<longrightarrow> n < 100000"
    and "length (concat xs) < fuel"
  shows "runs (getconf_socks_port L c k) s
    (\<lambda>_ t. content (world t) (bufferevent_get_output L p) =
         content (world s) (bufferevent_get_output L p) @ ''GETCONF SOCKSPort'' @ crlf \<and>
       runs (handle_events L arrive flush unique client fuel h (Writable # map Readable xs)) t
         (\<lambda>_ u. log_of (ocst.more u) = log_of (ocst.more s) @
            [(k, IntReply OK (case port of None \<Rightarrow> 9050 | Some n \<Rightarrow> int n))]))"
proof -
  define b where "b = (case port of None \<Rightarrow> ''SocksPort'' | Some n \<Rightarrow> ''SocksPort='' @ show_nat n)"
  let ?ls = "[(250, CHR '' '', b)]"
  have "CHR 0x0A \<notin> set b" "CHR 0x0D \<notin> set b"
    using show_nat_digits by (force simp: b_def isdigit_def uchar_def split: option.splits)+
  then have wf: "list_all wf_line ?ls" by (auto simp: wf_line_def list_all_iff)
  have "getconf_result OK (CHR '' '') b ''SocksPort'' 9050 =
      (OK, case port of None \<Rightarrow> 9050 | Some n \<Rightarrow> int n)"
  proof (cases port)
    case None
    then show ?thesis by (simp add: b_def getconf_result_def)
  next
    case (Some n)
    then show ?thesis
      using getconf_result_value [of n "''SocksPort''" "CHR ''=''"] assms(5) by (simp add: b_def)
  qed
  then have calls: "snd (lines_spec (GetconfInt ''SocksPort'' 9050 k) y (map line_args_of ?ls)) =
      [(k, IntReply OK (case port of None \<Rightarrow> 9050 | Some n \<Rightarrow> int n))]" for y
    by (simp add: line_args_of_def reply_status_def)
  have ls: "concat xs = wire ?ls" using assms(4) by (simp only: b_def)
  note conv = session.runs_conversation [OF assms(1-3) wf ls assms(6) [unfolded ls],
      where cb = "GetconfInt ''SocksPort'' 9050 k", unfolded calls]
  show ?thesis
    unfolding getconf_socks_port_def by (rule runs_then_mono [OF conv]) simp
qed

theorem getconf_socks_port_reply_witness:
  "runs (getconf_socks_port sim_libevent 0 (7 :: nat)) (demo_state None None None)
    (\<lambda>_ t. runs (handle_events sim_libevent sim_arrive sim_flush ctrl_unique log_client 90 0
         (Writable # map Readable [''250 Socks'', ''Port=9050'' @ crlf])) t
       (\<lambda>_ u. ocst.more u = [(7, IntReply OK 9050)]))"
proof -
  have "digit_char 9 = CHR ''9''" "digit_char 0 = CHR ''0''" "digit_char 5 = CHR ''5''"
    "digit_char 2 = CHR ''2''"
    by code_simp+
  then have "concat [''250 Socks'', ''Port=9050'' @ crlf] = wire [(250, CHR '' '',
      case Some (9050 :: nat) of None \<Rightarrow> ''SocksPort'' | Some n \<Rightarrow> ''SocksPort='' @ show_nat n)]"
    by (simp add: wire_def reply_line_def setw_def show_nat_def show_base.simps)
  note reply = getconf_socks_port_reply [OF sim_session.session_axioms demo_state_simps(1) _ this,
      where k = 7 and fuel = 90]
  show ?thesis
    by (rule runs_mono [OF reply], simp, simp, simp, elim conjE runs_mono) simp
qed

text \<open>
  \<open>setevents_client_status\<close>: the \<open>250 OK\<close> that acknowledges the command makes no call; every
  asynchronous notification after it makes one, in order, with the severity, the action and the
  arguments of the notification.
\<close>

theorem setevents_notifications:
  assumes "session L content client log_of arrive flush unique"
    and "callbacks c h p r w e s" and "content (world s) (bufferevent_get_input L p) = ''''"
    and "\<forall>body \<in> set bodies. CHR 0x0A \<notin> set body \<and> CHR 0x0D \<notin> set body"
    and "concat xs = wire ((250, CHR '' '', ''OK'') # map (\<lambda>body. (650, CHR '' '', body)) bodies)"
    and "length (concat xs) < fuel"
  shows "runs (setevents_client_status L c k) s
    (\<lambda>_ t. content (world t) (bufferevent_get_output L p) =
         content (world s) (bufferevent_get_output L p) @ ''SETEVENTS STATUS_CLIENT'' @ crlf \<and>
       runs (handle_events L arrive flush unique client fuel h (Writable # map Readable xs)) t
         (\<lambda>_ u. log_of (ocst.more u) = log_of (ocst.more s) @
            map (\<lambda>body. (k, client_status_reply ASYNC body)) bodies))"
proof -
  let ?ls = "(250, CHR '' '', ''OK'') # map (\<lambda>body. (650, CHR '' '', body)) bodies"
  from assms(4) have wf: "list_all wf_line ?ls" by (auto simp: wf_line_def list_all_iff)
  have args: "map line_args_of ?ls = (OK, CHR '' '', ''OK'') # map (\<lambda>b. (ASYNC, CHR '' '', b)) bodies"
    by (simp add: line_args_of_def reply_status_def comp_def)
  have calls: "snd (lines_spec (SetEvents (ClientStatus k) r) ('''', OK) (map line_args_of ?ls)) =
      map (\<lambda>body. (k, client_status_reply ASYNC body)) bodies" for r
    unfolding args by (simp add: async_lines comp_def)
  note conv = session.runs_setevents [OF assms(1-3) wf assms(5) assms(6) [unfolded assms(5)],
      where cb = "ClientStatus k", unfolded calls]
  show ?thesis
    unfolding setevents_client_status_def by (rule runs_then_mono [OF conv]) simp
qed

theorem setevents_notifications_witness:
  "runs (setevents_client_status sim_libevent 0 (7 :: nat)) (demo_state None None None)
    (\<lambda>_ t. runs (handle_events sim_libevent sim_arrive sim_flush ctrl_unique log_client 90 0
         (Writable # map Readable [''250 OK'' @ crlf @ ''650 STATUS_CLIENT NOTICE CIRCUIT_ESTABLISHED'' @ crlf])) t
       (\<lambda>_ u. ocst.more u = [(7, ClientStatusReply ASYNC ''NOTICE'' ''CIRCUIT_ESTABLISHED'' [])]))"
proof -
  let ?body = "''STATUS_CLIENT NOTICE CIRCUIT_ESTABLISHED''"
  have "\<forall>body \<in> set [?body]. CHR 0x0A \<notin> set body \<and> CHR 0x0D \<notin> set body"
    and "concat [''250 OK'' @ crlf @ ''650 '' @ ?body @ crlf] =
      wire ((250, CHR '' '', ''OK'') # map (\<lambda>body. (650, CHR '' '', body)) [?body])"
    and "length (concat [''250 OK'' @ crlf @ ''650 '' @ ?body @ crlf]) < 90"
    by code_simp+
  note reply = setevents_notifications [OF sim_session.session_axioms demo_state_simps(1) _
      this, where k = 7]
  have calls: "client_status_reply ASYNC ?body =
      ClientStatusReply ASYNC ''NOTICE'' ''CIRCUIT_ESTABLISHED'' []"
    by code_simp
  show ?thesis
    by (rule runs_mono [OF reply], simp, elim conjE runs_mono) (simp add: calls)
qed

text \<open>
  \<open>setconf_disable_network\<close> sends the assignment and reports the status of the one reply line
  tor sends: \<open>OK\<close> for a final \<open>250\<close> line, \<open>UNEXPECTED_REPLY\<close> for a \<open>250\<close> line that is not final,
  the status of the code otherwise.
\<close>

theorem setconf_disable_network_reply:
  assumes "session L content client log_of arrive flush unique"
    and "callbacks c h p r w e s" and "content (world s) (bufferevent_get_input L p) = ''''"
    and "wf_line (code, type, body)" and "concat xs = wire [(code, type, body)]"
    and "length (concat xs) < fuel"
  shows "runs (setconf_disable_network L c v k) s
    (\<lambda>_ t. content (world t) (bufferevent_get_output L p) =
         content (world s) (bufferevent_get_output L p) @
         ''SETCONF DisableNetwork='' @ (if v then ''1'' else ''0'') @ crlf \<and>
       runs (handle_events L arrive flush unique client fuel h (Writable # map Readable xs)) t
         (\<lambda>_ u. log_of (ocst.more u) = log_of (ocst.more s) @
            [(k, VoidReply (if code = 250 then if type = CHR '' '' then OK else UNEXPECTED_REPLY
                else if code = 552 then UNRECOGNIZED_ENTITY
                else if code = 650 then ASYNC else UNKNOWN_STATUS_ERROR))]))"
proof -
  have wf: "list_all wf_line [(code, type, body)]" using assms(4) by simp
  note conv = session.runs_conversation [OF assms(1-3) wf assms(5) assms(6) [unfolded assms(5)],
      where cb = "DoVoid k"]
  show ?thesis
    unfolding setconf_disable_network_def cmd_disable_network_def
    by (rule runs_then_mono [OF conv])
      (auto simp: line_args_of_def reply_status_def void_status_def)
qed

theorem setconf_disable_network_reply_witness:
  "runs (setconf_disable_network sim_libevent 0 True (7 :: nat)) (demo_state None None None)
    (\<lambda>_ t. runs (handle_events sim_libevent sim_arrive sim_flush ctrl_unique log_client 90 0
         (Writable # map Readable [''552 Unrecog'', ''nized option'' @ crlf])) t
       (\<lambda>_ u. ocst.more u = [(7, VoidReply UNRECOGNIZED_ENTITY)]))"
proof -
  have "wf_line (552, CHR '' '', ''Unrecognized option'')"
    and "concat [''552 Unrecog'', ''nized option'' @ crlf] =
      wire [(552, CHR '' '', ''Unrecognized option'')]"
    by code_simp+
  note reply = setconf_disable_network_reply [OF sim_session.session_axioms demo_state_simps(1) _
      this, where k = 7 and fuel = 90 and v = True]
  show ?thesis
    by (rule runs_mono [OF reply], simp, simp, elim conjE runs_mono) simp
qed

section \<open>Connecting\<close>

text \<open>
  \<open>connect_and_authenticate\<close> on a controller that has no connection: once the connection is
  up, the authentication command has gone out and the reply has arrived, the client has been
  called once for each line of the reply, with \<open>OK\<close> only for a final \<open>250\<close> line.
\<close>

theorem authenticate_reply:
  assumes "session L content client log_of arrive flush unique"
    and "ctrls s c = Some x" and "ctrl_bev x = None"
    and "drained (concat xs)" and "length (concat xs) < fuel"
  shows "runs (followed_by (connect_and_authenticate_sa L client c sa len k token timeout)
      (handle_events L arrive flush unique client fuel (next_bev s)
        (Event (BEV_EVENT_CONNECTED L) # Writable # map Readable xs))) s
    (\<lambda>_ t. log_of (ocst.more t) = log_of (ocst.more s) @
       map (\<lambda>(st, ty, _). (k, VoidReply (void_status st ty))) (fst (reply_stream (concat xs))))"
  by (rule session.runs_authenticate [OF assms])

theorem authenticate_reply_witness:
  "runs (followed_by (connect_and_authenticate_sa sim_libevent log_client 0 ''sockaddr'' 8 (7 :: nat) ''00ff'' None)
      (handle_events sim_libevent sim_arrive sim_flush ctrl_unique log_client 40 1
        (Event (BEV_EVENT_CONNECTED sim_libevent) # Writable # map Readable [''250 OK'' @ crlf]))) demo_new
    (\<lambda>_ t. ocst.more t = [(7, VoidReply OK)])"
proof -
  have "drained (concat [''250 OK'' @ crlf])" and "length (concat [''250 OK'' @ crlf]) < 40"
    and rs: "reply_stream (concat [''250 OK'' @ crlf]) = ([(OK, CHR '' '', ''OK'')], '''')"
    by code_simp+
  note reply = authenticate_reply [OF sim_session.session_axioms demo_state_simps(6) _ this(1,2),
      where k = 7 and sa = "''sockaddr''" and len = 8 and token = "''00ff''" and timeout = None,
      unfolded demo_state_simps(8) rs]
  show ?thesis
    by (rule runs_mono [OF reply]) (simp_all add: void_status_def)
qed

text \<open>
  The command the authentication sends is the last thing in the output buffer when the
  connection comes up, and until its reply arrives the client has not been called.
\<close>

theorem authenticate_command:
  assumes "session L content client log_of arrive flush unique"
    and "callbacks c h p None None (Some (ConnectEvent c (ConnAuth token c k))) s"
  shows "runs (handle_event L arrive flush unique client fuel h (Event (BEV_EVENT_CONNECTED L))) s
    (\<lambda>_ t. content (world t) (bufferevent_get_output L p) =
         content (world s) (bufferevent_get_output L p) @ ''AUTHENTICATE'' @
         (if token = '''' then '''' else '' '' @ token) @ crlf \<and>
       log_of (ocst.more t) = log_of (ocst.more s))"
  by (rule runs_mono [OF ctrl_session.runs_connected [OF session.axioms(2) [OF assms(1)] assms(2)]])
    (auto simp: cmd_authenticate_def silent_def)

theorem authenticate_command_witness:
  "runs (handle_event sim_libevent sim_arrive sim_flush ctrl_unique log_client 40 0
      (Event (BEV_EVENT_CONNECTED sim_libevent)))
      (demo_state None None (Some (ConnectEvent 0 (ConnAuth ''00ff'' 0 (7 :: nat)))))
    (\<lambda>_ t. sim_content (world t) 4 = ''AUTHENTICATE 00ff'' @ crlf \<and> ocst.more t = [])"
  by (rule runs_mono [OF authenticate_command [OF sim_session.session_axioms demo_state_simps(1)]])
    (simp add: sim_libevent_def)

text \<open>
  When the connection attempt ends with any other event, the client is called once with
  \<open>CONNECT_FAILED\<close>, nothing is sent, and the callbacks are cleared: whatever libevent signals
  afterwards makes no call.
\<close>

theorem connect_failure:
  assumes "session L content client log_of arrive flush unique"
    and "callbacks c h p None None (Some (ConnectEvent c (ConnAuth token c k))) s"
    and "what \<noteq> BEV_EVENT_CONNECTED L"
  shows "runs (handle_event L arrive flush unique client fuel h (Event what)) s
    (\<lambda>_ t. content (world t) = content (world s) \<and>
       runs (handle_events L arrive flush unique client fuel h es) t
         (\<lambda>_ u. log_of (ocst.more u) = log_of (ocst.more s) @ [(k, VoidReply CONNECT_FAILED)]))"
  by (rule runs_mono [OF session.runs_connect_failed [OF assms]], elim conjE, intro conjI, assumption,
      rule runs_mono [OF ctrl_session.runs_closed_all [OF session.axioms(2) [OF assms(1)]]], assumption)
    (simp add: silent_def)

theorem connect_failure_witness:
  "runs (handle_event sim_libevent sim_arrive sim_flush ctrl_unique log_client 40 0 (Event 32))
      (demo_state None None (Some (ConnectEvent 0 (ConnAuth ''00ff'' 0 (7 :: nat)))))
    (\<lambda>_ t. runs (handle_events sim_libevent sim_arrive sim_flush ctrl_unique log_client 40 0
         [Event 64, Readable ''250 OK'']) t
       (\<lambda>_ u. ocst.more u = [(7, VoidReply CONNECT_FAILED)]))"
proof -
  have "(32 :: u16) \<noteq> BEV_EVENT_CONNECTED sim_libevent" by (simp add: sim_libevent_def)
  note failure = connect_failure [OF sim_session.session_axioms demo_state_simps(1) this,
      where es = "[Event 64, Readable ''250 OK'']"]
  show ?thesis
    by (rule runs_mono [OF failure], elim conjE runs_mono) simp
qed

text \<open>
  The two ways \<open>connect_and_authenticate\<close> ends without a connection attempt, for every
  client: on an endpoint that does not parse it calls back with \<open>CANNOT_PARSE_ADDRPORT\<close>, on a
  controller that already has a bufferevent with \<open>ALREADY_CONNECTED\<close>; it does nothing else, in
  particular it neither replaces the existing connection nor its callbacks.
\<close>

theorem connect_refused:
  fixes client :: "('k, 'w, 'z) oc_client"
  shows "(fst (evutil_parse_sockaddr_port L (c_str (address @ '':'' @ show_int port)) 128) \<noteq> 0 \<longrightarrow>
      connect_and_authenticate L client c k token port address timeout =
      client k (VoidReply CANNOT_PARSE_ADDRPORT)) \<and>
    (\<forall>s x h. ctrls s c = Some x \<longrightarrow> ctrl_bev x = Some h \<longrightarrow>
      connect_and_authenticate_sa L client c sa len k token timeout s =
      client k (VoidReply ALREADY_CONNECTED) s)"
  by (auto simp: connect_and_authenticate_def connect_and_authenticate_epnt_def
      parse_sockaddr_port_def sizeof_sockaddr_storage_def error_neq_int_def declared_error_defs
      connect_and_authenticate_sa_def connect_def ctrl_get_def run_void_clo_def prog_simps
      split: prod.splits)

theorem connect_refused_witness:
  "connect_and_authenticate (sim_libevent\<lparr>evutil_parse_sockaddr_port := \<lambda>_ n. (- 1, '''', n)\<rparr>)
      log_client 0 (7 :: nat) '''' 9051 ''nowhere'' None =
    (log_client 7 (VoidReply CANNOT_PARSE_ADDRPORT) :: (nat, simw, nat call list, unit) oc_prog) \<and>
   connect_and_authenticate_sa sim_libevent log_client 0 ''sa'' 2 (7 :: nat) '''' None
      (demo_state None None None) =
    log_client 7 (VoidReply ALREADY_CONNECTED) (demo_state None None None)"
proof
  show "connect_and_authenticate (sim_libevent\<lparr>evutil_parse_sockaddr_port := \<lambda>_ n. (- 1, '''', n)\<rparr>)
      log_client 0 (7 :: nat) '''' 9051 ''nowhere'' None =
    (log_client 7 (VoidReply CANNOT_PARSE_ADDRPORT) :: (nat, simw, nat call list, unit) oc_prog)"
    by (rule connect_refused [THEN conjunct1, rule_format]) simp
  show "connect_and_authenticate_sa sim_libevent log_client 0 ''sa'' 2 (7 :: nat) '''' None
      (demo_state None None None) =
    log_client 7 (VoidReply ALREADY_CONNECTED) (demo_state None None None)"
    by (rule connect_refused [THEN conjunct2, rule_format,
          where x = "\<lparr>ctrl_evbase = demo_base, ctrl_bev = Some 0\<rparr>" and h = 0])
      (simp_all add: demo_state_def)
qed

section \<open>Errors and the end of a connection\<close>

text \<open>
  The status an event mask stands for: a timeout is reported before an error, an error before
  the end of the stream; and the mask of none of the three is a generic error, whatever bits
  tell the direction.
\<close>

theorem event_status_priority:
  assumes "distinct_bits (bev_event_flags L)"
    and "dir \<in> {0, BEV_EVENT_READING L, BEV_EVENT_WRITING L, BEV_EVENT_CONNECTED L}"
  shows "event_mask_to_status L (dir OR (if t then BEV_EVENT_TIMEOUT L else 0) OR
      (if e then BEV_EVENT_ERROR L else 0) OR (if f then BEV_EVENT_EOF L else 0)) =
    (if t then TIMEOUT_ERROR else if e then IO_ERROR else if f then EOF_ERROR else GENERIC_ERROR)"
proof -
  let ?a = "[BEV_EVENT_READING L, BEV_EVENT_WRITING L, BEV_EVENT_EOF L, BEV_EVENT_ERROR L,
      BEV_EVENT_TIMEOUT L, BEV_EVENT_CONNECTED L]"
  from assms(1) obtain a b c d i j where n: "?a = map (\<lambda>n. 2 ^ n) [a, b, c, d, i, j]"
    "distinct [a, b, c, d, i, j]" "\<forall>n \<in> set [a, b, c, d, i, j]. n < 16"
    unfolding distinct_bits_def bev_event_flags_def by (auto simp: Cons_eq_map_conv)
  have ors: "(x OR y) AND z = (x AND z) OR (y AND z)" for x y z :: u16
    by (rule bit_eqI) (auto simp: bit_simps)
  show ?thesis
    using n assms(2)
    by (auto simp: event_mask_to_status_def ors pow2_and_pow2 pow2_nonzero)
qed

theorem event_status_priority_witness:
  "event_mask_to_status sim_libevent (BEV_EVENT_READING sim_libevent OR 64 OR 32 OR 0) = TIMEOUT_ERROR"
  using event_status_priority [OF sim_flags_distinct, of "BEV_EVENT_READING sim_libevent" True True False]
  by (simp add: sim_libevent_def)

text \<open>The status a call carries.\<close>

fun status_of :: "reply \<Rightarrow> onion_status option" where
  "status_of (VoidReply st) = Some st"
| "status_of (IntReply st _) = Some st"
| "status_of (StringReply st _) = Some st"
| "status_of (ClientStatusReply st _ _ _) = Some st"
| "status_of (LineReply st _ _) = Some st"
| "status_of (SentReply st) = Some st"
| "status_of FuncReply = None"
| "status_of (TimerReply _) = None"

lemma string_call_error:
  "st \<notin> {OK, ASYNC} \<Longrightarrow> \<exists>k r. string_call f st '''' = (k, r) \<and> status_of r = Some st"
  by (cases f) (auto simp: bootstrap_reply_def client_status_reply_def)

text \<open>
  C24: An event that ends a connection while a command is pending, whether the command has been
  sent or not, ends in exactly one call of the client.  The call carries the status of the
  event, for every command but \<open>SETEVENTS\<close>, which reports \<open>UNEXPECTED_STATUS\<close>.
\<close>

theorem pending_command_error:
  assumes "session L content client log_of arrive flush unique"
    and "callbacks c h p None (Some (SentWrite (SendRecv c cb))) (Some (SentEvent (SendRecv c cb))) s \<or>
      callbacks c h p (Some (RecvRead c cb)) None (Some (RecvEvent cb)) s"
    and "snd (cells cb s) \<in> {OK, ASYNC}"
  shows "runs (handle_event L arrive flush unique client fuel h (Event what)) s
    (\<lambda>_ t. \<exists>k r. log_of (ocst.more t) = log_of (ocst.more s) @ [(k, r)] \<and>
       status_of r = Some (case cb of SetEvents _ _ \<Rightarrow> UNEXPECTED_STATUS
          | _ \<Rightarrow> event_mask_to_status L what))"
proof -
  let ?st = "event_mask_to_status L what"
  have st: "?st \<in> {TIMEOUT_ERROR, IO_ERROR, EOF_ERROR, GENERIC_ERROR}"
    by (simp add: event_mask_to_status_def)
  have one: "\<exists>k r. line_spec cb (cells cb s) (?st, CHR 0x00, '''') = (cells cb s, [(k, r)]) \<and>
      status_of r = Some (case cb of SetEvents _ _ \<Rightarrow> UNEXPECTED_STATUS | _ \<Rightarrow> ?st)"
    using st assms(3) string_call_error [of ?st] string_call_error [of UNEXPECTED_STATUS]
    by (cases "cells cb s"; cases cb) (auto simp: void_status_def getconf_result_def)
  show ?thesis
    using assms(2)
  proof
    assume "callbacks c h p None (Some (SentWrite (SendRecv c cb))) (Some (SentEvent (SendRecv c cb))) s"
    from session.runs_event_sending [OF assms(1) this] show ?thesis
      by (rule runs_mono) (use one in auto)
  next
    assume "callbacks c h p (Some (RecvRead c cb)) None (Some (RecvEvent cb)) s"
    from session.runs_event_receiving [OF assms(1) this] show ?thesis
      by (rule runs_mono) (use one in auto)
  qed
qed

theorem pending_command_error_witness:
  "runs (handle_event sim_libevent sim_arrive sim_flush ctrl_unique log_client 40 0 (Event 17))
      (demo_state (Some (RecvRead 0 (DoVoid (7 :: nat)))) None (Some (RecvEvent (DoVoid 7))))
    (\<lambda>_ t. \<exists>k r. ocst.more t = [(k, r)] \<and> status_of r = Some EOF_ERROR)"
proof -
  have "event_mask_to_status sim_libevent 17 = EOF_ERROR"
    by (simp add: event_mask_to_status_def sim_libevent_def)
  with pending_command_error [OF sim_session.session_axioms disjI2 [OF demo_state_simps(1)],
      where cb = "DoVoid 7" and what = 17 and fuel = 40]
  show ?thesis by simp
qed

text \<open>
  \<open>close\<close> on a connected controller clears the three callbacks: it makes no call, and no event
  that libevent signals on the bufferevent afterwards makes one.
\<close>

theorem close_silences:
  assumes "session L content client log_of arrive flush unique" and "callbacks c h p r w e s"
  shows "runs (close c) s
    (\<lambda>_ t. callbacks c h p None None None t \<and>
       runs (handle_events L arrive flush unique client fuel h es) t
         (\<lambda>_ u. log_of (ocst.more u) = log_of (ocst.more s) \<and> callbacks c h p None None None u))"
  by (rule runs_mono [OF ctrl_session.runs_close [OF session.axioms(2) [OF assms(1)] assms(2)]], elim conjE, intro conjI, assumption,
      rule runs_mono [OF ctrl_session.runs_closed_all [OF session.axioms(2) [OF assms(1)]]], assumption)
    (simp add: silent_def)

theorem close_silences_witness:
  "runs (close 0) (demo_state (Some (RecvRead 0 (DoVoid (7 :: nat)))) None (Some (RecvEvent (DoVoid 7))))
    (\<lambda>_ t. runs (handle_events sim_libevent sim_arrive sim_flush ctrl_unique log_client 40 0
         [Readable (''250 OK'' @ crlf), Event 64]) t
       (\<lambda>_ u. ocst.more u = []))"
  by (rule runs_mono [OF close_silences [OF sim_session.session_axioms demo_state_simps(1),
        where es = "[Readable (''250 OK'' @ crlf), Event 64]" and fuel = 40]], elim conjE runs_mono)
    simp

text \<open>
  The functions of the class that use the connection throw when there is none: on a
  controller that was never connected \<open>close\<close>, \<open>send\<close> and \<open>recv\<close> all end in the exception of
  the null \<open>Var\<close>, and nothing is changed.
\<close>

theorem unconnected_throws:
  assumes "ctrls s c = Some x" and "ctrl_bev x = None"
  shows "close c s = (Throw (RuntimeError ''null pointer''), s) \<and>
    sendrecv L c command cb s = (Throw (RuntimeError ''null pointer''), s) \<and>
    recv L c cb s = (Throw (RuntimeError ''null pointer''), s)"
  using assms
  by (simp add: close_def sendrecv_def send_def recv_def bev_of_def ctrl_get_def prog_simps)

theorem unconnected_throws_witness:
  "recv sim_libevent 0 (UserLine (0 :: nat)) (demo_new :: (nat, simw, nat call list) ocst_scheme) =
     (Throw (RuntimeError ''null pointer''), demo_new)"
  by (rule unconnected_throws [OF demo_state_simps(6), THEN conjunct2, THEN conjunct2]) simp

text \<open>
  C31: A callback stays installed after its reply is complete: a line that arrives later, here an
  asynchronous notification after the \<open>250 OK\<close> of a \<open>SETCONF\<close>, calls the client a second time.
\<close>

theorem late_line_calls_again:
  assumes "session L content client log_of arrive flush unique"
    and "callbacks c h p r w e s" and "content (world s) (bufferevent_get_input L p) = ''''"
    and "wf_line (650, type, body)" and "concat xs = wire [(250, CHR '' '', ''OK''), (650, type, body)]"
    and "length (concat xs) < fuel"
  shows "runs (setconf_disable_network L c v k) s
    (\<lambda>_ t. runs (handle_events L arrive flush unique client fuel h (Writable # map Readable xs)) t
       (\<lambda>_ u. log_of (ocst.more u) =
          log_of (ocst.more s) @ [(k, VoidReply OK), (k, VoidReply ASYNC)]))"
proof -
  have wf: "list_all wf_line [(250, CHR '' '', ''OK''), (650, type, body)]"
    using assms(4) by (simp add: wf_line_def)
  note conv = session.runs_conversation [OF assms(1-3) wf assms(5) assms(6) [unfolded assms(5)],
      where cb = "DoVoid k"]
  show ?thesis
    unfolding setconf_disable_network_def
    by (rule runs_mono [OF conv], elim conjE runs_mono)
      (simp add: line_args_of_def reply_status_def void_status_def)
qed

theorem late_line_calls_again_witness:
  "runs (setconf_disable_network sim_libevent 0 True (7 :: nat)) (demo_state None None None)
    (\<lambda>_ t. runs (handle_events sim_libevent sim_arrive sim_flush ctrl_unique log_client 90 0
         (Writable # map Readable [''250 OK'' @ crlf, ''650 X'' @ crlf])) t
       (\<lambda>_ u. ocst.more u = [(7, VoidReply OK), (7, VoidReply ASYNC)]))"
proof -
  have "wf_line (650, CHR '' '', ''X'')"
    and "concat [''250 OK'' @ crlf, ''650 X'' @ crlf] =
      wire [(250, CHR '' '', ''OK''), (650, CHR '' '', ''X'')]"
    by code_simp+
  note late = late_line_calls_again [OF sim_session.session_axioms demo_state_simps(1) _ this,
      where k = 7 and fuel = 90 and v = True]
  show ?thesis
    by (rule runs_mono [OF late], simp, simp, elim runs_mono) simp
qed

section \<open>The receive loop and arbitrary clients\<close>

text \<open>
  C23: For client code of any kind, the loop of \<open>recv\<close> runs the line callback exactly for the
  lines \<open>reply_stream\<close> finds in the buffer, in order, and leaves the rest of the bytes; it needs
  no more iterations than there are bytes.  What the client code must keep is the contract
  \<open>line_handler\<close>: it returns, and leaves the connection and the unread bytes alone.
\<close>

theorem recv_loop_total:
  assumes "line_handler L content client cb c h p I"
    and "I seen s" and "attached c h p s"
    and "length (content (world s) (bufferevent_get_input L p)) < fuel"
  shows "runs (recv_loop L client fuel c cb) s
    (\<lambda>_ t. I (seen @ fst (reply_stream (content (world s) (bufferevent_get_input L p)))) t \<and>
       attached c h p t \<and> content (world t) (bufferevent_get_input L p) =
         snd (reply_stream (content (world s) (bufferevent_get_input L p))))"
  by (rule line_handler.recv_loop_stream [OF assms])

theorem recv_loop_total_witness:
  "runs (recv_loop sim_libevent log_client 9 0 (UserLine (7 :: nat)))
     ((demo_state None None None)\<lparr>world := sim_arrive 1 (''250 OK'' @ crlf) sim_empty\<rparr>)
     (\<lambda>_ t. ocst.more t = [(7, LineReply OK (CHR '' '') ''OK'')])"
proof -
  let ?s = "(demo_state None None None)\<lparr>world := sim_arrive 1 (''250 OK'' @ crlf) sim_empty\<rparr>
    :: (nat, simw, nat call list) ocst_scheme"
  have buf: "sim_content (world ?s) (bufferevent_get_input sim_libevent 1) = ''250 OK'' @ crlf"
    by (simp add: sim_arrive_def) (simp add: sim_empty_def sim_content_def sim_chain_def)
  have rs: "reply_stream (''250 OK'' @ crlf) = ([(OK, CHR '' '', ''OK'')], '''')" by code_simp
  note loop = recv_loop_total [OF recorder.handler.line_handler_axioms,
      where s = ?s and cb = "UserLine 7" and seen = "[]" and fuel = 9 and h = 0 and p = 1,
      unfolded buf rs]
  show ?thesis
    by (rule runs_mono [OF loop])
      (auto simp: same_handles_def demo_state_simps(2) [unfolded One_nat_def])
qed

end
