(* ===== verification/Socks.thy ===== *)
theory Socks
  imports Events
begin

text \<open>
  \<open>src/net/socks.hpp\<close>: the class \<open>Socks\<close>, which opens a connection through a SOCKSv5 proxy.  The
  closures of the handshake are the constructors of \<open>socks_clo\<close>, with the variables the lambda
  expressions capture; the callback of the client is a value of a type \<open>'k\<close>, and
  \<open>client k status bev\<close> is what calling it does.

  A program that uses other classes too has closures of a type \<open>'c\<close> of its own, and \<open>clo\<close> is the
  way those of this class are made closures of the program; it is the identity in a program that has
  no others.
\<close>

section \<open>State\<close>

datatype socks_status =
    OK
  | CONNECT_FAILED
  | UNEXPECTED_VERSION
  | PROTO_ERROR
  | ADDRESS_TOO_LONG
  | INVALID_ATYPE
  | IO_ERROR_STEP_2
  | IO_ERROR_STEP_4
  | INVALID_PROXY_ADDRESS
  | INVALID_PORT

fun socks_status_value :: "socks_status \<Rightarrow> int" where
  "socks_status_value OK = 0"
| "socks_status_value CONNECT_FAILED = 1"
| "socks_status_value UNEXPECTED_VERSION = 2"
| "socks_status_value PROTO_ERROR = 3"
| "socks_status_value ADDRESS_TOO_LONG = 4"
| "socks_status_value INVALID_ATYPE = 5"
| "socks_status_value IO_ERROR_STEP_2 = 6"
| "socks_status_value IO_ERROR_STEP_4 = 7"
| "socks_status_value INVALID_PROXY_ADDRESS = 8"
| "socks_status_value INVALID_PORT = 9"

datatype 'k socks_clo =
    ConnectEvent nat 'k string u16
  | Step2Read nat 'k string u16
  | Step2Event nat 'k
  | Step4Read nat 'k
  | Step4Event nat 'k

type_synonym ('k, 'c, 'w, 'z) socks_client = "'k \<Rightarrow> socks_status \<Rightarrow> nat option \<Rightarrow> ('c, 'w, 'z, unit) ev_prog"

section \<open>The handshake\<close>

text \<open>Clearing the callbacks, then reporting: what every ending of the handshake does.\<close>

definition finish ::
  "('k, 'c, 'w, 'z) socks_client \<Rightarrow> nat \<Rightarrow> 'k \<Rightarrow> socks_status \<Rightarrow> nat option \<Rightarrow>
   ('c, 'w, 'z, unit) ev_prog" where
  "finish client bev cb status r = followed_by (setcb None None None bev) (client cb status r)"

definition connected ::
  "'w libevent \<Rightarrow> ('k socks_clo \<Rightarrow> 'c) \<Rightarrow> ('k, 'c, 'w, 'z) socks_client \<Rightarrow> nat \<Rightarrow> 'k \<Rightarrow> string \<Rightarrow> u16 \<Rightarrow> u16 \<Rightarrow>
   ('c, 'w, 'z, unit) ev_prog" where
  "connected L clo client bev cb host port what =
     (if what \<noteq> BEV_EVENT_CONNECTED L then finish client bev cb CONNECT_FAILED None
      else followed_by (enable L (EV_READ L) bev)
        (andthen (get_output L bev)
          (\<lambda>out. followed_by (Evbuffer_add_uint8 L 5 out)
            (followed_by (Evbuffer_add_uint8 L 1 out)
            (followed_by (Evbuffer_add_uint8 L 0 out)
              (setcb (Some (clo (Step2Read bev cb host port))) None (Some (clo (Step2Event bev cb))) bev))))))"

text \<open>What the closure does with the two bytes it has read: steps 2 and 3 of the handshake.\<close>

definition step_3 ::
  "'w libevent \<Rightarrow> ('k socks_clo \<Rightarrow> 'c) \<Rightarrow> ('k, 'c, 'w, 'z) socks_client \<Rightarrow> nat \<Rightarrow> 'k \<Rightarrow> string \<Rightarrow> u16 \<Rightarrow> string \<Rightarrow>
   ('c, 'w, 'z, unit) ev_prog" where
  "step_3 L clo client bev cb host port s =
     (if schar (s ! 0) \<noteq> 5 then finish client bev cb UNEXPECTED_VERSION None
      else if schar (s ! 1) \<noteq> 0 then finish client bev cb PROTO_ERROR None
      else andthen (get_output L bev)
        (\<lambda>out. followed_by (Evbuffer_add_uint8 L 5 out)
          (followed_by (Evbuffer_add_uint8 L 1 out)
          (followed_by (Evbuffer_add_uint8 L 0 out)
          (followed_by (Evbuffer_add_uint8 L 3 out)
            (if 255 < length host then finish client bev cb ADDRESS_TOO_LONG None
             else followed_by (Evbuffer_add_uint8 L (word_of_nat (length host)) out)
               (followed_by (Evbuffer_add L host out)
               (followed_by (Evbuffer_add_uint16 L port out)
                 (setcb (Some (clo (Step4Read bev cb))) None (Some (clo (Step4Event bev cb))) bev)))))))))"

definition step_2_read ::
  "'w libevent \<Rightarrow> ('k socks_clo \<Rightarrow> 'c) \<Rightarrow> ('k, 'c, 'w, 'z) socks_client \<Rightarrow> nat \<Rightarrow> 'k \<Rightarrow> string \<Rightarrow> u16 \<Rightarrow> ('c, 'w, 'z, unit) ev_prog"
where
  "step_2_read L clo client bev cb host port =
     andthen (get_input L bev)
       (\<lambda>inp. andthen (Evbuffer_get_length L inp)
         (\<lambda>n. if n < 2 then ret ()
            else andthen (Evbuffer_remove L 2 inp) (step_3 L clo client bev cb host port)))"

text \<open>
  The length of the reply, from its address type and the byte after it.  \<open>total\<close> is a 64-bit
  \<open>size_t\<close>, and \<open>1 + s[4]\<close> is an \<open>int\<close> made from a signed character.
\<close>

definition reply_size :: "char \<Rightarrow> char \<Rightarrow> u64 option" where
  "reply_size atype len =
     (if schar atype = 1 then Some (4 + 4 + 2)
      else if schar atype = 3 then Some (4 + word_of_int (1 + schar len) + 2)
      else if schar atype = 4 then Some (4 + 16 + 2)
      else None)"

text \<open>What the closure does with a copy of the first five bytes: step 4, and step 5 if all is there.\<close>

definition step_5 ::
  "'w libevent \<Rightarrow> ('k, 'c, 'w, 'z) socks_client \<Rightarrow> nat \<Rightarrow> 'k \<Rightarrow> evbuf \<Rightarrow> string \<Rightarrow> ('c, 'w, 'z, unit) ev_prog"
where
  "step_5 L client bev cb inp s =
     (if schar (s ! 0) \<noteq> 5 \<or> schar (s ! 1) \<noteq> 0 \<or> schar (s ! 2) \<noteq> 0
      then finish client bev cb PROTO_ERROR None
      else case reply_size (s ! 3) (s ! 4) of
          None \<Rightarrow> finish client bev cb INVALID_ATYPE None
        | Some needed \<Rightarrow> andthen (Evbuffer_get_length L inp)
            (\<lambda>n. if n < unat needed then ret ()
               else followed_by (Evbuffer_drain L (unat needed) inp)
                 (finish client bev cb OK (Some bev))))"

definition step_4_read ::
  "'w libevent \<Rightarrow> ('k, 'c, 'w, 'z) socks_client \<Rightarrow> nat \<Rightarrow> 'k \<Rightarrow> ('c, 'w, 'z, unit) ev_prog" where
  "step_4_read L client bev cb =
     andthen (get_input L bev)
       (\<lambda>inp. andthen (Evbuffer_get_length L inp)
         (\<lambda>n. if n < 5 then ret ()
            else andthen (Evbuffer_copyout L 5 inp) (step_5 L client bev cb inp)))"

definition run_socks_clo ::
  "'w libevent \<Rightarrow> ('k socks_clo \<Rightarrow> 'c) \<Rightarrow> ('k, 'c, 'w, 'z) socks_client \<Rightarrow> 'k socks_clo \<Rightarrow> ('c, 'w, 'z, unit) ev_prog" where
  "run_socks_clo L clo client c = (case c of
      Step2Read bev cb host port \<Rightarrow> step_2_read L clo client bev cb host port
    | Step4Read bev cb \<Rightarrow> step_4_read L client bev cb
    | _ \<Rightarrow> raise (UndefinedBehaviour ''not a void() closure''))"

definition run_socks_event ::
  "'w libevent \<Rightarrow> ('k socks_clo \<Rightarrow> 'c) \<Rightarrow> ('k, 'c, 'w, 'z) socks_client \<Rightarrow> 'k socks_clo \<Rightarrow> u16 \<Rightarrow> ('c, 'w, 'z, unit) ev_prog"
where
  "run_socks_event L clo client c what = (case c of
      ConnectEvent bev cb host port \<Rightarrow> connected L clo client bev cb host port what
    | Step2Event bev cb \<Rightarrow> finish client bev cb IO_ERROR_STEP_2 None
    | Step4Event bev cb \<Rightarrow> finish client bev cb IO_ERROR_STEP_4 None
    | _ \<Rightarrow> raise (UndefinedBehaviour ''not a void(short) closure''))"

section \<open>The overloads of connect\<close>

text \<open>By sockaddr of the proxy, by endpoint, with the port as a string, with address and port.\<close>

definition connect_sa ::
  "'w libevent \<Rightarrow> ('k socks_clo \<Rightarrow> 'c) \<Rightarrow> evbase \<Rightarrow> string \<Rightarrow> u16 \<Rightarrow> string \<Rightarrow> int \<Rightarrow> 'k \<Rightarrow> timeval option \<Rightarrow>
   ('c, 'w, 'z, unit) ev_prog" where
  "connect_sa L clo evbase host port proxy_sa proxy_salen cb timeout =
     andthen (socket_new L evbase (- 1) (BEV_OPT_CLOSE_ON_FREE L))
       (\<lambda>bev. followed_by (setcb None None (Some (clo (ConnectEvent bev cb host port))) bev)
         (followed_by (set_timeouts L timeout timeout bev)
           (socket_connect L proxy_sa proxy_salen bev)))"

definition connect_endpoint ::
  "'w libevent \<Rightarrow> ('k socks_clo \<Rightarrow> 'c) \<Rightarrow> ('k, 'c, 'w, 'z) socks_client \<Rightarrow> evbase \<Rightarrow> string \<Rightarrow> u16 \<Rightarrow> 'k \<Rightarrow> string \<Rightarrow>
   timeval option \<Rightarrow> ('c, 'w, 'z, unit) ev_prog" where
  "connect_endpoint L clo client evbase host port cb proxy_endpoint timeout =
     (case parse_sockaddr_port L proxy_endpoint 128 of (err, sa, len) \<Rightarrow>
        if error_neq_int err 0 then client cb INVALID_PROXY_ADDRESS None
        else connect_sa L clo evbase host port sa len cb timeout)"

definition connect_port ::
  "'w libevent \<Rightarrow> ('k socks_clo \<Rightarrow> 'c) \<Rightarrow> ('k, 'c, 'w, 'z) socks_client \<Rightarrow> evbase \<Rightarrow> string \<Rightarrow> string \<Rightarrow> 'k \<Rightarrow> string \<Rightarrow>
   timeval option \<Rightarrow> ('c, 'w, 'z, unit) ev_prog" where
  "connect_port L clo client evbase host port cb proxy_endpoint timeout =
     (if 5 < length port then client cb INVALID_PORT None
      else if list_ex (\<lambda>c. \<not> isdigit c) port then client cb INVALID_PORT None
      else connect_endpoint L clo client evbase host (word_of_int (atoi (c_str port))) cb
        proxy_endpoint timeout)"

definition connect ::
  "'w libevent \<Rightarrow> ('k socks_clo \<Rightarrow> 'c) \<Rightarrow> ('k, 'c, 'w, 'z) socks_client \<Rightarrow> evbase \<Rightarrow> string \<Rightarrow> string \<Rightarrow> 'k \<Rightarrow> string \<Rightarrow> string \<Rightarrow>
   timeval option \<Rightarrow> ('c, 'w, 'z, unit) ev_prog" where
  "connect L clo client evbase host port cb proxy_address proxy_port timeout =
     connect_port L clo client evbase host port cb (proxy_address @ '':'' @ proxy_port) timeout"

end
