(* ===== verification/Socks_Session.thy ===== *)
theory Socks_Session
  imports Socks
begin

text \<open>
  The SOCKS handshake as an automaton on bytes, and the proof that the closures of \<open>Socks\<close>
  implement it: every event moves the bufferevent from the callbacks of one phase to the callbacks
  of the next, consumes and sends the bytes the automaton says, and calls the client when and
  only when the automaton finishes.
\<close>

section \<open>The automaton\<close>

datatype phase = Connecting | Step_2 | Step_4 | Finished socks_status

definition greeting :: string where
  "greeting = [CHR 0x05, CHR 0x01, CHR 0x00]"

definition request :: "string \<Rightarrow> u16 \<Rightarrow> string" where
  "request host port =
     [CHR 0x05, CHR 0x01, CHR 0x00, CHR 0x03, char_of (length host)] @ host @
     [char_of (unat port div 256), char_of (unat port mod 256)]"

text \<open>The next phase, what stays in the input buffer, and what is sent.\<close>

definition read_2 :: "string \<Rightarrow> u16 \<Rightarrow> string \<Rightarrow> phase \<times> string \<times> string" where
  "read_2 host port buf =
     (if length buf < 2 then (Step_2, buf, '''')
      else if buf ! 0 \<noteq> CHR 0x05 then (Finished UNEXPECTED_VERSION, drop 2 buf, '''')
      else if buf ! 1 \<noteq> CHR 0x00 then (Finished PROTO_ERROR, drop 2 buf, '''')
      else if 255 < length host
      then (Finished ADDRESS_TOO_LONG, drop 2 buf, [CHR 0x05, CHR 0x01, CHR 0x00, CHR 0x03])
      else (Step_4, drop 2 buf, request host port))"

definition read_4 :: "string \<Rightarrow> phase \<times> string" where
  "read_4 buf =
     (if length buf < 5 then (Step_4, buf)
      else if take 3 buf \<noteq> [CHR 0x05, CHR 0x00, CHR 0x00] then (Finished PROTO_ERROR, buf)
      else case reply_size (buf ! 3) (buf ! 4) of
          None \<Rightarrow> (Finished INVALID_ATYPE, buf)
        | Some n \<Rightarrow> if length buf < unat n then (Step_4, buf) else (Finished OK, drop (unat n) buf))"

record hs =
  hs_phase :: phase
  hs_in :: string
  hs_out :: string

text \<open>\<open>up what\<close> says whether \<open>what\<close> is the event of an established connection.\<close>

fun hs_step :: "(u16 \<Rightarrow> bool) \<Rightarrow> string \<Rightarrow> u16 \<Rightarrow> event \<Rightarrow> hs \<Rightarrow> hs" where
  "hs_step up host port (Readable x) a = (case hs_phase a of
      Step_2 \<Rightarrow> (case read_2 host port (hs_in a @ x) of (ph, i, out) \<Rightarrow>
        \<lparr>hs_phase = ph, hs_in = i, hs_out = hs_out a @ out\<rparr>)
    | Step_4 \<Rightarrow> (case read_4 (hs_in a @ x) of (ph, i) \<Rightarrow>
        \<lparr>hs_phase = ph, hs_in = i, hs_out = hs_out a\<rparr>)
    | _ \<Rightarrow> a\<lparr>hs_in := hs_in a @ x\<rparr>)"
| "hs_step up host port Writable a = a\<lparr>hs_out := ''''\<rparr>"
| "hs_step up host port (Event what) a = (case hs_phase a of
      Connecting \<Rightarrow>
        if up what then a\<lparr>hs_phase := Step_2, hs_out := hs_out a @ greeting\<rparr>
        else a\<lparr>hs_phase := Finished CONNECT_FAILED\<rparr>
    | Step_2 \<Rightarrow> a\<lparr>hs_phase := Finished IO_ERROR_STEP_2\<rparr>
    | Step_4 \<Rightarrow> a\<lparr>hs_phase := Finished IO_ERROR_STEP_4\<rparr>
    | Finished _ \<Rightarrow> a)"

fun hs_run :: "(u16 \<Rightarrow> bool) \<Rightarrow> string \<Rightarrow> u16 \<Rightarrow> event list \<Rightarrow> hs \<Rightarrow> hs" where
  "hs_run up host port [] a = a"
| "hs_run up host port (e # es) a = hs_run up host port es (hs_step up host port e a)"

lemma hs_run_append:
  "hs_run up host port (es @ fs) a = hs_run up host port fs (hs_run up host port es a)"
  by (induction es arbitrary: a) simp_all

text \<open>Once finished, always finished, with the same status.\<close>

lemma hs_step_finished: "hs_phase a = Finished st \<Longrightarrow> hs_phase (hs_step up host port e a) = Finished st"
  by (cases e) simp_all

lemma hs_run_finished: "hs_phase a = Finished st \<Longrightarrow> hs_phase (hs_run up host port es a) = Finished st"
  by (induction es arbitrary: a) (simp_all add: hs_step_finished)

text \<open>The calls of the client: one, when the automaton finishes.\<close>

definition hs_calls :: "'k \<Rightarrow> nat \<Rightarrow> phase \<Rightarrow> phase \<Rightarrow> ('k \<times> socks_status \<times> nat option) list" where
  "hs_calls k h before after = (case (before, after) of
      (Finished _, _) \<Rightarrow> []
    | (_, Finished st) \<Rightarrow> [(k, st, if st = OK then Some h else None)]
    | _ \<Rightarrow> [])"

lemma hs_calls_trans:
  "hs_calls k h ph (hs_phase (hs_step up host port e a)) @
     hs_calls k h (hs_phase (hs_step up host port e a)) ph' = hs_calls k h ph ph'"
  if "ph = hs_phase a" "ph' = hs_phase (hs_run up host port es (hs_step up host port e a))"
  using that hs_run_finished [of "hs_step up host port e a"] hs_step_finished [of a]
  by (auto simp: hs_calls_def split: phase.splits)

section \<open>The closures implement it\<close>

text \<open>The callbacks of a phase.\<close>

fun phase_cbs ::
  "('k socks_clo \<Rightarrow> 'c) \<Rightarrow> nat \<Rightarrow> 'k \<Rightarrow> string \<Rightarrow> u16 \<Rightarrow> phase \<Rightarrow> 'c option \<times> 'c option" where
  "phase_cbs clo h k host port Connecting = (None, Some (clo (ConnectEvent h k host port)))"
| "phase_cbs clo h k host port Step_2 = (Some (clo (Step2Read h k host port)), Some (clo (Step2Event h k)))"
| "phase_cbs clo h k host port Step_4 = (Some (clo (Step4Read h k)), Some (clo (Step4Event h k)))"
| "phase_cbs clo h k host port (Finished st) = (None, None)"

definition in_phase ::
  "('k socks_clo \<Rightarrow> 'c) \<Rightarrow> nat \<Rightarrow> cptr \<Rightarrow> 'k \<Rightarrow> string \<Rightarrow> u16 \<Rightarrow> phase \<Rightarrow> ('c, 'w, 'z) evst_scheme \<Rightarrow> bool" where
  "in_phase clo h p k host port ph s \<longleftrightarrow> p \<noteq> nullptr \<and>
     (\<exists>b. bevs s h = Some b \<and> varp b \<and> bevp b = p \<and> write_cb b = None \<and>
        (read_cb b, event_cb b) = phase_cbs clo h k host port ph)"

lemma in_phase_frame [simp]:
  "in_phase clo h p k host port ph (s\<lparr>world := w\<rparr>) = in_phase clo h p k host port ph s"
  "in_phase clo h p k host port ph (s\<lparr>onces := os\<rparr>) = in_phase clo h p k host port ph s"
  "in_phase clo h p k host port ph (s\<lparr>next_once := n\<rparr>) = in_phase clo h p k host port ph s"
  by (simp_all add: in_phase_def)

text \<open>What the handshake of \<open>h\<close> leaves alone.\<close>

definition kept :: "nat \<Rightarrow> ('c, 'w, 'z) evst_scheme \<Rightarrow> ('c, 'w, 'z) evst_scheme \<Rightarrow> bool" where
  "kept h s t \<longleftrightarrow> evst.more t = evst.more s \<and> onces t = onces s \<and> next_once t = next_once s \<and>
     next_bev t = next_bev s \<and> (\<forall>g. g \<noteq> h \<longrightarrow> bevs t g = bevs s g)"

lemma kept_refl: "kept h s s"
  by (simp add: kept_def)

lemma kept_world [simp]: "kept h (s\<lparr>world := w\<rparr>) t = kept h s t"
  by (simp add: kept_def)

context evbuffer_api
begin

lemma runs_add_uint8:
  assumes "\<And>w'. content w' = (content (world s))
      (buf_ptr b := content (world s) (buf_ptr b) @ [char_of (unat num)]) \<Longrightarrow> P () (s\<lparr>world := w'\<rparr>)"
  shows "runs (Evbuffer_add_uint8 L num b) s P"
  unfolding Evbuffer_add_uint8_def by (rule runs_add) (rule assms)

lemma runs_add_uint16:
  assumes "\<And>w'. content w' = (content (world s)) (buf_ptr b := content (world s) (buf_ptr b) @
      [char_of (unat num div 256), char_of (unat num mod 256)]) \<Longrightarrow> P () (s\<lparr>world := w'\<rparr>)"
  shows "runs (Evbuffer_add_uint16 L num b) s P"
  unfolding Evbuffer_add_uint16_def bytes16_htons by (rule runs_add) (rule assms)

end

text \<open>
  Any client, in any program that runs the closures of the handshake.  The lemmas follow the closures up
  to the call of the client; what that call does is their hypothesis.
\<close>

locale socks_calls = dispatching L content arrive flush run run_event unique
  for L :: "'w libevent" and content :: "'w \<Rightarrow> cptr \<Rightarrow> string"
    and arrive :: "cptr \<Rightarrow> string \<Rightarrow> 'w \<Rightarrow> 'w" and flush :: "cptr \<Rightarrow> 'w \<Rightarrow> 'w"
    and run :: "'c \<Rightarrow> ('c, 'w, 'z, unit) ev_prog" and run_event :: "'c \<Rightarrow> u16 \<Rightarrow> ('c, 'w, 'z, unit) ev_prog"
    and unique :: "nat \<Rightarrow> ('c, 'w, 'z) evst_scheme \<Rightarrow> bool" +
  fixes clo :: "'k socks_clo \<Rightarrow> 'c" and client :: "('k, 'c, 'w, 'z) socks_client"
  assumes run_clo: "run (clo c) = run_socks_clo L clo client c"
    and run_event_clo: "run_event (clo c) = run_socks_event L clo client c"
begin

abbreviation up :: "u16 \<Rightarrow> bool" where
  "up what \<equiv> what = BEV_EVENT_CONNECTED L"

text \<open>What the automaton sees of a state.\<close>

definition matches ::
  "nat \<Rightarrow> cptr \<Rightarrow> 'k \<Rightarrow> string \<Rightarrow> u16 \<Rightarrow> hs \<Rightarrow> ('c, 'w, 'z) evst_scheme \<Rightarrow> bool" where
  "matches h p k host port a s \<longleftrightarrow>
     in_phase clo h p k host port (hs_phase a) s \<and> inbuf p s = hs_in a \<and> outbuf p s = hs_out a"

lemma matchesE:
  assumes "matches h p k host port a s"
  obtains b where "bevs s h = Some b" and "varp b" and "bevp b = p" and "p \<noteq> nullptr"
    and "write_cb b = None" and "(read_cb b, event_cb b) = phase_cbs clo h k host port (hs_phase a)"
    and "inbuf p s = hs_in a" and "outbuf p s = hs_out a"
  using assms by (auto simp: matches_def in_phase_def)

text \<open>
  What a step has to lead to: the state is that of the automaton, and \<open>Q\<close> holds, after the call of the
  client if the automaton makes one.
\<close>

definition reports :: "'k \<Rightarrow> nat \<Rightarrow> phase \<Rightarrow> phase \<Rightarrow> (('c, 'w, 'z) evst_scheme \<Rightarrow> bool) \<Rightarrow>
   ('c, 'w, 'z) evst_scheme \<Rightarrow> bool" where
  "reports k h before after Q t \<longleftrightarrow> (case hs_calls k h before after of
      [] \<Rightarrow> Q t
    | (k', st, r) # _ \<Rightarrow> runs (client k' st r) t (\<lambda>_. Q))"

definition goes ::
  "nat \<Rightarrow> cptr \<Rightarrow> 'k \<Rightarrow> string \<Rightarrow> u16 \<Rightarrow> phase \<Rightarrow> hs \<Rightarrow> ('c, 'w, 'z) evst_scheme \<Rightarrow>
   (('c, 'w, 'z) evst_scheme \<Rightarrow> bool) \<Rightarrow> bool" where
  "goes h p k host port before a s Q \<longleftrightarrow>
     (\<forall>t. matches h p k host port a t \<longrightarrow> kept h s t \<longrightarrow> reports k h before (hs_phase a) Q t)"

lemma goes_world [simp]: "goes h p k host port before a (s\<lparr>world := w\<rparr>) Q = goes h p k host port before a s Q"
  by (simp add: goes_def)

lemma goes_quiet:
  assumes "goes h p k host port before a s Q" and "hs_calls k h before (hs_phase a) = []"
    and "matches h p k host port a t" and "kept h s t"
  shows "Q t"
  using assms by (simp add: goes_def reports_def)

lemma runs_finish:
  assumes "goes h p k host port before a s Q" and "hs_phase a = Finished st" and "\<forall>st'. before \<noteq> Finished st'"
    and "bevs s h = Some b" "varp b" "bevp b = p" "p \<noteq> nullptr" "inbuf p s = hs_in a" "outbuf p s = hs_out a"
    and "r = (if st = OK then Some h else None)"
  shows "runs (finish client h k st r) s (\<lambda>_. Q)"
proof -
  let ?t = "s\<lparr>bevs := (bevs s)(h \<mapsto> b\<lparr>event_cb := None, read_cb := None, write_cb := None\<rparr>)\<rparr>"
  have "matches h p k host port a ?t" "kept h s ?t"
    using assms(2,4-9) by (simp_all add: matches_def in_phase_def kept_def)
  with assms(1) have "reports k h before (Finished st) Q ?t" using assms(2) by (auto simp: goes_def)
  then show ?thesis
    using assms(3,4,10)
    by (cases before) (simp_all add: finish_def runs_andthen runs_setcb reports_def hs_calls_def)
qed

end

context socks_calls
begin

lemma schar_eq_iff: "schar c = 5 \<longleftrightarrow> c = CHR 0x05" "schar c = 0 \<longleftrightarrow> c = CHR 0x00"
proof -
  have codes: "uchar (CHR 0x05) = 5" "uchar (CHR 0x00) = 0" by (simp_all add: uchar_def)
  have "schar c = 5 \<longleftrightarrow> uchar c = uchar (CHR 0x05)" "schar c = 0 \<longleftrightarrow> uchar c = uchar (CHR 0x00)"
    unfolding codes using uchar_less_256 [of c] by (auto simp: schar_def)
  then show "schar c = 5 \<longleftrightarrow> c = CHR 0x05" "schar c = 0 \<longleftrightarrow> c = CHR 0x00"
    by (simp_all add: uchar_inject)
qed

lemma char_codes:
  "char_of (5 :: nat) = CHR 0x05" "char_of (Suc 0) = CHR 0x01" "char_of (0 :: nat) = CHR 0x00"
  "char_of (3 :: nat) = CHR 0x03"
  by code_simp+

lemma runs_finish_goes:
  assumes "matches h p k host port b s" and "hs_phase b = before" and "\<forall>st'. before \<noteq> Finished st'"
    and "r = (if st = OK then Some h else None)"
    and "goes h p k host port before (b\<lparr>hs_phase := Finished st\<rparr>) s Q"
  shows "runs (finish client h k st r) s (\<lambda>_. Q)"
proof -
  obtain v where v: "bevs s h = Some v" "varp v" "bevp v = p" "p \<noteq> nullptr"
    "inbuf p s = hs_in b" "outbuf p s = hs_out b"
    using assms(1) by (rule matchesE)
  show ?thesis
    by (rule runs_finish [OF assms(5) _ assms(3) v(1-4)]) (use v assms(4) in simp_all)
qed

lemma runs_connected:
  assumes "matches h p k host port a s" and "hs_phase a = Connecting"
    and "goes h p k host port Connecting (hs_step up host port (Event what) a) s Q"
  shows "runs (connected L clo client h k host port what) s (\<lambda>_. Q)"
proof -
  obtain b where b: "bevs s h = Some b" "varp b" "bevp b = p" "p \<noteq> nullptr" "write_cb b = None"
    "inbuf p s = hs_in a" "outbuf p s = hs_out a"
    using assms(1) by (rule matchesE)
  show ?thesis
  proof (cases "up what")
    case False
    with runs_finish_goes [OF assms(1,2), where st = CONNECT_FAILED and r = None] assms(2,3) show ?thesis
      by (simp add: connected_def)
  next
    case True
    note quiet = goes_quiet [OF assms(3)]
    show ?thesis
      using input_not_output [OF b(4) b(4)] b(6,7) assms(2) True
      apply (simp add: connected_def runs_andthen)
      apply (rule runs_enable [OF b(1)])
      apply (rule runs_get_output, simp add: b, simp add: b, simp add: b(3))
      apply (rule runs_add_uint8, simp)
      apply (rule runs_add_uint8, simp)
      apply (rule runs_add_uint8, simp)
      apply (simp add: runs_setcb b(1), rule quiet)
      apply (simp_all add: kept_def matches_def in_phase_def b hs_calls_def greeting_def char_codes)
      done
  qed
qed

lemma runs_step_3:
  assumes "matches h p k host port (b\<lparr>hs_in := rest\<rparr>) s" and "hs_phase b = Step_2"
    and "goes h p k host port Step_2 (case read_2 host port (x0 # x1 # rest) of (ph, i, out) \<Rightarrow>
       \<lparr>hs_phase = ph, hs_in = i, hs_out = hs_out b @ out\<rparr>) s Q"
  shows "runs (step_3 L clo client h k host port [x0, x1]) s (\<lambda>_. Q)"
proof -
  obtain v where v: "bevs s h = Some v" "varp v" "bevp v = p" "p \<noteq> nullptr" "write_cb v = None"
    "inbuf p s = rest" "outbuf p s = hs_out b"
    using assms(1) by (rule matchesE) simp
  have phase: "hs_phase (b\<lparr>hs_in := rest\<rparr>) = Step_2" using assms(2) by simp
  note fin = runs_finish_goes [OF assms(1) phase]
  consider "x0 \<noteq> CHR 0x05" | "x0 = CHR 0x05" "x1 \<noteq> CHR 0x00" | "x0 = CHR 0x05" "x1 = CHR 0x00" by blast
  then show ?thesis
  proof cases
    case 1
    with assms(3) show ?thesis
      by (simp add: step_3_def schar_eq_iff, intro fin) (simp_all add: read_2_def, cases b, simp)
  next
    case 2
    with assms(3) show ?thesis
      by (simp add: step_3_def schar_eq_iff, intro fin) (simp_all add: read_2_def, cases b, simp)
  next
    case 3
    show ?thesis
    proof (cases "255 < length host")
      case True
      with 3 assms(3) have go: "goes h p k host port Step_2 \<lparr>hs_phase = Finished ADDRESS_TOO_LONG, hs_in = rest,
          hs_out = hs_out b @ [CHR 0x05, CHR 0x01, CHR 0x00, CHR 0x03]\<rparr> (s\<lparr>world := w\<rparr>) Q" for w
        by (simp add: read_2_def)
      show ?thesis
        using input_not_output [OF v(4) v(4)] v(6,7) 3 True
        apply (simp add: step_3_def runs_andthen schar_eq_iff)
        apply (rule runs_get_output, simp add: v, simp add: v, simp add: v(3))
        apply (rule runs_add_uint8, simp)
        apply (rule runs_add_uint8, simp)
        apply (rule runs_add_uint8, simp)
        apply (rule runs_add_uint8)
        apply (simp, rule runs_finish [OF go, where b = v])
        apply (simp_all add: v char_codes)
        done
    next
      case False
      with 3 assms(3) have "goes h p k host port Step_2 \<lparr>hs_phase = Step_4, hs_in = rest,
          hs_out = hs_out b @ request host port\<rparr> s Q"
        by (simp add: read_2_def)
      note quiet = goes_quiet [OF this]
      show ?thesis
        using input_not_output [OF v(4) v(4)] v(6,7) 3 False
        apply (simp add: step_3_def runs_andthen schar_eq_iff)
        apply (rule runs_get_output, simp add: v, simp add: v, simp add: v(3))
        apply (rule runs_add_uint8, simp)
        apply (rule runs_add_uint8, simp)
        apply (rule runs_add_uint8, simp)
        apply (rule runs_add_uint8, simp)
        apply (rule runs_add_uint8, simp)
        apply (rule runs_add, simp)
        apply (rule runs_add_uint16, simp)
        apply (simp add: runs_setcb v(1), rule quiet)
        apply (simp_all add: kept_def in_phase_def v request_def unat_of_nat matches_def hs_calls_def char_codes)
        done
    qed
  qed
qed

lemma runs_step_2_read:
  assumes "matches h p k host port (a\<lparr>hs_in := hs_in a @ x\<rparr>) s" and "hs_phase a = Step_2"
    and "goes h p k host port Step_2 (hs_step up host port (Readable x) a) s Q"
  shows "runs (step_2_read L clo client h k host port) s (\<lambda>_. Q)"
proof -
  obtain b where b: "bevs s h = Some b" "varp b" "bevp b = p" "p \<noteq> nullptr" "write_cb b = None"
    "inbuf p s = hs_in a @ x" "outbuf p s = hs_out a"
    using assms(1) by (rule matchesE) simp
  show ?thesis
  proof (cases "length (hs_in a @ x) < 2")
    case True
    have "Q s"
      by (rule goes_quiet [OF assms(3)])
        (use True assms(1,2) in \<open>simp_all add: read_2_def hs_calls_def kept_refl matches_def\<close>)
    with True b show ?thesis
      by (auto simp: step_2_read_def runs_andthen runs_ret intro!: runs_get_input runs_get_length)
  next
    case False
    then obtain x0 x1 rest where buf: "hs_in a @ x = x0 # x1 # rest"
      by (cases "hs_in a @ x"; cases "tl (hs_in a @ x)") auto
    have m: "matches h p k host port (a\<lparr>hs_in := rest\<rparr>) (s\<lparr>world := w\<rparr>)"
      if "content w = (content (world s))(bufferevent_get_input L p := rest)" for w
      using assms(1) input_not_output [OF b(4) b(4)] that by (simp add: matches_def)
    have go: "goes h p k host port Step_2 (case read_2 host port (x0 # x1 # rest) of (ph, i, out) \<Rightarrow>
        \<lparr>hs_phase = ph, hs_in = i, hs_out = hs_out a @ out\<rparr>) (s\<lparr>world := w\<rparr>) Q" for w
      using assms(2,3) buf by simp
    show ?thesis
      apply (simp add: step_2_read_def runs_andthen)
      apply (rule runs_get_input, simp add: b, simp add: b)
      apply (rule runs_get_length)
      apply (simp add: b(3,6) buf runs_andthen)
      apply (rule runs_remove)
      apply (simp add: b(3,6) buf)
      apply (rule runs_step_3 [OF m assms(2) go], simp)
      done
  qed
qed

lemma runs_step_4_read:
  assumes "matches h p k host port (a\<lparr>hs_in := hs_in a @ x\<rparr>) s" and "hs_phase a = Step_4"
    and "goes h p k host port Step_4 (hs_step up host port (Readable x) a) s Q"
  shows "runs (step_4_read L client h k) s (\<lambda>_. Q)"
proof -
  define buf where "buf = hs_in a @ x"
  define inp where "inp = \<lparr>buf_ptr = bufferevent_get_input L p, buf_owned = False\<rparr>"
  have m: "matches h p k host port (a\<lparr>hs_in := buf\<rparr>) s" using assms(1) by (simp add: buf_def)
  obtain b where b: "bevs s h = Some b" "varp b" "bevp b = p" "p \<noteq> nullptr"
    "inbuf p s = buf" "outbuf p s = hs_out a"
    using m by (rule matchesE) simp
  have step: "hs_step up host port (Readable x) a =
      \<lparr>hs_phase = fst (read_4 buf), hs_in = snd (read_4 buf), hs_out = hs_out a\<rparr>"
    using assms(2) by (simp add: buf_def case_prod_beta)
  note go = assms(3) [unfolded step]
  have stay: "Q s" if "read_4 buf = (Step_4, buf)"
    by (rule goes_quiet [OF go])
      (use m that assms(2) in \<open>simp_all add: kept_refl hs_calls_def matches_def\<close>)
  have fin: "runs (finish client h k st None) s (\<lambda>_. Q)" if "read_4 buf = (Finished st, buf)" "st \<noteq> OK" for st
    by (rule runs_finish [OF go _ _ b(1-4)]) (use that b in simp_all)
  show ?thesis
  proof (cases "length buf < 5")
    case True
    then have "Q s" by (intro stay) (simp add: read_4_def)
    with True b show ?thesis
      by (auto simp: step_4_read_def runs_andthen runs_ret intro!: runs_get_input runs_get_length)
  next
    case False
    then obtain x0 x1 x2 x3 x4 rest where buf: "buf = x0 # x1 # x2 # x3 # x4 # rest"
      by (cases buf; cases "tl buf"; cases "tl (tl buf)"; cases "tl (tl (tl buf))";
          cases "tl (tl (tl (tl buf)))") auto
    have read: "runs (step_4_read L client h k) s P"
      if "runs (step_5 L client h k inp [x0, x1, x2, x3, x4]) s P" for P
      apply (simp add: step_4_read_def runs_andthen)
      apply (rule runs_get_input, simp add: b, simp add: b)
      apply (rule runs_get_length)
      apply (simp add: b(3,5) False runs_andthen)
      apply (rule runs_copyout)
      using that
      apply (simp add: b(5) buf inp_def eval_nat_numeral)
      done
    have r4: "read_4 buf = (if x0 \<noteq> CHR 0x05 \<or> x1 \<noteq> CHR 0x00 \<or> x2 \<noteq> CHR 0x00
        then (Finished PROTO_ERROR, buf) else case reply_size x3 x4 of
            None \<Rightarrow> (Finished INVALID_ATYPE, buf)
          | Some n \<Rightarrow> if length buf < unat n then (Step_4, buf)
              else (Finished OK, drop (unat n) buf))"
      unfolding buf by (simp add: read_4_def eval_nat_numeral)
    have ok: "runs (finish client h k OK (Some h)) (s\<lparr>world := w\<rparr>) (\<lambda>_. Q)"
      if "read_4 buf = (Finished OK, drop n buf)"
        "content w = (content (world s))(bufferevent_get_input L p := drop n buf)" for w n
      by (rule runs_finish [where b = b and p = p and host = host and port = port and before = Step_4
            and a = "\<lparr>hs_phase = Finished OK, hs_in = drop n buf, hs_out = hs_out a\<rparr>"])
        (use go that b input_not_output [OF b(4) b(4)] in simp_all)
    have "runs (step_5 L client h k inp [x0, x1, x2, x3, x4]) s (\<lambda>_. Q)"
    proof (cases "x0 \<noteq> CHR 0x05 \<or> x1 \<noteq> CHR 0x00 \<or> x2 \<noteq> CHR 0x00")
      case True
      then show ?thesis by (simp add: step_5_def schar_eq_iff fin r4)
    next
      case head: False
      show ?thesis
      proof (cases "reply_size x3 x4")
        case None
        with head show ?thesis by (simp add: step_5_def schar_eq_iff fin r4)
      next
        case (Some n)
        with head show ?thesis
          using stay b(5) ok [of "unat n"]
          by (auto simp: step_5_def schar_eq_iff r4 runs_andthen runs_ret inp_def
              intro!: runs_get_length runs_drain)
      qed
    qed
    then show ?thesis by (rule read)
  qed
qed

text \<open>A new connection.\<close>

lemma runs_connect_sa_then:
  assumes "\<And>t p. matches (next_bev s) p k host port \<lparr>hs_phase = Connecting, hs_in = '''', hs_out = ''''\<rparr> t \<Longrightarrow>
      evst.more t = evst.more s \<Longrightarrow> onces t = onces s \<Longrightarrow> next_once t = next_once s \<Longrightarrow>
      next_bev t = Suc (next_bev s) \<Longrightarrow> (\<forall>g. g \<noteq> next_bev s \<longrightarrow> bevs t g = bevs s g) \<Longrightarrow>
      content (world t) = content (world s) \<Longrightarrow> P () t"
  shows "runs (connect_sa L clo evbase host port sa len k timeout) s P"
  unfolding connect_sa_def runs_andthen
  apply (rule runs_socket_new)
  apply (simp add: runs_setcb new_bufev_def)
  apply (rule runs_set_timeouts, simp)
  apply (rule runs_socket_connect, simp)
  apply (rule assms)
        apply (simp_all add: matches_def in_phase_def)
  done

text \<open>One event, through the C callback.\<close>

lemma matches_ignored: "ignored h' s t \<Longrightarrow> matches h p k host port a t = matches h p k host port a s"
  by (auto simp: ignored_def matches_def)

lemma runs_handle_then:
  assumes "matches h p k host port a s"
    and step: "goes h p k host port (hs_phase a) (hs_step up host port e a) s Q"
    and stable: "\<And>t u. Q t \<Longrightarrow> ignored h t u \<Longrightarrow> Q u" "\<And>t. Q t \<Longrightarrow> bevs t h \<noteq> None"
  shows "runs (handle h e) s (\<lambda>_. Q)"
proof -
  obtain b where b: "bevs s h = Some b" "varp b" "bevp b = p" "p \<noteq> nullptr" "write_cb b = None"
    "(read_cb b, event_cb b) = phase_cbs clo h k host port (hs_phase a)" "inbuf p s = hs_in a"
    "outbuf p s = hs_out a"
    using assms(1) by (rule matchesE)
  note io = input_not_output [OF b(4) b(4)]
  have same: "hs_calls k h (hs_phase a) (hs_phase a) = []" by (simp add: hs_calls_def split: phase.split)
  show ?thesis
  proof (cases e)
    case (Readable x)
    let ?s = "s\<lparr>world := arrive p x (world s)\<rparr>" and ?a = "a\<lparr>hs_in := hs_in a @ x\<rparr>"
    have m: "matches h p k host port ?a ?s" using assms(1) io by (simp add: matches_def arrives)
    note go = step [unfolded Readable]
    have "event_cb b \<noteq> None \<or> read_cb b = None"
      and "case read_cb b of None \<Rightarrow> Q ?s | Some c \<Rightarrow> runs (run c) ?s (\<lambda>_. Q)"
    proof -
      show "event_cb b \<noteq> None \<or> read_cb b = None" using b(6) by (cases "hs_phase a") auto
      have "Q ?s" if "read_cb b = None"
      proof -
        have "hs_step up host port (Readable x) a = ?a" using that b(6) by (cases "hs_phase a") auto
        then show ?thesis by (intro goes_quiet [OF go]) (use m same in \<open>simp_all add: kept_def\<close>)
      qed
      moreover have "runs (run c) ?s (\<lambda>_. Q)" if "read_cb b = Some c" for c
        using that b(6) go runs_step_2_read [OF m, of Q] runs_step_4_read [OF m, of Q]
        by (cases "hs_phase a") (auto simp: run_clo run_socks_clo_def simp del: hs_step.simps)
      ultimately show "case read_cb b of None \<Rightarrow> Q ?s | Some c \<Rightarrow> runs (run c) ?s (\<lambda>_. Q)"
        by (simp split: option.split)
    qed
    then show ?thesis unfolding Readable b(3) [symmetric] by (intro runs_readable [OF b(1,2) _ _ stable])
  next
    case Writable
    have "Q (s\<lparr>world := flush p (world s)\<rparr>)"
      by (rule goes_quiet [OF step [unfolded Writable]])
        (use assms(1) same io in \<open>simp_all add: kept_def matches_def flushes\<close>)
    with b(3,5) show ?thesis unfolding Writable by (intro runs_writable [OF b(1,2) _ _ stable]) simp_all
  next
    case (Event what)
    note go = step [unfolded Event]
    have fin: "runs (finish client h k st None) s (\<lambda>_. Q)"
      if "hs_step up host port (Event what) a = a\<lparr>hs_phase := Finished st\<rparr>" "st \<noteq> OK" "\<forall>st'. hs_phase a \<noteq> Finished st'" for st
      by (rule runs_finish_goes [OF assms(1) refl that(3)]) (use that go in simp_all)
    have "Q s" if "event_cb b = None"
    proof -
      have "hs_step up host port (Event what) a = a" using that b(6) by (cases "hs_phase a") auto
      then show ?thesis by (intro goes_quiet [OF go]) (use assms(1) same in \<open>simp_all add: kept_refl\<close>)
    qed
    moreover have "runs (run_event c what) s (\<lambda>_. Q)" if "event_cb b = Some c" for c
      using that b(6) go runs_connected [OF assms(1), of what Q] fin
      by (cases "hs_phase a") (auto simp: run_event_clo run_socks_event_def)
    ultimately show ?thesis
      unfolding Event by (intro runs_event [OF b(1,2) _ stable]) (simp_all split: option.split)
  qed
qed

text \<open>Events that do not finish the handshake.\<close>

lemma runs_unfinished:
  assumes "matches h p k host port a s" and "\<forall>st. hs_phase (hs_run up host port es a) \<noteq> Finished st"
  shows "runs (run_all (handle h) es) s (\<lambda>_ t. matches h p k host port (hs_run up host port es a) t \<and>
    evst.more t = evst.more s \<and> next_bev t = next_bev s)"
  using assms
proof (induction es arbitrary: a s)
  case Nil
  then show ?case by (simp add: runs_ret)
next
  case (Cons e es)
  let ?a = "hs_step up host port e a"
  let ?Q = "\<lambda>t. matches h p k host port ?a t \<and> evst.more t = evst.more s \<and> next_bev t = next_bev s"
  have live: "\<forall>st. hs_phase ?a \<noteq> Finished st" using Cons.prems(2) hs_run_finished [of ?a] by auto
  then have "hs_calls k h (hs_phase a) (hs_phase ?a) = []" by (auto simp: hs_calls_def split: phase.split)
  then have "goes h p k host port (hs_phase a) ?a s ?Q" by (auto simp: goes_def reports_def kept_def)
  then have "runs (handle h e) s (\<lambda>_. ?Q)"
    by (rule runs_handle_then [OF Cons.prems(1)])
      (auto simp: matches_ignored simp del: not_None_eq, auto simp: ignored_def matches_def in_phase_def)
  then show ?case
    unfolding run_all.simps runs_andthen hs_run.simps
  proof (rule runs_mono, elim conjE)
    fix t
    assume t: "matches h p k host port ?a t" "evst.more t = evst.more s" "next_bev t = next_bev s"
    show "runs (run_all (handle h) es) t (\<lambda>_ t. matches h p k host port (hs_run up host port es ?a) t \<and>
        evst.more t = evst.more s \<and> next_bev t = next_bev s)"
      using Cons.IH [OF t(1)] Cons.prems(2) t(2,3) by simp
  qed
qed

end

section \<open>A client that takes note\<close>

type_synonym 'k socks_call = "'k \<times> socks_status \<times> nat option"

locale socks_session = socks_calls L content arrive flush run run_event unique clo client
  for L :: "'w libevent" and content :: "'w \<Rightarrow> cptr \<Rightarrow> string"
    and arrive :: "cptr \<Rightarrow> string \<Rightarrow> 'w \<Rightarrow> 'w" and flush :: "cptr \<Rightarrow> 'w \<Rightarrow> 'w"
    and run :: "'c \<Rightarrow> ('c, 'w, 'z, unit) ev_prog" and run_event :: "'c \<Rightarrow> u16 \<Rightarrow> ('c, 'w, 'z, unit) ev_prog"
    and unique :: "nat \<Rightarrow> ('c, 'w, 'z) evst_scheme \<Rightarrow> bool"
    and clo :: "'k socks_clo \<Rightarrow> 'c" and client :: "('k, 'c, 'w, 'z) socks_client" +
  fixes log_of :: "'z \<Rightarrow> 'k socks_call list"
  assumes takes_note: "runs (client k st r) s
      (\<lambda>_ t. content (world t) = content (world s) \<and> bevs t = bevs s \<and>
         log_of (evst.more t) = log_of (evst.more s) @ [(k, st, r)])"
begin

abbreviation log :: "('c, 'w, 'z) evst_scheme \<Rightarrow> 'k socks_call list" where
  "log s \<equiv> log_of (evst.more s)"

definition steps_to ::
  "nat \<Rightarrow> cptr \<Rightarrow> 'k \<Rightarrow> string \<Rightarrow> u16 \<Rightarrow> phase \<Rightarrow> hs \<Rightarrow> ('c, 'w, 'z) evst_scheme \<Rightarrow>
   ('c, 'w, 'z) evst_scheme \<Rightarrow> bool"
where
  "steps_to h p k host port before a s t \<longleftrightarrow>
     matches h p k host port a t \<and> log t = log s @ hs_calls k h before (hs_phase a)"

lemma steps_to_ignored:
  "steps_to h p k host port ph a s t \<Longrightarrow> ignored h' t u \<Longrightarrow> steps_to h p k host port ph a s u"
  by (auto simp: steps_to_def matches_ignored) (auto simp: ignored_def)

lemma steps_to_live: "steps_to h p k host port ph a s t \<Longrightarrow> bevs t h \<noteq> None"
  by (auto simp: steps_to_def matches_def in_phase_def)

lemma goes_steps_to: "goes h p k host port before a s (steps_to h p k host port before a s)"
proof -
  have "reports k h before (hs_phase a) (steps_to h p k host port before a s) t"
    if t: "matches h p k host port a t" "kept h s t" for t
  proof (cases "hs_calls k h before (hs_phase a)")
    case Nil
    with t show ?thesis by (simp add: reports_def steps_to_def kept_def)
  next
    case (Cons call calls)
    then have "calls = []" by (auto simp: hs_calls_def split: phase.splits)
    with Cons t show ?thesis
      by (cases call) (auto simp: reports_def steps_to_def kept_def matches_def in_phase_def
          intro!: runs_mono [OF takes_note])
  qed
  then show ?thesis by (simp add: goes_def)
qed

lemma runs_connect_sa:
  "runs (connect_sa L clo evbase host port sa len k timeout) s
    (\<lambda>_ t. log t = log s \<and> (\<exists>p. matches (next_bev s) p k host port
       \<lparr>hs_phase = Connecting, hs_in = '''', hs_out = ''''\<rparr> t))"
  by (rule runs_connect_sa_then) auto

lemma runs_handle:
  assumes "matches h p k host port a s"
  shows "runs (handle h e) s (\<lambda>_ t. steps_to h p k host port (hs_phase a) (hs_step up host port e a) s t)"
  by (rule runs_handle_then [OF assms goes_steps_to]) (auto intro: steps_to_ignored dest: steps_to_live simp del: not_None_eq)

lemma runs_handle_all:
  assumes "matches h p k host port a s"
  shows "runs (run_all (handle h) es) s
    (\<lambda>_ t. steps_to h p k host port (hs_phase a) (hs_run up host port es a) s t)"
  using assms
proof (induction es arbitrary: a s)
  case Nil
  then show ?case by (simp add: runs_ret steps_to_def hs_calls_def split: phase.splits)
next
  case (Cons e es)
  show ?case
    unfolding run_all.simps runs_andthen hs_run.simps
  proof (rule runs_mono [OF runs_handle [OF Cons.prems]])
    fix t
    assume t: "steps_to h p k host port (hs_phase a) (hs_step up host port e a) s t"
    then have "matches h p k host port (hs_step up host port e a) t" by (simp add: steps_to_def)
    from Cons.IH [OF this] show "runs (run_all (handle h) es) t (\<lambda>_ t.
        steps_to h p k host port (hs_phase a) (hs_run up host port es (hs_step up host port e a)) s t)"
      by (rule runs_mono) (use t in \<open>simp add: steps_to_def hs_calls_trans [OF refl refl]\<close>)
  qed
qed

end

end
