(* ===== verification/Socks_Replies.thy ===== *)
theory Socks_Replies
  imports Socks_Session
begin

text \<open>
  What the handshake automaton of \<open>Socks_Session\<close> makes of the replies of a proxy that accepts, whatever
  the pieces they come in.
\<close>

section \<open>The automaton\<close>

lemma hs_run_waits: "hs_phase a = Step_4 \<Longrightarrow> length (hs_in a @ concat xs) < 5 \<Longrightarrow>
    hs_run up host port (map Readable xs) a = a\<lparr>hs_in := hs_in a @ concat xs\<rparr>"
  by (induction xs arbitrary: a) (simp_all add: read_4_def)

lemma hs_run_methods:
  assumes "hs_phase a = Step_2" and "hs_in a @ concat xs = [CHR 0x05, CHR 0x00]"
    and "length (hs_in a) < 2" and "length host \<le> 255"
  shows "hs_run up host port (map Readable xs) a =
    \<lparr>hs_phase = Step_4, hs_in = '''', hs_out = hs_out a @ request host port\<rparr>"
  using assms
proof (induction xs arbitrary: a)
  case Nil
  then show ?case by simp
next
  case (Cons x xs)
  show ?case
  proof (cases "length (hs_in a @ x) < 2")
    case True
    with Cons.IH [of "a\<lparr>hs_in := hs_in a @ x\<rparr>"] Cons.prems show ?thesis
      by (simp add: read_2_def) (cases a, simp)
  next
    case False
    have "length (hs_in a @ concat (x # xs)) = 2" using Cons.prems(2) by simp
    with False have none: "concat xs = ''''" by (cases "concat xs") simp_all
    with Cons.prems have "hs_in a @ x = [CHR 0x05, CHR 0x00]" by simp
    then have "read_2 host port (hs_in a @ x) = (Step_4, '''', request host port)"
      using Cons.prems(4) by (simp add: read_2_def)
    then show ?thesis
      using Cons.prems(1) hs_run_waits [of _ xs] none by simp
  qed
qed

text \<open>A reply the automaton takes for complete: its head is right and so is its length.\<close>

definition accepts :: "string \<Rightarrow> bool" where
  "accepts r \<longleftrightarrow> 5 \<le> length r \<and> take 3 r = [CHR 0x05, CHR 0x00, CHR 0x00] \<and>
     map_option unat (reply_size (r ! 3) (r ! 4)) = Some (length r)"

lemma read_4_prefix:
  assumes "accepts r" and "buf @ later = r @ rest"
  shows "read_4 buf = (if length buf < length r then (Step_4, buf)
    else (Finished OK, drop (length r) buf))"
proof (cases "length buf < 5")
  case True
  with assms(1) show ?thesis by (simp add: read_4_def accepts_def)
next
  case False
  then obtain x0 x1 x2 x3 x4 buf' where buf: "buf = x0 # x1 # x2 # x3 # x4 # buf'"
    by (cases buf; cases "tl buf"; cases "tl (tl buf)"; cases "tl (tl (tl buf))";
        cases "tl (tl (tl (tl buf)))") auto
  from assms(1) obtain y0 y1 y2 y3 y4 r' where r: "r = y0 # y1 # y2 # y3 # y4 # r'"
    unfolding accepts_def by (cases r; cases "tl r"; cases "tl (tl r)"; cases "tl (tl (tl r))";
        cases "tl (tl (tl (tl r)))") auto
  have "x0 = y0" "x1 = y1" "x2 = y2" "x3 = y3" "x4 = y4"
    using assms(2) unfolding buf r by simp_all
  with assms(1) show ?thesis
    unfolding buf r accepts_def read_4_def by (auto simp: eval_nat_numeral)
qed

lemma hs_run_data: "hs_phase a = Finished st \<Longrightarrow>
    hs_run up host port (map Readable xs) a = a\<lparr>hs_in := hs_in a @ concat xs\<rparr>"
  by (induction xs arbitrary: a) simp_all

lemma hs_run_reply:
  assumes "accepts r" and "hs_phase a = Step_4" and "hs_in a @ concat xs = r @ rest"
    and "length (hs_in a) < length r"
  shows "hs_run up host port (map Readable xs) a =
    \<lparr>hs_phase = Finished OK, hs_in = rest, hs_out = hs_out a\<rparr>"
  using assms
proof (induction xs arbitrary: a)
  case Nil
  then have "length (hs_in a) = length (r @ rest)" by simp
  with Nil show ?case by simp
next
  case (Cons x xs)
  have "(hs_in a @ x) @ concat xs = r @ rest" using Cons.prems(3) by simp
  note step = read_4_prefix [OF Cons.prems(1) this]
  show ?case
  proof (cases "length (hs_in a @ x) < length r")
    case True
    with Cons.IH [of "a\<lparr>hs_in := hs_in a @ x\<rparr>"] Cons.prems step show ?thesis
      by (simp, cases a) simp
  next
    case False
    have "drop (length r) ((hs_in a @ x) @ concat xs) = rest"
      using Cons.prems(3) by simp
    with False have "drop (length r) (hs_in a @ x) @ concat xs = rest" by simp
    with False step Cons.prems(2) show ?thesis by (simp add: hs_run_data)
  qed
qed

text \<open>The replies of a proxy that accepts, by the kind of address it reports.\<close>

datatype proxy_addr = Ipv4 string | Domain_Name string | Ipv6 string

fun wf_addr :: "proxy_addr \<Rightarrow> bool" where
  "wf_addr (Ipv4 s) = (length s = 4)"
| "wf_addr (Domain_Name s) = (length s < 128)"
| "wf_addr (Ipv6 s) = (length s = 16)"

fun proxy_reply :: "proxy_addr \<Rightarrow> char \<times> char \<Rightarrow> string" where
  "proxy_reply (Ipv4 s) (hi, lo) = [CHR 0x05, CHR 0x00, CHR 0x00, CHR 0x01] @ s @ [hi, lo]"
| "proxy_reply (Domain_Name s) (hi, lo) =
     [CHR 0x05, CHR 0x00, CHR 0x00, CHR 0x03, char_of (length s)] @ s @ [hi, lo]"
| "proxy_reply (Ipv6 s) (hi, lo) = [CHR 0x05, CHR 0x00, CHR 0x00, CHR 0x04] @ s @ [hi, lo]"

lemma schar_codes: "schar (CHR 0x01) = 1" "schar (CHR 0x03) = 3" "schar (CHR 0x04) = 4"
  by (simp_all add: schar_def uchar_def)

lemma reply_size_domain:
  assumes "n < 128"
  shows "map_option unat (reply_size (CHR 0x03) (char_of n)) = Some (7 + n)"
proof -
  have "schar (char_of n) = int n" using assms by (simp add: schar_def)
  then have "reply_size (CHR 0x03) (char_of n) = Some (word_of_nat (7 + n))"
    by (simp add: reply_size_def schar_codes)
  moreover have "unat (word_of_nat (7 + n) :: u64) = 7 + n"
    using assms by (simp only: unat_of_nat) (simp add: take_bit_nat_eq_self)
  ultimately show ?thesis by (simp only: option.map)
qed

lemma reply_size_fixed:
  "map_option unat (reply_size (CHR 0x01) c) = Some 10"
  "map_option unat (reply_size (CHR 0x04) c) = Some 22"
  by (simp_all add: reply_size_def schar_codes)

lemma accepts_proxy_reply: "wf_addr a \<Longrightarrow> accepts (proxy_reply a (hi, lo))"
  by (cases a) (auto simp: accepts_def reply_size_fixed dest: reply_size_domain)

text \<open>As long as the reply is not complete, the automaton waits for the rest of it.\<close>

lemma hs_run_partial:
  assumes "accepts r" and "hs_phase a = Step_4" and "(hs_in a @ concat xs) @ later = r"
    and "length (hs_in a @ concat xs) < length r"
  shows "hs_run up host port (map Readable xs) a = a\<lparr>hs_in := hs_in a @ concat xs\<rparr>"
  using assms
proof (induction xs arbitrary: a)
  case Nil
  then show ?case by (cases a) simp
next
  case (Cons x xs)
  have "(hs_in a @ x) @ (concat xs @ later) = r @ ''''" using Cons.prems(3) by simp
  from read_4_prefix [OF Cons.prems(1) this] have "read_4 (hs_in a @ x) = (Step_4, hs_in a @ x)"
    using Cons.prems(4) by simp
  with Cons.IH [of "a\<lparr>hs_in := hs_in a @ x\<rparr>"] Cons.prems show ?case by simp (cases a, simp)
qed

section \<open>A domain name of 128 bytes or more\<close>

text \<open>
  The length byte is read as a signed character: the size is that of another reply, of more than
  \<open>2 ^ 63\<close> bytes up to 248, and of at most six bytes from 249 on.
\<close>

lemma reply_size_long:
  assumes "128 \<le> n" and "n < 256"
  shows "map_option unat (reply_size (CHR 0x03) (char_of n)) =
    Some (if n < 249 then 2 ^ 64 - (249 - n) else n - 249)"
proof -
  have s: "schar (char_of n) = int n - 256" using assms by (simp add: schar_def)
  have size: "reply_size (CHR 0x03) (char_of n) = Some (word_of_int (int n - 249))"
    by (simp add: reply_size_def schar_codes s)
  have "uint (word_of_int (int n - 249) :: u64) = (int n - 249) mod 2 ^ 64"
    by (simp only: uint_word_of_int_eq take_bit_eq_mod) simp
  also have "\<dots> = int (if n < 249 then 2 ^ 64 - (249 - n) else n - 249)"
  proof (cases "n < 249")
    case True
    have "(int n - 249) mod 2 ^ 64 = (int n - 249 + 2 ^ 64) mod 2 ^ 64" by (rule mod_add_self2 [symmetric])
    also have "\<dots> = int n - 249 + 2 ^ 64" using True by (intro mod_pos_pos_trivial) simp_all
    finally show ?thesis using True by (simp add: of_nat_diff)
  next
    case False
    with assms(2) show ?thesis by (subst mod_pos_pos_trivial) simp_all
  qed
  finally have "unat (word_of_int (int n - 249) :: u64) = (if n < 249 then 2 ^ 64 - (249 - n) else n - 249)"
    by (simp only: unat_eq_nat_uint nat_int)
  then show ?thesis by (simp only: size option.map)
qed

text \<open>The reply \<open>r\<close> says that its size is \<open>m\<close>: what the automaton makes of its pieces.\<close>

definition says_size :: "string \<Rightarrow> nat \<Rightarrow> bool" where
  "says_size r m \<longleftrightarrow> 5 \<le> length r \<and> take 3 r = [CHR 0x05, CHR 0x00, CHR 0x00] \<and>
     map_option unat (reply_size (r ! 3) (r ! 4)) = Some m"

lemma read_4_says_size:
  assumes "says_size r m" and "buf @ later = r"
  shows "read_4 buf = (if length buf < max 5 m then (Step_4, buf) else (Finished OK, drop m buf))"
proof (cases "length buf < 5")
  case True
  then show ?thesis by (simp add: read_4_def)
next
  case False
  then have "take 3 buf = take 3 r" "buf ! 3 = r ! 3" "buf ! 4 = r ! 4"
    unfolding assms(2) [symmetric] by (simp_all add: nth_append)
  with False assms(1) show ?thesis by (auto simp: read_4_def says_size_def)
qed

lemma hs_run_says_size:
  assumes "says_size r m" and "hs_phase a = Step_4" and "hs_in a @ concat xs = r" and "length (hs_in a) < max 5 m"
  shows "hs_run up host port (map Readable xs) a =
    (if length r < max 5 m then a\<lparr>hs_in := r\<rparr> else \<lparr>hs_phase = Finished OK, hs_in = drop m r, hs_out = hs_out a\<rparr>)"
  using assms(2-4)
proof (induction xs arbitrary: a)
  case Nil
  then show ?case by (cases a) auto
next
  case (Cons x xs)
  have r: "(hs_in a @ x) @ concat xs = r" using Cons.prems(2) by simp
  note step = read_4_says_size [OF assms(1) r]
  show ?case
  proof (cases "length (hs_in a @ x) < max 5 m")
    case True
    with Cons.IH [of "a\<lparr>hs_in := hs_in a @ x\<rparr>"] Cons.prems step show ?thesis by (simp, cases a) simp
  next
    case False
    have long: "\<not> length r < max 5 m" using False r by (auto simp del: append_assoc)
    have "drop m r = drop m (hs_in a @ x) @ concat xs" using False by (simp add: r [symmetric] del: append_assoc)
    with False long step Cons.prems(1) show ?thesis by (simp add: hs_run_data)
  qed
qed

section \<open>A proxy that accepts\<close>

text \<open>
  The connection to the proxy is made; the proxy reads the greeting, chooses no authentication, reads the
  request and grants it, its two replies in any pieces.  \<open>netw\<close> handles the events.
\<close>

definition proxy_grants ::
  "'w libevent \<Rightarrow> ('w \<Rightarrow> cptr \<Rightarrow> string) \<Rightarrow> (nat \<Rightarrow> event \<Rightarrow> ('c, 'w, 'z, unit) ev_prog) \<Rightarrow> nat \<Rightarrow> string \<Rightarrow> u16 \<Rightarrow>
   string list \<Rightarrow> string list \<Rightarrow> string \<Rightarrow> ('c, 'w, 'z, unit) ev_prog" where
  "proxy_grants L content netw h host port xs ys y =
     followed_by (netw h (Event (BEV_EVENT_CONNECTED L)))
       (followed_by (peer_reads L content netw h greeting)
         (followed_by (run_all (netw h) (map Readable xs))
           (followed_by (peer_reads L content netw h (request host port))
             (followed_by (run_all (netw h) (map Readable ys)) (netw h (Readable y))))))"

context socks_calls
begin

abbreviation new_hs :: hs where
  "new_hs \<equiv> \<lparr>hs_phase = Connecting, hs_in = '''', hs_out = ''''\<rparr>"

text \<open>\<open>connect\<close> with an endpoint that parses starts the handshake.\<close>

lemma runs_connect_endpoint_then:
  assumes "parse_sockaddr_port L endpoint 128 = (NoError, sa, len)"
    and "\<And>t p. matches (next_bev s) p k host port new_hs t \<Longrightarrow> evst.more t = evst.more s \<Longrightarrow> onces t = onces s \<Longrightarrow>
      next_once t = next_once s \<Longrightarrow> next_bev t = Suc (next_bev s) \<Longrightarrow> (\<forall>g. g \<noteq> next_bev s \<longrightarrow> bevs t g = bevs s g) \<Longrightarrow>
      content (world t) = content (world s) \<Longrightarrow> P () t"
  shows "runs (connect_endpoint L clo client base host port k endpoint timeout) s P"
  using assms(1)
  by (simp add: connect_endpoint_def error_neq_int_def NoError_def declared_error_defs)
    (rule runs_connect_sa_then, rule assms(2))

text \<open>What stays as it was, while the handshake goes on.\<close>

abbreviation shaking :: "nat \<Rightarrow> cptr \<Rightarrow> 'k \<Rightarrow> string \<Rightarrow> u16 \<Rightarrow> hs \<Rightarrow> ('c, 'w, 'z) evst_scheme \<Rightarrow>
   ('c, 'w, 'z) evst_scheme \<Rightarrow> bool" where
  "shaking h p k host port a s t \<equiv>
     matches h p k host port a t \<and> evst.more t = evst.more s \<and> next_bev t = next_bev s"

lemma runs_shaking:
  assumes "shaking h p k host port a s t" and "hs_run up host port es a = b" and "\<forall>st. hs_phase b \<noteq> Finished st"
  shows "runs (run_all (handle h) es) t (\<lambda>_. shaking h p k host port b s)"
proof -
  have "matches h p k host port a t" using assms(1) by simp
  from runs_unfinished [OF this, where es = es] assms show ?thesis by (auto elim: runs_mono)
qed

lemma runs_proxy_reads:
  assumes "shaking h p k host port a s t" and "\<forall>st. hs_phase a \<noteq> Finished st"
  shows "runs (server_reads h (hs_out a)) t (\<lambda>_. shaking h p k host port (a\<lparr>hs_out := ''''\<rparr>) s)"
proof -
  have "output_is L content h (hs_out a) t"
    using assms(1) by (auto simp: output_is_def matches_def in_phase_def)
  moreover have "runs (run_all (handle h) [Writable]) t (\<lambda>_. shaking h p k host port (a\<lparr>hs_out := ''''\<rparr>) s)"
    by (rule runs_shaking [OF assms(1)]) (use assms(2) in simp_all)
  ultimately show ?thesis
    unfolding run_all.simps followed_by_ret by (simp add: runs_andthen [of "expects _"] runs_expects)
qed

lemma runs_granted_then:
  assumes "matches h p k host port new_hs s" and "length host \<le> 255" and "wf_addr addr"
    and "concat xs = [CHR 0x05, CHR 0x00]" and "concat ys @ y = proxy_reply addr (hi, lo)" and "y \<noteq> ''''"
    and call: "\<And>t. shaking h p k host port \<lparr>hs_phase = Finished OK, hs_in = '''', hs_out = ''''\<rparr> s t \<Longrightarrow>
      runs (client k OK (Some h)) t (\<lambda>_. Q)"
    and stable: "\<And>t u. Q t \<Longrightarrow> ignored h t u \<Longrightarrow> Q u" "\<And>t. Q t \<Longrightarrow> bevs t h \<noteq> None"
  shows "runs (proxy_grants L content handle h host port xs ys y) s (\<lambda>_. Q)"
proof -
  let ?a1 = "\<lparr>hs_phase = Step_2, hs_in = '''', hs_out = greeting\<rparr>"
  let ?a2 = "\<lparr>hs_phase = Step_4, hs_in = '''', hs_out = request host port\<rparr>"
  let ?a3 = "\<lparr>hs_phase = Step_4, hs_in = concat ys, hs_out = ''''\<rparr>"
  note acc = accepts_proxy_reply [OF assms(3), of hi lo]
  have len: "length (concat ys) < length (proxy_reply addr (hi, lo))"
    using assms(5) [symmetric] assms(6) by simp
  have 1: "runs (run_all (handle h) [Event (BEV_EVENT_CONNECTED L)]) s (\<lambda>_. shaking h p k host port ?a1 s)"
    by (rule runs_shaking [where a = new_hs]) (use assms(1) in \<open>simp, simp, simp\<close>)
  have 2: "runs (server_reads h greeting) t (\<lambda>_. shaking h p k host port (?a1\<lparr>hs_out := ''''\<rparr>) s)"
    if "shaking h p k host port ?a1 s t" for t
    using runs_proxy_reads [OF that] by simp
  have 3: "runs (run_all (handle h) (map Readable xs)) t (\<lambda>_. shaking h p k host port ?a2 s)"
    if "shaking h p k host port (?a1\<lparr>hs_out := ''''\<rparr>) s t" for t
    by (rule runs_shaking [OF that]) (use hs_run_methods [of "?a1\<lparr>hs_out := ''''\<rparr>"] assms(2,4) in simp_all)
  have 4: "runs (server_reads h (request host port)) t (\<lambda>_. shaking h p k host port (?a2\<lparr>hs_out := ''''\<rparr>) s)"
    if "shaking h p k host port ?a2 s t" for t
    using runs_proxy_reads [OF that] by simp
  have 5: "runs (run_all (handle h) (map Readable ys)) t (\<lambda>_. shaking h p k host port ?a3 s)"
    if "shaking h p k host port (?a2\<lparr>hs_out := ''''\<rparr>) s t" for t
    by (rule runs_shaking [OF that])
      (use hs_run_partial [OF acc, of "?a2\<lparr>hs_out := ''''\<rparr>" ys y] assms(5) len in simp_all)
  have 6: "runs (handle h (Readable y)) t (\<lambda>_. Q)" if t: "shaking h p k host port ?a3 s t" for t
  proof -
    have m: "matches h p k host port ?a3 t" using t by simp
    have "(concat ys @ y) @ '''' = proxy_reply addr (hi, lo) @ ''''" using assms(5) by simp
    from read_4_prefix [OF acc this] assms(5)
    have step: "hs_step up host port (Readable y) ?a3 = \<lparr>hs_phase = Finished OK, hs_in = '''', hs_out = ''''\<rparr>" by simp
    have "goes h p k host port (hs_phase ?a3) (hs_step up host port (Readable y) ?a3) t Q"
      unfolding step using t call by (auto simp: goes_def reports_def hs_calls_def kept_def)
    then show ?thesis by (rule runs_handle_then [OF m _ stable])
  qed
  show ?thesis
    unfolding proxy_grants_def
    by (rule runs_seq [OF 1 [unfolded run_all.simps followed_by_ret] runs_seq [OF 2 runs_seq [OF 3
          runs_seq [OF 4 runs_seq [OF 5 6]]]]])
qed

end

end
