(* ===== verification/Socks_Props.thy ===== *)
theory Socks_Props
  imports Socks_Replies
begin

text \<open>
  The properties of \<open>Socks\<close>: the closures run the automaton for any sequence of events, the
  client is called at most once, a proxy that accepts is understood whatever the addresses and
  the pieces its replies come in, and success is never reported without the consent of the proxy.
\<close>

section \<open>Consent\<close>

text \<open>The bytes that have arrived in a sequence of events.\<close>

fun received :: "event list \<Rightarrow> string" where
  "received [] = ''''"
| "received (Readable x # es) = x @ received es"
| "received (_ # es) = received es"

text \<open>
  What is known of all the bytes received so far, in each phase; in \<open>Finished OK\<close>, that the
  proxy chose no authentication and answered the request with success.
\<close>

definition granted :: "string \<Rightarrow> string \<Rightarrow> bool" where
  "granted host seen \<longleftrightarrow> length host \<le> 255 \<and>
     (\<exists>reply. seen = [CHR 0x05, CHR 0x00] @ reply \<and> 5 \<le> length reply \<and>
        take 3 reply = [CHR 0x05, CHR 0x00, CHR 0x00])"

definition consent :: "string \<Rightarrow> hs \<Rightarrow> string \<Rightarrow> bool" where
  "consent host a seen = (case hs_phase a of
      Step_4 \<Rightarrow> length host \<le> 255 \<and> seen = [CHR 0x05, CHR 0x00] @ hs_in a
    | Finished st \<Rightarrow> st = OK \<longrightarrow> granted host seen
    | _ \<Rightarrow> hs_in a = seen)"

lemma granted_mono: "granted host seen \<Longrightarrow> granted host (seen @ x)"
  by (auto simp: granted_def)

lemma read_2_cases:
  assumes "read_2 host port buf = (ph, i, out)"
  shows "ph = Step_2 \<and> i = buf \<or>
    ph = Step_4 \<and> length host \<le> 255 \<and> buf = [CHR 0x05, CHR 0x00] @ i \<or>
    (\<exists>st. ph = Finished st \<and> st \<noteq> OK)"
  using assms
  by (cases buf; cases "tl buf") (auto simp: read_2_def split: if_splits)

lemma read_4_cases:
  assumes "read_4 buf = (ph, i)"
  shows "ph = Step_4 \<and> i = buf \<or> (\<exists>st. ph = Finished st \<and> st \<noteq> OK) \<or>
    ph = Finished OK \<and> 5 \<le> length buf \<and> take 3 buf = [CHR 0x05, CHR 0x00, CHR 0x00]"
  using assms by (auto simp: read_4_def split: if_splits option.splits)

lemma consent_step:
  assumes "consent host a seen"
  shows "consent host (hs_step up host port e a) (seen @ received [e])"
proof (cases e)
  case (Readable x)
  show ?thesis
  proof (cases "hs_phase a")
    case Step_2
    obtain ph i out where r: "read_2 host port (hs_in a @ x) = (ph, i, out)"
      by (cases "read_2 host port (hs_in a @ x)") auto
    from read_2_cases [OF r] assms Step_2 Readable r show ?thesis
      by (auto simp: consent_def)
  next
    case Step_4
    obtain ph i where r: "read_4 (hs_in a @ x) = (ph, i)" by (cases "read_4 (hs_in a @ x)") auto
    from read_4_cases [OF r] assms Step_4 Readable r show ?thesis
      by (auto simp: consent_def granted_def)
  qed (use assms Readable in \<open>auto simp: consent_def dest: granted_mono\<close>)
next
  case (Event what)
  with assms show ?thesis by (auto simp: consent_def split: phase.splits)
next
  case Writable
  with assms show ?thesis by (auto simp: consent_def split: phase.splits)
qed

lemma received_Cons: "received (e # es) = received [e] @ received es"
  by (cases e) simp_all

lemma consent_run: "consent host a seen \<Longrightarrow> consent host (hs_run up host port es a) (seen @ received es)"
proof (induction es arbitrary: a seen)
  case Nil
  then show ?case by simp
next
  case (Cons e es)
  from Cons.IH [OF consent_step [OF Cons.prems, of up port e]] show ?case
    by (simp add: received_Cons [of e es])
qed

section \<open>The recording client\<close>

definition socks_recorder :: "('k, 'c, 'w, 'k socks_call list) socks_client" where
  "socks_recorder k st r = modify (evst.more_update (\<lambda>calls. calls @ [(k, st, r)]))"

text \<open>
  The bufferevent is referred to by its own closures, and by the client once it has been given it.
\<close>

definition socks_unique :: "nat \<Rightarrow> ('c, 'w, 'k socks_call list) evst_scheme \<Rightarrow> bool" where
  "socks_unique h s \<longleftrightarrow> (case bevs s h of None \<Rightarrow> False | Some b \<Rightarrow> event_cb b = None) \<and>
     Some h \<notin> (\<lambda>(_, _, r). r) ` set (evst.more s)"

interpretation sim_socks: socks_session sim_libevent sim_content sim_arrive sim_flush
  "run_socks_clo sim_libevent id socks_recorder" "run_socks_event sim_libevent id socks_recorder" socks_unique
  id socks_recorder "\<lambda>calls. calls"
  by unfold_locales (simp_all add: socks_recorder_def prog_simps socks_unique_def)

definition socks_demo :: "('k socks_clo, simw, 'k socks_call list) evst_scheme" where
  "socks_demo = \<lparr>world = sim_empty, bevs = Map.empty, next_bev = 0, onces = Map.empty,
     next_once = 0, \<dots> = []\<rparr>"

lemma socks_demo_simps [simp]: "next_bev socks_demo = 0" "evst.more socks_demo = []"
  by (simp_all add: socks_demo_def)

definition socks_base :: evbase where
  "socks_base = \<lparr>base_ptr = 1, base_owned = True\<rparr>"

section \<open>Properties\<close>

text \<open>
  C4: The closures of \<open>Socks\<close> implement the handshake automaton.  For every sequence of arriving
  bytes, flushes and events, handling it returns without an exception; the callbacks installed,
  the unread bytes and the bytes to send are those of the automaton; and the client is called
  when the automaton finishes, with its status, and not otherwise.
\<close>

theorem handshake_refines_automaton:
  assumes "socks_session L content arrive flush run run_event unique clo client log_of"
    and "in_phase clo h p k host port (hs_phase a) s"
    and "content (world s) (bufferevent_get_input L p) = hs_in a"
    and "content (world s) (bufferevent_get_output L p) = hs_out a"
    and "b = hs_run (\<lambda>what. what = BEV_EVENT_CONNECTED L) host port es a"
  shows "runs (run_all (deliver L arrive flush unique run run_event h) es) s
    (\<lambda>_ t. in_phase clo h p k host port (hs_phase b) t \<and>
       content (world t) (bufferevent_get_input L p) = hs_in b \<and>
       content (world t) (bufferevent_get_output L p) = hs_out b \<and>
       log_of (evst.more t) = log_of (evst.more s) @ hs_calls k h (hs_phase a) (hs_phase b))"
proof -
  note defs = socks_calls.matches_def [OF socks_session.axioms(1) [OF assms(1)]] socks_session.steps_to_def [OF assms(1)]
  have "socks_calls.matches L content clo h p k host port a s" using assms(2-4) by (simp add: defs)
  from socks_session.runs_handle_all [OF assms(1) this, of es] show ?thesis
    by (rule runs_mono) (simp add: defs assms(5))
qed

theorem handshake_refines_automaton_witness:
  "runs (followed_by (connect_sa sim_libevent id socks_base ''host'' 80 ''sa'' 2 (7 :: nat) None)
      (run_all (deliver sim_libevent sim_arrive sim_flush socks_unique
        (run_socks_clo sim_libevent id socks_recorder) (run_socks_event sim_libevent id socks_recorder) 0)
        [Event 128, Writable, Readable [CHR 0x05], Event 32, Readable [CHR 0x00]])) socks_demo
     (\<lambda>_ t. evst.more t = [(7, IO_ERROR_STEP_2, None)])"
  unfolding runs_andthen
proof (rule runs_mono [OF sim_socks.runs_connect_sa], elim conjE exE)
  fix t :: "(nat socks_clo, simw, nat socks_call list) evst_scheme" and p
  assume "evst.more t = evst.more socks_demo" and m: "sim_socks.matches (next_bev socks_demo) p (7 :: nat) ''host'' 80
       \<lparr>hs_phase = Connecting, hs_in = '''', hs_out = ''''\<rparr> t"
  moreover have "hs_phase (hs_run (\<lambda>what. what = BEV_EVENT_CONNECTED sim_libevent) ''host'' 80
      [Event 128, Writable, Readable [CHR 0x05], Event 32, Readable [CHR 0x00]]
      \<lparr>hs_phase = Connecting, hs_in = '''', hs_out = ''''\<rparr>) = Finished IO_ERROR_STEP_2"
    by (simp add: sim_libevent_def read_2_def)
  ultimately show "runs (run_all (deliver sim_libevent sim_arrive sim_flush socks_unique
        (run_socks_clo sim_libevent id socks_recorder) (run_socks_event sim_libevent id socks_recorder) 0)
        [Event 128, Writable, Readable [CHR 0x05], Event 32, Readable [CHR 0x00]]) t
     (\<lambda>_ t. evst.more t = [(7, IO_ERROR_STEP_2, None)])"
    using m unfolding sim_socks.matches_def
    by (elim conjE, intro runs_mono [OF handshake_refines_automaton [OF sim_socks.socks_session_axioms,
          where a = "\<lparr>hs_phase = Connecting, hs_in = '''', hs_out = ''''\<rparr>" and h = 0 and p = p
            and k = 7 and host = "''host''" and port = 80, OF _ _ _ refl]])
      (simp_all add: hs_calls_def del: hs_run.simps)
qed

text \<open>
  C21: A connection through a proxy that accepts.  Whatever the pieces in which the two replies of
  the proxy arrive, whatever kind of address it reports (a domain name of less than 128 bytes),
  and whatever data follows: the greeting and the request have been sent, byte for byte, the
  client is called once, with \<open>OK\<close> and the bufferevent, and the data after the reply of the proxy
  is in the input buffer, no byte less and no byte more.
\<close>

theorem handshake_succeeds:
  assumes "socks_session L content arrive flush run run_event unique clo client log_of"
    and "length host \<le> 255" and "wf_addr addr"
    and "concat xs = [CHR 0x05, CHR 0x00]" and "concat ys = proxy_reply addr (hi, lo) @ data"
    and "es = Event (BEV_EVENT_CONNECTED L) # map Readable xs @ map Readable ys"
  shows "runs (followed_by (connect_sa L clo evbase host port sa len k timeout)
      (run_all (deliver L arrive flush unique run run_event
         (next_bev s)) es)) s
    (\<lambda>_ t. log_of (evst.more t) = log_of (evst.more s) @ [(k, OK, Some (next_bev s))] \<and>
       (\<exists>p. in_phase clo (next_bev s) p k host port (Finished OK) t \<and>
          content (world t) (bufferevent_get_output L p) = greeting @ request host port \<and>
          content (world t) (bufferevent_get_input L p) = data))"
proof -
  let ?up = "\<lambda>what. what = BEV_EVENT_CONNECTED L"
  let ?a = "\<lparr>hs_phase = Connecting, hs_in = '''', hs_out = ''''\<rparr>"
  note acc = accepts_proxy_reply [OF assms(3), of hi lo]
  then have "proxy_reply addr (hi, lo) \<noteq> []" by (auto simp: accepts_def)
  then have short: "length '''' < length (proxy_reply addr (hi, lo))" by simp
  have "hs_run ?up host port (map Readable xs) \<lparr>hs_phase = Step_2, hs_in = '''', hs_out = greeting\<rparr> =
      \<lparr>hs_phase = Step_4, hs_in = '''', hs_out = greeting @ request host port\<rparr>"
    using hs_run_methods [of "\<lparr>hs_phase = Step_2, hs_in = '''', hs_out = greeting\<rparr>" xs host]
      assms(2,4) by simp
  moreover have "hs_run ?up host port (map Readable ys)
      \<lparr>hs_phase = Step_4, hs_in = '''', hs_out = greeting @ request host port\<rparr> =
      \<lparr>hs_phase = Finished OK, hs_in = data, hs_out = greeting @ request host port\<rparr>"
    using hs_run_reply [OF acc, of "\<lparr>hs_phase = Step_4, hs_in = '''', hs_out = greeting @ request host port\<rparr>"
        ys data, where host = host and port = port] assms(5) short by simp
  ultimately have run: "hs_run ?up host port es ?a =
      \<lparr>hs_phase = Finished OK, hs_in = data, hs_out = greeting @ request host port\<rparr>"
    by (simp add: assms(6) hs_run_append)
  note defs = socks_calls.matches_def [OF socks_session.axioms(1) [OF assms(1)]] socks_session.steps_to_def [OF assms(1)]
  show ?thesis
    unfolding runs_andthen
    by (rule runs_mono [OF socks_session.runs_connect_sa [OF assms(1)]], elim conjE exE,
        rule runs_mono [OF socks_session.runs_handle_all [OF assms(1)]], assumption)
      (auto simp: defs run hs_calls_def)
qed

theorem handshake_succeeds_witness:
  "runs (followed_by (connect_sa sim_libevent id socks_base ''ooni.nu'' 80 ''sa'' 2 (7 :: nat) None)
      (run_all (deliver sim_libevent sim_arrive sim_flush socks_unique
        (run_socks_clo sim_libevent id socks_recorder) (run_socks_event sim_libevent id socks_recorder) 0)
        [Event 128, Readable [CHR 0x05], Readable [CHR 0x00],
         Readable [CHR 0x05, CHR 0x00, CHR 0x00, CHR 0x03, CHR 0x02, CHR ''x''],
         Readable ''y12DATA''])) socks_demo
     (\<lambda>_ t. evst.more t = [(7, OK, Some 0)] \<and>
        (\<exists>p. sim_content (world t) (bufferevent_get_input sim_libevent p) = ''DATA''))"
proof -
  have conc: "concat [[CHR 0x05, CHR 0x00, CHR 0x00, CHR 0x03, CHR 0x02, CHR ''x''], ''y12DATA''] =
      proxy_reply (Domain_Name ''xy'') (CHR ''1'', CHR ''2'') @ ''DATA''"
    by code_simp
  have es: "[Event 128, Readable [CHR 0x05], Readable [CHR 0x00],
         Readable [CHR 0x05, CHR 0x00, CHR 0x00, CHR 0x03, CHR 0x02, CHR ''x''],
         Readable ''y12DATA''] = Event (BEV_EVENT_CONNECTED sim_libevent) #
      map Readable [[CHR 0x05], [CHR 0x00]] @
      map Readable [[CHR 0x05, CHR 0x00, CHR 0x00, CHR 0x03, CHR 0x02, CHR ''x''], ''y12DATA'']"
    by (simp add: sim_libevent_def)
  note ok = handshake_succeeds [OF sim_socks.socks_session_axioms _ _ _ conc es, where s = socks_demo
      and host = "''ooni.nu''" and k = 7 and port = 80 and sa = "''sa''" and len = 2
      and timeout = None and evbase = socks_base, unfolded socks_demo_simps]
  show ?thesis by (rule runs_mono [OF ok]) auto
qed

text \<open>
  C9: From \<open>connect\<close> on, and for every sequence of events: no exception, at most one call of the
  client, and \<open>OK\<close> with a bufferevent only with the consent of the proxy: the bytes it sent begin
  with the choice of no authentication and a reply of success, and the host name fitted the
  request.  Every other call carries an error and no bufferevent.
\<close>

theorem handshake_one_call:
  assumes "socks_session L content arrive flush run run_event unique clo client log_of"
  shows "runs (followed_by (connect_sa L clo evbase host port sa len k timeout)
      (run_all (deliver L arrive flush unique run run_event
         (next_bev s)) es)) s
    (\<lambda>_ t. log_of (evst.more t) = log_of (evst.more s) \<or>
       (\<exists>st. log_of (evst.more t) = log_of (evst.more s) @
            [(k, st, if st = OK then Some (next_bev s) else None)] \<and>
          (st = OK \<longrightarrow> granted host (received es))))"
proof -
  let ?up = "\<lambda>what. what = BEV_EVENT_CONNECTED L"
  let ?a = "\<lparr>hs_phase = Connecting, hs_in = '''', hs_out = ''''\<rparr>"
  have "consent host (hs_run ?up host port es ?a) (received es)"
    using consent_run [of host ?a "''''" ?up port es] by (simp add: consent_def)
  then have calls: "\<And>l l'. l' = l @ hs_calls k (next_bev s) Connecting (hs_phase (hs_run ?up host port es ?a)) \<Longrightarrow>
      l' = l \<or> (\<exists>st. l' = l @ [(k, st, if st = OK then Some (next_bev s) else None)] \<and>
         (st = OK \<longrightarrow> granted host (received es)))"
    by (cases "hs_phase (hs_run ?up host port es ?a)") (auto simp: hs_calls_def consent_def)
  show ?thesis
    unfolding runs_andthen
    by (rule runs_mono [OF socks_session.runs_connect_sa [OF assms]], elim conjE exE,
        rule runs_mono [OF socks_session.runs_handle_all [OF assms]], assumption, rule calls)
      (simp add: socks_session.steps_to_def [OF assms])
qed

theorem handshake_one_call_witness:
  "runs (followed_by (connect_sa sim_libevent id socks_base ''host'' 80 ''sa'' 2 (7 :: nat) None)
      (run_all (deliver sim_libevent sim_arrive sim_flush socks_unique
        (run_socks_clo sim_libevent id socks_recorder) (run_socks_event sim_libevent id socks_recorder) 0)
        [Event 128, Event 16, Event 16, Readable [CHR 0x05, CHR 0x00]])) socks_demo
     (\<lambda>_ t. length (evst.more t) \<le> 1)"
  by (rule runs_mono [OF handshake_one_call [OF sim_socks.socks_session_axioms, where s = socks_demo,
        unfolded socks_demo_simps]]) auto

text \<open>
  The overload that takes the port as a string: a string of at most five digits is the port it
  denotes, modulo \<open>2 ^ 16\<close>; every other string ends in \<open>INVALID_PORT\<close> and no connection attempt.
\<close>

theorem port_string:
  shows "connect_port L clo client evbase host s k endpoint timeout =
    (if length s \<le> 5 \<and> list_all isdigit s
     then connect_endpoint L clo client evbase host (word_of_nat (digits_value 0 s)) k endpoint timeout
     else client k INVALID_PORT None) \<and>
    (n < 65536 \<longrightarrow> connect_port L clo client evbase host (show_nat n) k endpoint timeout =
       connect_endpoint L clo client evbase host (word_of_nat n) k endpoint timeout \<and>
       unat (word_of_nat n :: u16) = n)"
proof -
  have num: "atoi (c_str t) = int (digits_value 0 t)" if "list_all isdigit t" for t
    using that by (simp add: c_str_digits atoi_digits list_all_iff)
  have digits: "list_all isdigit (show_nat n)" using show_nat_digits [of n] by (simp add: list_all_iff)
  have len: "length (show_nat n) \<le> 5" if "n < 65536" using that by (intro length_show_nat) simp_all
  have port: "connect_port L clo client evbase host t k endpoint timeout =
    (if length t \<le> 5 \<and> list_all isdigit t
     then connect_endpoint L clo client evbase host (word_of_nat (digits_value 0 t)) k endpoint timeout
     else client k INVALID_PORT None)" for t
    by (auto simp: connect_port_def num list_ex_iff list_all_iff)
  from port [of s] port [of "show_nat n"] digits len show ?thesis
    by (simp add: digits_value_show_nat unat_u16)
qed

theorem port_string_witness:
  "connect_port sim_libevent id socks_recorder socks_base ''ooni.nu'' (show_nat 443) (7 :: nat) ''127.0.0.1:9050'' None =
   connect_endpoint sim_libevent id socks_recorder socks_base ''ooni.nu'' 443 7 ''127.0.0.1:9050'' None"
  using port_string [of sim_libevent id socks_recorder socks_base "''ooni.nu''" "''443''" "7 :: nat" "''127.0.0.1:9050''" None 443]
  by simp

text \<open>
  C33: A proxy that grants the connection and reports a domain name of \<open>n\<close> bytes, 128 or more: the size of
  its reply is computed wrongly, because the length byte is read as a signed character.  Up to 248 the
  client is never called, however complete the reply: the handshake waits for more than \<open>2 ^ 63\<close> bytes.
  From 249 on the client is called with \<open>OK\<close>, but only the first \<open>n - 249\<close> bytes of the reply, at most six,
  have been taken: the rest of the reply of the proxy is left to the client as data.
\<close>

theorem long_domain_reply:
  assumes "socks_session L content arrive flush run run_event unique clo client log_of"
    and "length host \<le> 255" and "concat xs = [CHR 0x05, CHR 0x00]"
    and "concat ys = [CHR 0x05, CHR 0x00, CHR 0x00, CHR 0x03, char_of n] @ rest"
    and "128 \<le> n" and "n < 256" and "rest \<noteq> ''''" and "length (concat ys) < 2 ^ 63"
    and "es = Event (BEV_EVENT_CONNECTED L) # map Readable xs @ map Readable ys"
  shows "runs (followed_by (connect_sa L clo evbase host port sa len k timeout)
      (run_all (deliver L arrive flush unique run run_event (next_bev s)) es)) s
    (\<lambda>_ t. \<exists>p. if n < 249
       then log_of (evst.more t) = log_of (evst.more s) \<and> in_phase clo (next_bev s) p k host port Step_4 t \<and>
         content (world t) (bufferevent_get_input L p) = concat ys
       else log_of (evst.more t) = log_of (evst.more s) @ [(k, OK, Some (next_bev s))] \<and>
         in_phase clo (next_bev s) p k host port (Finished OK) t \<and>
         content (world t) (bufferevent_get_input L p) = drop (n - 249) (concat ys))"
proof -
  let ?up = "\<lambda>what. what = BEV_EVENT_CONNECTED L"
  let ?m = "if n < 249 then 2 ^ 64 - (249 - n) else n - 249"
  let ?b = "\<lparr>hs_phase = Step_4, hs_in = '''', hs_out = greeting @ request host port\<rparr>"
  let ?c = "if n < 249 then ?b\<lparr>hs_in := concat ys\<rparr> else \<lparr>hs_phase = Finished OK, hs_in = drop (n - 249) (concat ys),
      hs_out = greeting @ request host port\<rparr>"
  have size: "says_size (concat ys) ?m"
    unfolding assms(4) using reply_size_long [OF assms(5,6)] by (simp add: says_size_def)
  obtain x rs where "rest = x # rs" using assms(7) by (cases rest) simp_all
  then have long: "length (concat ys) < max 5 ?m \<longleftrightarrow> n < 249"
    using assms(4-6,8) by (auto simp: max_def)
  have "hs_run ?up host port (map Readable xs) \<lparr>hs_phase = Step_2, hs_in = '''', hs_out = greeting\<rparr> = ?b"
    using hs_run_methods [of "\<lparr>hs_phase = Step_2, hs_in = '''', hs_out = greeting\<rparr>" xs host] assms(2,3) by simp
  moreover have "hs_run ?up host port (map Readable ys) ?b = ?c"
    using hs_run_says_size [OF size, of ?b ys ?up host port] unfolding long by simp
  ultimately have run: "hs_run ?up host port es \<lparr>hs_phase = Connecting, hs_in = '''', hs_out = ''''\<rparr> = ?c"
    by (simp add: assms(9) hs_run_append)
  note defs = socks_calls.matches_def [OF socks_session.axioms(1) [OF assms(1)]] socks_session.steps_to_def [OF assms(1)]
  show ?thesis
    unfolding runs_andthen
    by (rule runs_mono [OF socks_session.runs_connect_sa [OF assms(1)]], elim conjE exE,
        rule runs_mono [OF socks_session.runs_handle_all [OF assms(1)]], assumption)
      (auto simp: defs run hs_calls_def)
qed

theorem long_domain_reply_witness:
  "runs (followed_by (connect_sa sim_libevent id socks_base ''ooni.nu'' 80 ''sa'' 2 (7 :: nat) None)
      (run_all (deliver sim_libevent sim_arrive sim_flush socks_unique
        (run_socks_clo sim_libevent id socks_recorder) (run_socks_event sim_libevent id socks_recorder) 0)
        [Event 128, Readable [CHR 0x05, CHR 0x00], Readable [CHR 0x05, CHR 0x00],
         Readable ([CHR 0x00, CHR 0x03, char_of (250 :: nat)] @ ''ABC'')])) socks_demo
    (\<lambda>_ t. evst.more t = [(7, OK, Some 0)] \<and> (\<exists>p. sim_content (world t) (bufferevent_get_input sim_libevent p) =
       [CHR 0x00, CHR 0x00, CHR 0x03, char_of (250 :: nat)] @ ''ABC''))"
proof -
  let ?ys = "[[CHR 0x05, CHR 0x00], [CHR 0x00, CHR 0x03, char_of (250 :: nat)] @ ''ABC'']"
  have reply: "concat [[CHR 0x05, CHR 0x00]] = [CHR 0x05, CHR 0x00]"
    "concat ?ys = [CHR 0x05, CHR 0x00, CHR 0x00, CHR 0x03, char_of (250 :: nat)] @ ''ABC''"
    by simp_all
  have n: "128 \<le> (250 :: nat)" "250 < (256 :: nat)" "''ABC'' \<noteq> ''''" "length (concat ?ys) < 2 ^ 63"
    and host: "length ''ooni.nu'' \<le> 255" by simp_all
  have es: "[Event 128, Readable [CHR 0x05, CHR 0x00], Readable [CHR 0x05, CHR 0x00],
         Readable ([CHR 0x00, CHR 0x03, char_of (250 :: nat)] @ ''ABC'')] =
      Event (BEV_EVENT_CONNECTED sim_libevent) # map Readable [[CHR 0x05, CHR 0x00]] @ map Readable ?ys"
    by (simp add: sim_libevent_def)
  note long = long_domain_reply [OF sim_socks.socks_session_axioms host reply n es, where s = socks_demo and k = 7
      and port = 80 and sa = "''sa''" and len = 2 and timeout = None and evbase = socks_base, unfolded socks_demo_simps]
  show ?thesis by (rule runs_mono [OF long]) auto
qed

end
