(* ===== verification/Onion_Poller.thy ===== *)
theory Onion_Poller
  imports Onion_Ctrl
begin

text \<open>
  \<open>src/tor/onion-poller.hpp\<close>: the class \<open>OnionPoller\<close>, which runs tor inside the process, tells
  it over the control port to go online, and polls it until it has a circuit.

  A poller holds nothing but its event base, so an \<open>evbase\<close> stands for a \<open>Var<OnionPoller>\<close>.  The
  closures of the class are callbacks of \<open>OnionCtrl\<close>; the callback of the client is a value of a
  type \<open>'u\<close>, and \<open>user u (VoidReply status)\<close> is what calling it does.  \<open>UserClo\<close> is a closure that the
  client gives to a timer or to a bufferevent of its own.
\<close>

datatype 'u poller_cb =
    EnableAuthed nat evbase u32 'u
  | EnableSetconf nat evbase u32 'u
  | DisableAuthed nat 'u
  | DisableSetconf nat 'u
  | GiveUp nat 'u
  | WaitTimer nat evbase u32 u32 'u
  | WaitProgress nat evbase u32 u32 'u
  | BreakLoop
  | UserClo 'u

type_synonym ('u, 'w, 'z, 'a) poller_prog = "('u poller_cb, 'w, 'z, 'a) oc_prog"

type_synonym ('u, 'w, 'z) poller_user = "'u \<Rightarrow> reply \<Rightarrow> ('u, 'w, 'z, unit) poller_prog"

text \<open>
  The functions of tor as a library.  \<open>tor_on_started\<close> is given the call that tor makes when it
  has started, \<open>tor_main\<close> runs tor and its event loop.
\<close>

record ('u, 'w, 'z) libtor =
  tor_on_started :: "('u, 'w, 'z, unit) poller_prog \<Rightarrow> ('u, 'w, 'z, unit) poller_prog"
  tor_main :: "int \<Rightarrow> string list \<Rightarrow> ('u, 'w, 'z, unit) poller_prog"
  tor_break_loop :: "('u, 'w, 'z, unit) poller_prog"
  tor_libevent_get_base :: cptr

definition mk_onion_poller_cb ::
  "('u, 'w, 'z) libtor \<Rightarrow> (evbase \<Rightarrow> ('u, 'w, 'z, unit) poller_prog) \<Rightarrow> ('u, 'w, 'z, unit) poller_prog"
where
  "mk_onion_poller_cb T func = andthen (EventBase_assign (tor_libevent_get_base T) False) func"

definition loop ::
  "('u, 'w, 'z) libtor \<Rightarrow> (evbase \<Rightarrow> ('u, 'w, 'z, unit) poller_prog) \<Rightarrow> ('u, 'w, 'z, unit) poller_prog"
where
  "loop T func =
     (let argv = [''tor'', ''ControlPort'', ''9051'', ''DisableNetwork'', ''1'', ''ConnLimit'', ''50'']
      in followed_by (tor_on_started T (mk_onion_poller_cb T func)) (tor_main T 7 argv))"

definition break_loop :: "('u, 'w, 'z) libtor \<Rightarrow> evbase \<Rightarrow> ('u, 'w, 'z, unit) poller_prog" where
  "break_loop T poller = tor_break_loop T"

definition break_soon :: "'w libevent \<Rightarrow> evbase \<Rightarrow> ('u, 'w, 'z, unit) poller_prog" where
  "break_soon L poller =
     EventBase_once L poller (- 1) (EV_TIMEOUT L) (Once (ClientOnce BreakLoop))
       (Some \<lparr>tv_sec = 1, tv_usec = 1\<rparr>)"

text \<open>\<open>counter\<close> and \<open>timeout\<close> are of type \<open>unsigned\<close>.\<close>

definition wait_for_circuit ::
  "'w libevent \<Rightarrow> evbase \<Rightarrow> nat \<Rightarrow> 'u \<Rightarrow> u32 \<Rightarrow> u32 \<Rightarrow> ('u, 'w, 'z, unit) poller_prog" where
  "wait_for_circuit L poller ctrl cb timeout counter =
     (if timeout \<le> counter then setconf_disable_network L ctrl True (GiveUp ctrl cb)
      else EventBase_once L poller (- 1) (EV_TIMEOUT L)
        (Once (ClientOnce (WaitTimer ctrl poller counter timeout cb)))
        (Some \<lparr>tv_sec = 1, tv_usec = 0\<rparr>))"

text \<open>
  What calling the closures of the class does.  The arguments of a call are always those of the
  callback type the closure is used at.
\<close>

definition poller_client ::
  "'w libevent \<Rightarrow> ('u, 'w, 'z) libtor \<Rightarrow> ('u, 'w, 'z) poller_user \<Rightarrow> ('u poller_cb, 'w, 'z) oc_client"
where
  "poller_client L T user k r = (case (k, r) of
      (EnableAuthed ctrl poller timeout cb, VoidReply status) \<Rightarrow>
        if status \<noteq> OK then followed_by (close ctrl) (user cb (VoidReply status))
        else setconf_disable_network L ctrl False (EnableSetconf ctrl poller timeout cb)
    | (EnableSetconf ctrl poller timeout cb, VoidReply status) \<Rightarrow>
        if status \<noteq> OK then followed_by (close ctrl) (user cb (VoidReply status))
        else wait_for_circuit L poller ctrl cb timeout 0
    | (DisableAuthed ctrl cb, VoidReply status) \<Rightarrow>
        if status \<noteq> OK then followed_by (close ctrl) (user cb (VoidReply status))
        else setconf_disable_network L ctrl True (DisableSetconf ctrl cb)
    | (DisableSetconf ctrl cb, VoidReply status) \<Rightarrow>
        followed_by (close ctrl) (if status \<noteq> OK then user cb (VoidReply status) else user cb (VoidReply OK))
    | (GiveUp ctrl cb, VoidReply status) \<Rightarrow>
        followed_by (close ctrl) (if status \<noteq> OK then user cb (VoidReply status) else user cb (VoidReply GENERIC_ERROR))
    | (WaitTimer ctrl poller counter timeout cb, TimerReply _) \<Rightarrow>
        getinfo_status_bootstrap_phase_as_int L ctrl (WaitProgress ctrl poller counter timeout cb)
    | (WaitProgress ctrl poller counter timeout cb, IntReply status progress) \<Rightarrow>
        if status \<noteq> OK then followed_by (close ctrl) (user cb (VoidReply status))
        else if progress \<noteq> 100 then wait_for_circuit L poller ctrl cb timeout (counter + 1)
        else followed_by (close ctrl) (user cb (VoidReply OK))
    | (BreakLoop, TimerReply _) \<Rightarrow> tor_break_loop T
    | (UserClo u, r) \<Rightarrow> user u r
    | _ \<Rightarrow> raise (UndefinedBehaviour ''closure called at another type''))"

definition enable_tor ::
  "'w libevent \<Rightarrow> ('u, 'w, 'z) libtor \<Rightarrow> ('u, 'w, 'z) poller_user \<Rightarrow> evbase \<Rightarrow> 'u \<Rightarrow> u32 \<Rightarrow>
   ('u, 'w, 'z, unit) poller_prog" where
  "enable_tor L T user poller cb timeout =
     andthen (create poller)
       (\<lambda>ctrl. connect_and_authenticate L (poller_client L T user) ctrl
          (EnableAuthed ctrl poller timeout cb) '''' 9051 ''127.0.0.1'' None)"

definition disable_tor ::
  "'w libevent \<Rightarrow> ('u, 'w, 'z) libtor \<Rightarrow> ('u, 'w, 'z) poller_user \<Rightarrow> evbase \<Rightarrow> 'u \<Rightarrow>
   ('u, 'w, 'z, unit) poller_prog" where
  "disable_tor L T user poller cb =
     andthen (create poller)
       (\<lambda>ctrl. connect_and_authenticate L (poller_client L T user) ctrl
          (DisableAuthed ctrl cb) '''' 9051 ''127.0.0.1'' None)"

end
