(* ===== verification/Onion_Exchange.thy ===== *)
theory Onion_Exchange
  imports Onion_Session
begin

text \<open>
  Conversations of \<open>OnionCtrl\<close> step by step, for any client: each lemma says what client code is run
  when a reply arrives or an event is signalled, and leaves what that code does to its hypotheses.
\<close>

section \<open>Receiving line by line\<close>

context ctrl_session
begin

text \<open>A line the buffer begins with is consumed and handed to the callback; the loop goes on.\<close>

lemma recv_loop_line:
  assumes "attached c h p s" and "inbuf p s = wire (l # ls)" and "wf_line l"
    and "\<And>w. content w = (content (world s))(bufferevent_get_input L p := wire ls) \<Longrightarrow>
      line_args_of l = (st, ty, body) \<Longrightarrow>
      runs (run_line_clo client cb st ty body) (s\<lparr>world := w\<rparr>)
        (\<lambda>_ t. runs (recv_loop L client n c cb) t P)"
    and "line_args_of l = (st, ty, body)"
  shows "runs (recv_loop L client (Suc n) c cb) s P"
proof (rule recv_loop_step [OF assms(1)])
  obtain line where line: "find_eol (inbuf p s) = Some (length line, 2)"
    "take (length line) (inbuf p s) = line" "drop (length line + 2) (inbuf p s) = wire ls"
    "line \<noteq> []" "parse_reply_line line = (line_args_of l, True)"
    using reply_line_eol [OF assms(3), of "wire ls"] assms(2) by (auto simp: wire_def)
  {
    assume "find_eol (inbuf p s) = None"
    then show "P () s" using line by simp
  next
    fix n w assume "find_eol (inbuf p s) = Some (0, n)"
    then show "P () (s\<lparr>world := w\<rparr>)" using line by simp
  next
    fix pos m w st' ty' body' go_on
    assume eol: "find_eol (inbuf p s) = Some (pos, m)"
      and w: "content w = (content (world s))(bufferevent_get_input L p := drop (pos + m) (inbuf p s))"
      and parse: "parse_reply_line (take pos (inbuf p s)) = ((st', ty', body'), go_on)"
    from eol line have pos: "pos = length line" "m = 2" by simp_all
    with parse line assms(5) have "(st', ty', body') = (st, ty, body)" "go_on" by simp_all
    with assms(4) [of w] assms(5) w pos line(3)
    show "runs (if go_on
        then followed_by (run_line_clo client cb st' ty' body') (recv_loop L client n c cb)
        else run_line_clo client cb st' ty' body') (s\<lparr>world := w\<rparr>) P"
      by (simp add: runs_andthen)
  }
qed

lemma recv_loop_empty:
  assumes "attached c h p s" and "inbuf p s = ''''" and "P () s"
  shows "runs (recv_loop L client (Suc n) c cb) s P"
  by (rule recv_loop_step [OF assms(1)]) (use assms(2,3) in simp_all)

text \<open>The event of arriving bytes, when the callback that reads is installed.\<close>

lemma runs_bytes_arrive:
  assumes "receiving c h p cb s"
    and "\<And>w. content w = (content (world s))(bufferevent_get_input L p := inbuf p s @ x) \<Longrightarrow>
      runs (recv_loop L client fuel c cb) (s\<lparr>world := w\<rparr>) (\<lambda>_ t. attached c h p t \<and> P () t)"
  shows "runs (handle h (Readable x)) s P"
proof -
  from assms(1) obtain b where b: "bevs s h = Some b" "varp b" "bevp b = p"
    "read_cb b = Some (RecvRead c cb)"
    by (auto simp: callbacks_def attached_def)
  have "runs (run_ctrl_clo L client fuel (RecvRead c cb)) (s\<lparr>world := arrive p x (world s)\<rparr>)
      (\<lambda>_ t. attached c h p t \<and> P () t)"
    unfolding run_ctrl_clo_def ctrl_clo.case by (intro assms(2)) (simp add: arrives)
  with b refs callbacks_attached [OF assms(1)] show ?thesis
    by (simp add: handle_event_def deliver_def prog_simps mk_libevent_bev_read_def)
      (rule runs_bev_callback [of unique c h p], simp_all)
qed

lemma runs_reply_arrives:
  assumes "receiving c h p cb s" and "inbuf p s = ''''"
    and "\<And>w. content w = (content (world s))(bufferevent_get_input L p := x) \<Longrightarrow>
      runs (recv_loop L client fuel c cb) (s\<lparr>world := w\<rparr>) (\<lambda>_ t. attached c h p t \<and> P () t)"
  shows "runs (handle h (Readable x)) s P"
  by (rule runs_bytes_arrive [OF assms(1)], rule assms(3)) (simp add: assms(2))

lemma runs_getinfo_string:
  assumes "callbacks c h p r w e s"
  shows "runs (getinfo_status_bootstrap_phase_as_string L c cb) s
    (\<lambda>_ t. \<exists>res. sending c h p (GetinfoBootstrap cb res) t \<and> results t res = '''' \<and>
       onces t = onces s \<and> next_once t = next_once s \<and> steady s t \<and>
       outbuf p t = outbuf p s @ ''GETINFO status/bootstrap-phase'' @ crlf \<and> inbuf p t = inbuf p s)"
proof -
  let ?s = "s\<lparr>results := (results s)(next_result s := ''''), next_result := Suc (next_result s)\<rparr>"
  have "callbacks c h p r w e ?s" using assms by simp
  note conv = runs_sendrecv [OF this]
  show ?thesis
    unfolding getinfo_status_bootstrap_phase_as_string_def new_result_def
    by (simp add: runs_andthen runs_gets runs_modify runs_ret, rule runs_mono [OF conv])
      (auto simp: silent_def steady_def)
qed

end

section \<open>One reply\<close>

text \<open>The reply to the query for the bootstrap phase: two lines, one call.\<close>

definition phase_reply :: "nat \<Rightarrow> string" where
  "phase_reply n = wire [(250, CHR ''-'', ''status/bootstrap-phase='' @
      ''NOTICE BOOTSTRAP PROGRESS='' @ show_nat n), (250, CHR '' '', ''OK'')]"

context ctrl_session
begin

lemma runs_one_line:
  assumes "receiving c h p cb s" and "inbuf p s = ''''" and "wf_line l" and "2 \<le> fuel"
    and "line_args_of l = (st, ty, body)"
    and "\<And>w. content w = content (world s) \<Longrightarrow>
      runs (run_line_clo client cb st ty body) (s\<lparr>world := w\<rparr>)
        (\<lambda>_ t. attached c h p t \<and> inbuf p t = '''' \<and> P () t)"
  shows "runs (handle h (Readable (wire [l]))) s P"
proof (rule runs_reply_arrives [OF assms(1,2)])
  fix w
  assume w: "content w = (content (world s))(bufferevent_get_input L p := wire [l])"
  obtain n where fuel: "fuel = Suc (Suc n)" using assms(4) by (cases fuel; cases "fuel - 1") auto
  show "runs (recv_loop L client fuel c cb) (s\<lparr>world := w\<rparr>) (\<lambda>_ t. attached c h p t \<and> P () t)"
    unfolding fuel
  proof (rule recv_loop_line [where p = p and l = l and ls = "[]", OF _ _ assms(3) _ assms(5)])
    show "attached c h p (s\<lparr>world := w\<rparr>)" using assms(1) by (simp add: callbacks_attached)
    show "inbuf p (s\<lparr>world := w\<rparr>) = wire [l]" by (simp add: w)
    fix v
    assume "content v = (content (world (s\<lparr>world := w\<rparr>)))(bufferevent_get_input L p := wire [])"
    then have "content v = content (world s)" using assms(2) by (simp add: w wire_def fun_upd_idem)
    from assms(6) [OF this]
    have "runs (run_line_clo client cb st ty body) (s\<lparr>world := v\<rparr>)
        (\<lambda>_ t. runs (recv_loop L client (Suc n) c cb) t (\<lambda>_ t. attached c h p t \<and> P () t))"
      by (rule runs_mono) (elim conjE, rule recv_loop_empty, simp_all only: simp_thms)
    then show "runs (run_line_clo client cb st ty body) ((s\<lparr>world := w\<rparr>)\<lparr>world := v\<rparr>)
        (\<lambda>_ t. runs (recv_loop L client (Suc n) c cb) t (\<lambda>_ t. attached c h p t \<and> P () t))"
      by simp
  qed
qed

lemma runs_phase_reply:
  assumes "receiving c h p (GetinfoBootstrap (BootstrapInt k) res) s" and "inbuf p s = ''''"
    and "n < 1000" and "3 \<le> fuel"
    and "\<And>t. receiving c h p (GetinfoBootstrap (BootstrapInt k) res) t \<Longrightarrow> inbuf p t = '''' \<Longrightarrow>
      onces t = onces s \<Longrightarrow> next_once t = next_once s \<Longrightarrow> steady s t \<Longrightarrow> content (world t) = content (world s) \<Longrightarrow>
      runs (client k (IntReply OK (int n))) t (\<lambda>_ u. attached c h p u \<and> inbuf p u = '''' \<and> P () u)"
  shows "runs (handle h (Readable (phase_reply n))) s P"
proof (rule runs_reply_arrives [OF assms(1,2)])
  define b where "b = ''NOTICE BOOTSTRAP PROGRESS='' @ show_nat n"
  let ?l = "(250, CHR ''-'', ''status/bootstrap-phase='' @ b)"
  let ?m = "(250, CHR '' '', ''OK'')"
  let ?cb = "GetinfoBootstrap (BootstrapInt k) res"
  fix w
  assume w: "content w = (content (world s))(bufferevent_get_input L p := phase_reply n)"
  obtain j where fuel: "fuel = Suc (Suc (Suc j))"
    using assms(4) by (cases fuel; cases "fuel - 1"; cases "fuel - 2") auto
  have phase: "bootstrap_tokens (words b) 0 = (OK, int n)"
    using bootstrap_text [OF assms(3), of "''''"] by (simp add: b_def)
  have "CHR 0x0A \<notin> set b" "CHR 0x0D \<notin> set b"
    using show_nat_digits [of n] by (auto simp: b_def isdigit_def uchar_def)
  then have wf: "wf_line ?l" "wf_line ?m" by (auto simp: wf_line_def list_all_iff)
  have 23: "length ''status/bootstrap-phase='' = 23" by simp
  have args: "line_args_of ?l = (OK, CHR ''-'', ''status/bootstrap-phase='' @ b)"
    "line_args_of ?m = (OK, CHR '' '', ''OK'')"
    by (simp_all add: line_args_of_def reply_status_def)
  have first: "run_line_clo client ?cb OK (CHR ''-'') (''status/bootstrap-phase='' @ b) =
      modify (\<lambda>s. s\<lparr>results := (results s)(res := b)\<rparr>)"
    unfolding run_line_clo_def 23
    by (rule ext) (simp add: str_find_0_iff substr_in_range andthen_ret modify_def)
  have second: "run_line_clo client ?cb OK (CHR '' '') ''OK'' t = client k (IntReply OK (int n)) t"
    if "results t res = b" for t
    using that by (simp add: run_line_clo_def run_string_clo_def andthen_run gets_run
        parse_bootstrap_progress_eq phase ret_run)
  have att: "attached c h p s" using assms(1) by (rule callbacks_attached)
  show "runs (recv_loop L client fuel c ?cb) (s\<lparr>world := w\<rparr>) (\<lambda>_ t. attached c h p t \<and> P () t)"
    unfolding fuel
  proof (rule recv_loop_line [where p = p and l = ?l and ls = "[?m]", OF _ _ wf(1) _ args(1)])
    show "attached c h p (s\<lparr>world := w\<rparr>)" using att by simp
    show "inbuf p (s\<lparr>world := w\<rparr>) = wire [?l, ?m]" by (simp add: w phase_reply_def b_def)
    fix v
    assume v: "content v = (content (world (s\<lparr>world := w\<rparr>)))(bufferevent_get_input L p := wire [?m])"
    let ?t = "s\<lparr>world := v, results := (results s)(res := b)\<rparr>"
    have "runs (recv_loop L client (Suc (Suc j)) c ?cb) ?t (\<lambda>_ t. attached c h p t \<and> P () t)"
    proof (rule recv_loop_line [where p = p and l = ?m and ls = "[]", OF _ _ wf(2) _ args(2)])
      show "attached c h p ?t" using att by simp
      show "inbuf p ?t = wire [?m]" by (simp add: v)
      fix x
      assume x: "content x = (content (world ?t))(bufferevent_get_input L p := wire [])"
      have same: "content x = content (world s)"
        using assms(2) by (simp add: x v w wire_def fun_upd_idem)
      have "runs (client k (IntReply OK (int n))) (?t\<lparr>world := x\<rparr>)
          (\<lambda>_ u. attached c h p u \<and> inbuf p u = '''' \<and> P () u)"
        by (rule assms(5)) (use assms(1,2) same in \<open>simp_all add: callbacks_def attached_def steady_def\<close>)
      then have "runs (client k (IntReply OK (int n))) (?t\<lparr>world := x\<rparr>)
          (\<lambda>_ u. runs (recv_loop L client (Suc j) c ?cb) u (\<lambda>_ t. attached c h p t \<and> P () t))"
        by (rule runs_mono) (elim conjE, rule recv_loop_empty, simp_all only: simp_thms)
      then show "runs (run_line_clo client ?cb OK (CHR '' '') ''OK'') (?t\<lparr>world := x\<rparr>)
          (\<lambda>_ u. runs (recv_loop L client (Suc j) c ?cb) u (\<lambda>_ t. attached c h p t \<and> P () t))"
        by (simp add: runs_def second)
    qed
    then show "runs (run_line_clo client ?cb OK (CHR ''-'') (''status/bootstrap-phase='' @ b))
        ((s\<lparr>world := w\<rparr>)\<lparr>world := v\<rparr>)
        (\<lambda>_ t. runs (recv_loop L client (Suc (Suc j)) c ?cb) t (\<lambda>_ t. attached c h p t \<and> P () t))"
      unfolding first by (simp add: runs_modify)
  qed
qed

end

section \<open>A command and its reply\<close>

context ctrl_session
begin

text \<open>A command goes out and one line comes back.\<close>

abbreviation exchange :: "nat \<Rightarrow> nat \<times> char \<times> string \<Rightarrow> ('k, 'w, 'z, unit) oc_prog" where
  "exchange h l \<equiv> followed_by (handle h Writable) (handle h (Readable (wire [l])))"

lemma runs_exchange:
  assumes "sending c h p cb s" and "inbuf p s = ''''" and "wf_line l" and "2 \<le> fuel"
    and "line_args_of l = (st, ty, body)"
    and "\<And>y. receiving c h p cb y \<Longrightarrow> inbuf p y = '''' \<Longrightarrow> silent s y \<Longrightarrow> outbuf p y = '''' \<Longrightarrow>
      runs (run_line_clo client cb st ty body) y
        (\<lambda>_ t. attached c h p t \<and> inbuf p t = '''' \<and> P () t)"
  shows "runs (exchange h l) s P"
  unfolding runs_andthen
proof (rule runs_mono [OF runs_writable [OF assms(1)]], elim conjE)
  fix t
  assume t: "receiving c h p cb t" "silent s t" "inbuf p t = inbuf p s" "outbuf p t = ''''"
  show "runs (handle h (Readable (wire [l]))) t P"
  proof (rule runs_one_line [OF t(1) _ assms(3,4,5)])
    show "inbuf p t = ''''" using t(3) assms(2) by simp
    fix w assume "content w = content (world t)"
    with t assms(2) show "runs (run_line_clo client cb st ty body) (t\<lparr>world := w\<rparr>)
        (\<lambda>_ t. attached c h p t \<and> inbuf p t = '''' \<and> P () t)"
      by (intro assms(6)) (simp_all add: silent_def)
  qed
qed

text \<open>The same, with what the peer reads: exactly the command.\<close>

abbreviation asked :: "nat \<Rightarrow> string \<Rightarrow> nat \<times> char \<times> string \<Rightarrow> ('k, 'w, 'z, unit) oc_prog" where
  "asked h command l \<equiv> followed_by (peer_reads L content handle h command) (handle h (Readable (wire [l])))"

lemma runs_peer_reads:
  assumes "sending c h p cb s" and "outbuf p s = command"
  shows "runs (followed_by (peer_reads L content handle h command) m) s P \<longleftrightarrow> runs (followed_by (handle h Writable) m) s P"
proof -
  have "output_is L content h command s"
    using assms by (auto simp: output_is_def callbacks_def attached_def)
  then show ?thesis by (simp add: runs_andthen runs_expects)
qed

lemma runs_asked:
  assumes "sending c h p cb s" and "inbuf p s = ''''" and "outbuf p s = command" and "wf_line l" and "2 \<le> fuel"
    and "line_args_of l = (st, ty, body)"
    and "\<And>y. receiving c h p cb y \<Longrightarrow> inbuf p y = '''' \<Longrightarrow> silent s y \<Longrightarrow> outbuf p y = '''' \<Longrightarrow>
      runs (run_line_clo client cb st ty body) y
        (\<lambda>_ t. attached c h p t \<and> inbuf p t = '''' \<and> P () t)"
  shows "runs (asked h command l) s P"
  unfolding runs_peer_reads [OF assms(1,3)] by (rule runs_exchange [OF assms(1,2,4-6)]) (rule assms(7))

abbreviation ok_line :: "nat \<times> char \<times> string" where
  "ok_line \<equiv> (250, CHR '' '', ''OK'')"

lemma ok_line: "wf_line ok_line" "line_args_of ok_line = (OK, CHR '' '', ''OK'')"
  by (simp_all add: wf_line_def line_args_of_def reply_status_def)

text \<open>An event that makes the closure of a connection run a line callback, or the one of \<open>connect\<close>.\<close>

lemma runs_event:
  assumes "callbacks c h p r w (Some clo) s"
    and "runs (run_ctrl_event L client clo what) s (\<lambda>_ t. attached c h p t \<and> P () t)"
  shows "runs (handle h (Event what)) s P"
proof -
  from assms(1) obtain b where "bevs s h = Some b" "varp b" "event_cb b = Some clo"
    by (auto simp: callbacks_def)
  with refs callbacks_attached [OF assms(1)] assms(2) show ?thesis
    by (simp add: handle_event_def deliver_def mk_libevent_bev_event_def)
      (rule runs_bev_callback [of unique c h p], simp_all)
qed

text \<open>From a controller without a bufferevent to one that is connecting.\<close>

lemma runs_connect_and_authenticate:
  assumes "ctrls s c = Some x" and "ctrl_bev x = None"
    and "fst (evutil_parse_sockaddr_port L (c_str (address @ '':'' @ show_int port)) 128) = 0"
  shows "runs (connect_and_authenticate L client c k token port address timeout) s
    (\<lambda>_ t. silent (s\<lparr>next_bev := Suc (next_bev s)\<rparr>) t \<and> content (world t) = content (world s) \<and>
       (\<forall>d. d \<noteq> c \<longrightarrow> ctrls t d = ctrls s d) \<and> (\<forall>g. g \<noteq> next_bev s \<longrightarrow> bevs t g = bevs s g) \<and>
       (\<exists>p. connecting c (next_bev s) p token k t \<and> inbuf p t = '''' \<and> outbuf p t = ''''))"
proof -
  let ?e = "address @ '':'' @ show_int port"
  obtain rc sa len where e: "evutil_parse_sockaddr_port L (c_str ?e) 128 = (rc, sa, len)"
    by (rule prod_cases3)
  then have "rc = 0" using assms(3) by (simp only: fst_conv)
  then have "parse_sockaddr_port L ?e 128 = (NoError, sa, len)"
    unfolding parse_sockaddr_port_def e by simp
  then have "connect_and_authenticate L client c k token port address timeout =
      connect L client c sa len (ConnAuth token c k) timeout"
    by (simp add: connect_and_authenticate_def connect_and_authenticate_epnt_def
        connect_and_authenticate_sa_def error_neq_int_def sizeof_sockaddr_storage_def
        declared_error_defs)
  then show ?thesis
    by simp (rule runs_connect [OF assms(1,2)])
qed

end

section \<open>A command and its reply, outside the contract\<close>

abbreviation line_asked ::
  "'w libevent \<Rightarrow> ('w \<Rightarrow> cptr \<Rightarrow> string) \<Rightarrow> (cptr \<Rightarrow> string \<Rightarrow> 'w \<Rightarrow> 'w) \<Rightarrow> (cptr \<Rightarrow> 'w \<Rightarrow> 'w) \<Rightarrow>
   (nat \<Rightarrow> ('k, 'w, 'z) ocst_scheme \<Rightarrow> bool) \<Rightarrow> ('k, 'w, 'z) oc_client \<Rightarrow> nat \<Rightarrow> nat \<Rightarrow> string \<Rightarrow>
   nat \<times> char \<times> string \<Rightarrow> ('k, 'w, 'z, unit) oc_prog" where
  "line_asked L content arrive flush unique client fuel h command l \<equiv>
     followed_by (peer_reads L content (handle_event L arrive flush unique client fuel) h command)
       (handle_event L arrive flush unique client fuel h (Readable (wire [l])))"

abbreviation line_exchange ::
  "'w libevent \<Rightarrow> (cptr \<Rightarrow> string \<Rightarrow> 'w \<Rightarrow> 'w) \<Rightarrow> (cptr \<Rightarrow> 'w \<Rightarrow> 'w) \<Rightarrow>
   (nat \<Rightarrow> ('k, 'w, 'z) ocst_scheme \<Rightarrow> bool) \<Rightarrow> ('k, 'w, 'z) oc_client \<Rightarrow> nat \<Rightarrow> nat \<Rightarrow>
   nat \<times> char \<times> string \<Rightarrow> ('k, 'w, 'z, unit) oc_prog" where
  "line_exchange L arrive flush unique client fuel h l \<equiv>
     followed_by (handle_event L arrive flush unique client fuel h Writable)
       (handle_event L arrive flush unique client fuel h (Readable (wire [l])))"

end
