(* ===== verification/Poller_Session.thy ===== *)
theory Poller_Session
  imports Onion_Poller Onion_Exchange
begin

text \<open>
  Conversations of \<open>OnionPoller\<close> with tor: what its closures do, one by one, and whole runs of
  polling from the moment the network is enabled to the report to the client.
\<close>

section \<open>Any client of the poller\<close>

text \<open>
  Any tor library, and any client.  The lemmas follow the closures of the poller up to the call of the
  client, \<open>user u (VoidReply st)\<close>; what that call does is their hypothesis.
\<close>

lemma unat_Suc_u32:
  assumes "(a :: u32) < b"
  shows "unat (a + 1) = Suc (unat a)" and "b \<le> a + 1 \<longleftrightarrow> unat b = Suc (unat a)"
proof -
  have "unat a < unat b" using assms by (simp add: word_less_nat_alt)
  moreover have "unat b < 2 ^ 32" using unsigned_less [of b] by simp
  ultimately show *: "unat (a + 1) = Suc (unat a)"
    using unat_add_lem [of a 1] by simp
  show "b \<le> a + 1 \<longleftrightarrow> unat b = Suc (unat a)"
    using \<open>unat a < unat b\<close> by (auto simp: word_le_nat_alt *)
qed

locale poller_calls = ctrl_session L content arrive flush "poller_client L T user" unique fuel
  for L :: "'w libevent" and content :: "'w \<Rightarrow> cptr \<Rightarrow> string"
    and arrive :: "cptr \<Rightarrow> string \<Rightarrow> 'w \<Rightarrow> 'w" and flush :: "cptr \<Rightarrow> 'w \<Rightarrow> 'w"
    and T :: "('u, 'w, 'z) libtor" and user :: "('u, 'w, 'z) poller_user"
    and unique :: "nat \<Rightarrow> ('u poller_cb, 'w, 'z) ocst_scheme \<Rightarrow> bool" and fuel :: nat
begin

abbreviation client :: "('u poller_cb, 'w, 'z) oc_client" where
  "client \<equiv> poller_client L T user"

text \<open>The connection is closed: the state in which every ending calls the client.\<close>

abbreviation cleared :: "nat \<Rightarrow> nat \<Rightarrow> cptr \<Rightarrow> ('u poller_cb, 'w, 'z) ocst_scheme \<Rightarrow> bool" where
  "cleared c h p s \<equiv> callbacks c h p None None None s"

text \<open>The poller is between two polls: the timer is set, and nothing is unread.\<close>

definition waiting ::
  "nat \<Rightarrow> nat \<Rightarrow> cptr \<Rightarrow> evbase \<Rightarrow> u32 \<Rightarrow> u32 \<Rightarrow> 'u \<Rightarrow> ('u poller_cb, 'w, 'z) ocst_scheme \<Rightarrow> bool"
where
  "waiting c h p poller timeout counter u s \<longleftrightarrow> (\<exists>r w e. callbacks c h p r w e s) \<and>
     inbuf p s = '''' \<and> outbuf p s = '''' \<and> 0 < next_once s \<and>
     onces s (next_once s - 1) = Some (Once (ClientOnce (WaitTimer c poller counter timeout u)))"

text \<open>The poller has given up and waits for the answer to its last command.\<close>

definition giving_up :: "nat \<Rightarrow> nat \<Rightarrow> cptr \<Rightarrow> 'u \<Rightarrow> ('u poller_cb, 'w, 'z) ocst_scheme \<Rightarrow> bool" where
  "giving_up c h p u s \<longleftrightarrow> sending c h p (DoVoid (GiveUp c u)) s \<and> inbuf p s = '''' \<and>
     outbuf p s = ''SETCONF DisableNetwork=1'' @ crlf"

text \<open>
  The callbacks for the last reply are still installed, and will tell the client of an error: the reply
  to the command that enabled the network, or to the last query.
\<close>

fun reports_to :: "nat \<Rightarrow> 'u \<Rightarrow> 'u poller_cb line_clo \<Rightarrow> bool" where
  "reports_to c u (DoVoid (EnableSetconf d _ _ v)) = (d = c \<and> v = u)"
| "reports_to c u (GetinfoBootstrap (BootstrapInt (WaitProgress d _ _ _ v)) _) = (d = c \<and> v = u)"
| "reports_to c u _ = False"

definition polling ::
  "nat \<Rightarrow> nat \<Rightarrow> cptr \<Rightarrow> evbase \<Rightarrow> u32 \<Rightarrow> u32 \<Rightarrow> 'u \<Rightarrow> ('u poller_cb, 'w, 'z) ocst_scheme \<Rightarrow> bool"
where
  "polling c h p poller timeout counter u s \<longleftrightarrow> waiting c h p poller timeout counter u s \<and>
     (\<exists>cb. receiving c h p cb s \<and> reports_to c u cb)"

text \<open>libevent fires the timer that was set last; one poll.\<close>

abbreviation fire :: "('u poller_cb, 'w, 'z, unit) oc_prog" where
  "fire \<equiv> andthen (gets (\<lambda>s. next_once s - 1))
     (mk_libevent_event_cb L unique (run_ctrl_event L client) (EV_TIMEOUT L))"

abbreviation poll :: "nat \<Rightarrow> nat \<Rightarrow> ('u poller_cb, 'w, 'z, unit) oc_prog" where
  "poll h n \<equiv> followed_by fire
     (followed_by (peer_reads L content handle h (''GETINFO status/bootstrap-phase'' @ crlf))
       (handle h (Readable (phase_reply n))))"

text \<open>What \<open>wait_for_circuit\<close> leaves: the poller has given up, or waits.\<close>

definition undecided ::
  "nat \<Rightarrow> nat \<Rightarrow> cptr \<Rightarrow> evbase \<Rightarrow> u32 \<Rightarrow> u32 \<Rightarrow> 'u \<Rightarrow> ('u poller_cb, 'w, 'z) ocst_scheme \<Rightarrow> bool"
where
  "undecided c h p poller timeout counter u s \<longleftrightarrow>
     (if timeout \<le> counter then giving_up c h p u s else polling c h p poller timeout counter u s)"

lemma undecided_attached: "undecided c h p poller timeout counter u s \<Longrightarrow> attached c h p s \<and> inbuf p s = ''''"
  by (auto simp: undecided_def polling_def waiting_def giving_up_def callbacks_attached split: if_splits)

lemma runs_wait_for_circuit:
  assumes "receiving c h p cb s" and "reports_to c u cb" and "inbuf p s = ''''" and "outbuf p s = ''''"
  shows "runs (wait_for_circuit L poller c u timeout counter) s
    (\<lambda>_ t. steady s t \<and> undecided c h p poller timeout counter u t)"
proof (cases "timeout \<le> counter")
  case True
  with assms show ?thesis
    unfolding wait_for_circuit_def setconf_disable_network_def cmd_disable_network_def
    by simp (rule runs_mono [OF runs_sendrecv [OF assms(1)]],
      auto simp: undecided_def giving_up_def silent_steady)
next
  case False
  show ?thesis
    unfolding wait_for_circuit_def using False assms
    by simp (rule runs_once, auto simp: undecided_def polling_def waiting_def steady_def)
qed

text \<open>Every ending closes the connection and calls the client.\<close>

lemma runs_close_then:
  assumes "callbacks c h p r w e s"
    and "\<And>t. cleared c h p t \<Longrightarrow> silent s t \<Longrightarrow> world t = world s \<Longrightarrow> runs m t P"
  shows "runs (followed_by (close c) m) s P"
  unfolding runs_andthen
  by (rule runs_mono [OF runs_close [OF assms(1)]]) (use assms(2) in auto)

lemma runs_fire:
  assumes "waiting c h p poller timeout counter u s"
  shows "runs fire s
    (\<lambda>_ t. \<exists>res. sending c h p (GetinfoBootstrap (BootstrapInt
         (WaitProgress c poller counter timeout u)) res) t \<and> inbuf p t = '''' \<and>
       outbuf p t = ''GETINFO status/bootstrap-phase'' @ crlf \<and> steady s t)"
proof -
  obtain r w e where cbs: "callbacks c h p r w e s" using assms by (auto simp: waiting_def)
  note conv = runs_getinfo_string [OF cbs,
      where cb = "BootstrapInt (WaitProgress c poller counter timeout u)"]
  show ?thesis
    using assms
    by (simp add: waiting_def runs_andthen runs_gets mk_libevent_event_cb_def run_once_clo_def
        run_ctrl_event_def poller_client_def getinfo_status_bootstrap_phase_as_int_def)
      (rule runs_mono [OF conv], auto simp: delete_once_def runs_modify steady_def)
qed

text \<open>One poll, up to what the closure does with the phase.\<close>

lemma runs_poll_phase:
  assumes "waiting c h p poller timeout counter u s" and "n < 1000" and "3 \<le> fuel"
    and "\<And>x res. receiving c h p (GetinfoBootstrap (BootstrapInt (WaitProgress c poller counter timeout u)) res) x \<Longrightarrow>
      inbuf p x = '''' \<Longrightarrow> outbuf p x = '''' \<Longrightarrow> steady s x \<Longrightarrow>
      runs (client (WaitProgress c poller counter timeout u) (IntReply OK (int n))) x
        (\<lambda>_ y. attached c h p y \<and> inbuf p y = '''' \<and> P () y)"
  shows "runs (poll h n) s P"
proof (subst runs_andthen, rule runs_mono [OF runs_fire [OF assms(1)]], elim exE conjE)
  fix t res
  let ?k = "WaitProgress c poller counter timeout u"
  assume t: "sending c h p (GetinfoBootstrap (BootstrapInt ?k) res) t" "inbuf p t = ''''" "steady s t"
    "outbuf p t = ''GETINFO status/bootstrap-phase'' @ crlf"
  show "runs (followed_by (peer_reads L content handle h (''GETINFO status/bootstrap-phase'' @ crlf))
      (handle h (Readable (phase_reply n)))) t P"
    unfolding runs_peer_reads [OF t(1,4)]
  proof (subst runs_andthen, rule runs_mono [OF runs_writable [OF t(1)]], elim conjE)
    fix v
    assume v: "receiving c h p (GetinfoBootstrap (BootstrapInt ?k) res) v" "silent t v"
      "inbuf p v = inbuf p t" "outbuf p v = ''''"
    show "runs (handle h (Readable (phase_reply n))) v P"
    proof (rule runs_phase_reply [OF v(1) _ assms(2,3)])
      show "inbuf p v = ''''" using v(3) t(2) by simp
      fix x
      assume x: "receiving c h p (GetinfoBootstrap (BootstrapInt ?k) res) x" "inbuf p x = ''''" "steady v x"
        and same: "content (world x) = content (world v)"
      have out: "outbuf p x = ''''" using same v(4) by simp
      have "steady s x" using steady_trans [OF t(3) steady_trans [OF silent_steady [OF v(2)] x(3)]] .
      from assms(4) [OF x(1,2) out this]
      show "runs (client ?k (IntReply OK (int n))) x (\<lambda>_ y. attached c h p y \<and> inbuf p y = '''' \<and> P () y)" .
    qed
  qed
qed

lemma runs_poll_goes_on:
  assumes "waiting c h p poller timeout counter u s" and "n < 1000" and "n \<noteq> 100" and "3 \<le> fuel"
  shows "runs (poll h n) s (\<lambda>_ t. steady s t \<and> undecided c h p poller timeout (counter + 1) u t)"
proof (rule runs_poll_phase [OF assms(1,2,4)])
  fix x res
  assume x: "receiving c h p (GetinfoBootstrap (BootstrapInt (WaitProgress c poller counter timeout u)) res) x"
    "inbuf p x = ''''" "outbuf p x = ''''" "steady s x"
  show "runs (client (WaitProgress c poller counter timeout u) (IntReply OK (int n))) x
      (\<lambda>_ y. attached c h p y \<and> inbuf p y = '''' \<and>
         steady s y \<and> undecided c h p poller timeout (counter + 1) u y)"
    using assms(3)
    by (simp add: poller_client_def, intro runs_mono [OF runs_wait_for_circuit [OF x(1) _ x(2,3)]])
      (use x(4) in \<open>auto dest: undecided_attached steady_trans\<close>)
qed

lemma runs_poll_done:
  assumes "waiting c h p poller timeout counter u s" and "3 \<le> fuel"
    and "\<And>t. cleared c h p t \<Longrightarrow> inbuf p t = '''' \<Longrightarrow> steady s t \<Longrightarrow>
      runs (user u (VoidReply OK)) t (\<lambda>_ y. attached c h p y \<and> inbuf p y = '''' \<and> P () y)"
  shows "runs (poll h 100) s P"
proof (rule runs_poll_phase [OF assms(1) _ assms(2)])
  fix x res
  assume x: "receiving c h p (GetinfoBootstrap (BootstrapInt (WaitProgress c poller counter timeout u)) res) x"
    "inbuf p x = ''''" "steady s x"
  have call: "client (WaitProgress c poller counter timeout u) (IntReply OK (int 100)) =
      followed_by (close c) (user u (VoidReply OK))"
    by (simp add: poller_client_def)
  show "runs (client (WaitProgress c poller counter timeout u) (IntReply OK (int 100))) x
      (\<lambda>_ y. attached c h p y \<and> inbuf p y = '''' \<and> P () y)"
    unfolding call
    by (rule runs_close_then [OF x(1)], rule assms(3))
      (use x in \<open>auto dest: silent_steady steady_trans\<close>)
qed simp

lemma runs_polls_go_on:
  assumes "polling c h p poller timeout counter u s" and "counter < timeout"
    and "\<forall>n \<in> set ns. n < 1000 \<and> n \<noteq> 100" and "unat counter + length ns \<le> unat timeout"
    and "3 \<le> fuel"
  shows "runs (run_all (poll h) ns) s
    (\<lambda>_ t. steady s t \<and>
       (if unat counter + length ns = unat timeout then giving_up c h p u t
        else polling c h p poller timeout (counter + word_of_nat (length ns)) u t))"
  using assms(1-4)
proof (induction ns arbitrary: s counter)
  case Nil
  then show ?case by (auto simp: runs_ret word_less_nat_alt steady_refl)
next
  case (Cons n ns)
  have n: "n < 1000" "n \<noteq> 100" using Cons.prems(3) by simp_all
  note suc = unat_Suc_u32 [OF Cons.prems(2)]
  have w: "waiting c h p poller timeout counter u s" using Cons.prems(1) by (simp add: polling_def)
  show ?case
    unfolding run_all.simps
  proof (subst runs_andthen, rule runs_mono [OF runs_poll_goes_on [OF w n assms(5)]], elim conjE)
    fix t
    assume t: "steady s t" "undecided c h p poller timeout (counter + 1) u t"
    show "runs (run_all (poll h) ns) t (\<lambda>_ t. steady s t \<and>
       (if unat counter + length (n # ns) = unat timeout then giving_up c h p u t
        else polling c h p poller timeout (counter + word_of_nat (length (n # ns))) u t))"
    proof (cases "timeout \<le> counter + 1")
      case True
      then have "ns = []" using Cons.prems(4) suc by simp
      with True t suc show ?thesis by (simp add: runs_ret undecided_def)
    next
      case False
      have "runs (run_all (poll h) ns) t (\<lambda>_ x. steady t x \<and>
         (if unat (counter + 1) + length ns = unat timeout then giving_up c h p u x
          else polling c h p poller timeout (counter + 1 + word_of_nat (length ns)) u x))"
        by (rule Cons.IH) (use False t Cons.prems suc in \<open>auto simp: undecided_def\<close>)
      then show ?thesis
        using t(1) suc(1) by (elim runs_mono) (auto simp: algebra_simps intro: steady_trans)
    qed
  qed
qed

text \<open>From a new controller to the connected state.\<close>

abbreviation endpoint_ok :: bool where
  "endpoint_ok \<equiv> fst (evutil_parse_sockaddr_port L
     (c_str (''127.0.0.1'' @ '':'' @ show_int 9051)) 128) = 0"

text \<open>A new controller is connecting; the other objects are as they were.\<close>

definition started :: "('u poller_cb, 'w, 'z) ocst_scheme \<Rightarrow> ('u poller_cb, 'w, 'z) ocst_scheme \<Rightarrow> bool" where
  "started s t \<longleftrightarrow> ocst.more t = ocst.more s \<and> content (world t) = content (world s) \<and>
     next_ctrl t = Suc (next_ctrl s) \<and> next_bev t = Suc (next_bev s) \<and> same_helpers s t \<and>
     (\<forall>d. d \<noteq> next_ctrl s \<longrightarrow> ctrls t d = ctrls s d) \<and> (\<forall>g. g \<noteq> next_bev s \<longrightarrow> bevs t g = bevs s g)"

lemma runs_started:
  assumes "endpoint_ok"
  shows "runs (andthen (create poller) (\<lambda>ctrl. connect_and_authenticate L client ctrl (k ctrl) ''''
      9051 ''127.0.0.1'' None)) s
    (\<lambda>_ t. started s t \<and> (\<exists>p. connecting (next_ctrl s) (next_bev s) p '''' (k (next_ctrl s)) t \<and>
       inbuf p t = '''' \<and> outbuf p t = ''''))"
  by (simp add: create_def runs_andthen runs_gets runs_modify runs_ret)
    (rule runs_mono [OF runs_connect_and_authenticate [OF _ _ assms,
      where x = "\<lparr>ctrl_evbase = poller, ctrl_bev = None\<rparr>"]], auto simp: started_def silent_def)

text \<open>
  The two commands of a session, which tor reads and accepts: the authentication, and a change of
  \<open>DisableNetwork\<close>.
\<close>

abbreviation sets_network :: "nat \<Rightarrow> bool \<Rightarrow> ('u poller_cb, 'w, 'z, unit) oc_prog" where
  "sets_network h off \<equiv> followed_by (handle h (Event (BEV_EVENT_CONNECTED L)))
     (followed_by (asked h (''AUTHENTICATE'' @ crlf) ok_line)
       (asked h (''SETCONF DisableNetwork='' @ (if off then ''1'' else ''0'') @ crlf) ok_line))"

lemma runs_two_commands:
  assumes "connecting c h p '''' k s" and "inbuf p s = ''''" and "outbuf p s = ''''" and "2 \<le> fuel"
    and "client k (VoidReply OK) = setconf_disable_network L c v k'"
    and "\<And>y. receiving c h p (DoVoid k') y \<Longrightarrow> inbuf p y = '''' \<Longrightarrow> outbuf p y = '''' \<Longrightarrow> silent s y \<Longrightarrow>
      runs (client k' (VoidReply OK)) y (\<lambda>_ t. attached c h p t \<and> inbuf p t = '''' \<and> P () t)"
  shows "runs (sets_network h v) s P"
proof (subst runs_andthen, rule runs_mono [OF runs_connected [OF assms(1)]], elim conjE)
  fix t
  let ?auth = "''AUTHENTICATE'' @ crlf" and ?conf = "''SETCONF DisableNetwork='' @ (if v then ''1'' else ''0'') @ crlf"
  assume t: "sending c h p (AuthReply k) t" "silent s t" "inbuf p t = inbuf p s"
    and out: "outbuf p t = outbuf p s @ cmd_authenticate ''''"
  have auth: "run_line_clo client (AuthReply k) OK (CHR '' '') ''OK'' = setconf_disable_network L c v k'"
    and conf: "run_line_clo client (DoVoid k') OK (CHR '' '') ''OK'' = client k' (VoidReply OK)"
    by (simp_all add: run_line_clo_def do_void_cb_def assms(5))
  have second: "runs (asked h ?conf ok_line) x P"
    if x: "sending c h p (DoVoid k') x" "inbuf p x = ''''" "outbuf p x = ?conf" "silent s x" for x
  proof (rule runs_asked [OF x(1-3) ok_line(1) assms(4) ok_line(2)], unfold conf)
    fix y
    assume "receiving c h p (DoVoid k') y" "inbuf p y = ''''" "silent x y" "outbuf p y = ''''"
    with silent_trans [OF x(4)] show "runs (client k' (VoidReply OK)) y
        (\<lambda>_ t. attached c h p t \<and> inbuf p t = '''' \<and> P () t)"
      by (intro assms(6)) blast+
  qed
  have "inbuf p t = ''''" and "outbuf p t = ?auth" using t(3) out assms(2,3) by (simp_all add: cmd_authenticate_def)
  then show "runs (followed_by (asked h ?auth ok_line) (asked h ?conf ok_line)) t P"
  proof (subst runs_andthen, intro runs_asked [OF t(1) _ _ ok_line(1) assms(4) ok_line(2)], unfold auth)
    fix y
    assume y: "receiving c h p (AuthReply k) y" "inbuf p y = ''''" "silent t y" "outbuf p y = ''''"
    show "runs (setconf_disable_network L c v k') y
        (\<lambda>_ t. attached c h p t \<and> inbuf p t = '''' \<and> runs (asked h ?conf ok_line) t P)"
      unfolding setconf_disable_network_def
      by (rule runs_mono [OF runs_sendrecv [OF y(1)]], elim conjE, intro conjI second)
        (use t(2) y(2-4) in \<open>auto simp: cmd_disable_network_def dest: callbacks_attached silent_trans\<close>)
  qed
qed

lemma runs_enable_tor_steady:
  assumes "endpoint_ok" and "2 \<le> fuel"
  shows "runs (followed_by (enable_tor L T user poller u timeout) (sets_network (next_bev s) False)) s
    (\<lambda>_ t. \<exists>v p. started s v \<and> steady v t \<and> undecided (next_ctrl s) (next_bev s) p poller timeout 0 u t)"
    (is "runs _ _ ?Q")
  unfolding enable_tor_def
proof (subst runs_andthen, rule runs_mono [OF runs_started [OF assms(1)]], elim conjE exE)
  let ?c = "next_ctrl s" and ?h = "next_bev s"
  let ?k' = "EnableSetconf ?c poller timeout u"
  fix v p
  assume v: "started s v" "connecting ?c ?h p '''' (EnableAuthed ?c poller timeout u) v" "inbuf p v = ''''"
    "outbuf p v = ''''"
  have auth: "client (EnableAuthed ?c poller timeout u) (VoidReply OK) = setconf_disable_network L ?c False ?k'"
    and conf: "client ?k' (VoidReply OK) = wait_for_circuit L poller ?c u timeout 0"
    by (simp_all add: poller_client_def)
  show "runs (sets_network ?h False) v ?Q"
  proof (rule runs_two_commands [OF v(2-4) assms(2) auth], unfold conf)
    fix y
    assume y: "receiving ?c ?h p (DoVoid ?k') y" "inbuf p y = ''''" "outbuf p y = ''''" "silent v y"
    show "runs (wait_for_circuit L poller ?c u timeout 0) y
        (\<lambda>_ t. attached ?c ?h p t \<and> inbuf p t = '''' \<and> ?Q () t)"
      by (rule runs_mono [OF runs_wait_for_circuit [OF y(1) _ y(2,3)]], simp)
        (use v(1) y(4) in \<open>blast dest: undecided_attached silent_steady intro: steady_trans\<close>)
  qed
qed

text \<open>The whole of \<open>enable_tor\<close>, up to the call of the client: the phases \<open>ns\<close>, and then 100.\<close>

lemma runs_enable_then:
  assumes "endpoint_ok" and "3 \<le> fuel" and "\<forall>n \<in> set ns. n < 1000 \<and> n \<noteq> 100"
    and "length ns < unat timeout"
    and "\<And>v p y. started s v \<Longrightarrow> steady v y \<Longrightarrow> cleared (next_ctrl s) (next_bev s) p y \<Longrightarrow> inbuf p y = '''' \<Longrightarrow>
      runs (user u (VoidReply OK)) y (\<lambda>_ t. attached (next_ctrl s) (next_bev s) p t \<and> inbuf p t = '''' \<and> P () t)"
  shows "runs (followed_by (enable_tor L T user poller u timeout)
      (followed_by (sets_network (next_bev s) False) (run_all (poll (next_bev s)) (ns @ [100])))) s P"
proof (rule runs_chain)
  let ?c = "next_ctrl s" and ?h = "next_bev s"
  have pos: "(0 :: u32) < timeout" and len: "unat (0 :: u32) + length ns \<le> unat timeout"
    and neq: "unat (0 :: u32) + length ns \<noteq> unat timeout"
    using assms(4) by (auto simp: word_less_nat_alt)
  have fuel2: "2 \<le> fuel" using assms(2) by simp
  show "runs (followed_by (enable_tor L T user poller u timeout) (sets_network ?h False)) s
    (\<lambda>_ t. runs (run_all (poll ?h) (ns @ [100])) t P)"
  proof (rule runs_mono [OF runs_enable_tor_steady [OF assms(1) fuel2]], elim exE conjE)
    fix t v p
    assume t: "started s v" "steady v t" "undecided ?c ?h p poller timeout 0 u t"
    have w: "polling ?c ?h p poller timeout 0 u t"
      using t(3) pos by (simp add: undecided_def split: if_splits)
    show "runs (run_all (poll ?h) (ns @ [100])) t P"
      unfolding run_all_append run_all.simps followed_by_ret runs_andthen [of "run_all _ _"]
    proof (rule runs_mono [OF runs_polls_go_on [OF w pos assms(3) len assms(2)]],
        unfold if_not_P [OF neq], elim conjE)
      fix x
      assume x: "steady t x" "polling ?c ?h p poller timeout (0 + word_of_nat (length ns)) u x"
      then have w: "waiting ?c ?h p poller timeout (0 + word_of_nat (length ns)) u x" by (simp add: polling_def)
      show "runs (poll ?h 100) x P"
        by (rule runs_poll_done [OF w assms(2)], rule assms(5) [OF t(1)])
          (use t(2) x(1) in \<open>blast intro: steady_trans\<close>)+
    qed
  qed
qed

text \<open>\<open>disable_tor\<close> from the connecting state on, up to the call of the client.\<close>

lemma runs_disabling:
  assumes "connecting c h p '''' (DisableAuthed c u) s" and "inbuf p s = ''''" and "outbuf p s = ''''" and "2 \<le> fuel"
    and "\<And>y. silent s y \<Longrightarrow> cleared c h p y \<Longrightarrow> inbuf p y = '''' \<Longrightarrow>
      runs (user u (VoidReply OK)) y (\<lambda>_ t. attached c h p t \<and> inbuf p t = '''' \<and> P () t)"
  shows "runs (sets_network h True) s P"
proof -
  have auth: "client (DisableAuthed c u) (VoidReply OK) = setconf_disable_network L c True (DisableSetconf c u)"
    and conf: "client (DisableSetconf c u) (VoidReply OK) = followed_by (close c) (user u (VoidReply OK))"
    by (simp_all add: poller_client_def)
  show ?thesis
  proof (rule runs_two_commands [OF assms(1-4) auth], unfold conf)
    fix y
    assume y: "receiving c h p (DoVoid (DisableSetconf c u)) y" "inbuf p y = ''''" "silent s y"
    show "runs (followed_by (close c) (user u (VoidReply OK))) y
        (\<lambda>_ t. attached c h p t \<and> inbuf p t = '''' \<and> P () t)"
      by (rule runs_close_then [OF y(1)], rule assms(5)) (use y in \<open>auto dest: silent_trans\<close>)
  qed
qed

lemma runs_disable_tor_then:
  assumes "endpoint_ok" and "2 \<le> fuel"
    and "\<And>v p y. started s v \<Longrightarrow> silent v y \<Longrightarrow> cleared (next_ctrl s) (next_bev s) p y \<Longrightarrow> inbuf p y = '''' \<Longrightarrow>
      runs (user u (VoidReply OK)) y (\<lambda>_ t. attached (next_ctrl s) (next_bev s) p t \<and> inbuf p t = '''' \<and> P () t)"
  shows "runs (followed_by (disable_tor L T user poller u) (sets_network (next_bev s) True)) s P"
  unfolding disable_tor_def
proof (subst runs_andthen, rule runs_mono [OF runs_started [OF assms(1)]], elim conjE exE)
  fix v p
  assume v: "started s v" "connecting (next_ctrl s) (next_bev s) p '''' (DisableAuthed (next_ctrl s) u) v"
    "inbuf p v = ''''" "outbuf p v = ''''"
  show "runs (sets_network (next_bev s) True) v P"
    by (rule runs_disabling [OF v(2-4) assms(2)]) (rule assms(3) [OF v(1)])
qed

end

section \<open>The contract of a session\<close>

text \<open>A client of the poller that takes note of its calls.\<close>

locale poller_session = poller_calls L content arrive flush T user unique fuel
  for L :: "'w libevent" and content :: "'w \<Rightarrow> cptr \<Rightarrow> string"
    and arrive :: "cptr \<Rightarrow> string \<Rightarrow> 'w \<Rightarrow> 'w" and flush :: "cptr \<Rightarrow> 'w \<Rightarrow> 'w"
    and T :: "('u, 'w, 'z) libtor" and user :: "('u, 'w, 'z) poller_user"
    and unique :: "nat \<Rightarrow> ('u poller_cb, 'w, 'z) ocst_scheme \<Rightarrow> bool" and fuel :: nat +
  fixes log_of :: "'z \<Rightarrow> ('u \<times> onion_status) list"
  assumes user_takes_note: "runs (user u (VoidReply st)) s
      (\<lambda>_ t. same_objects content s t \<and> next_once t = next_once s \<and>
         log_of (ocst.more t) = log_of (ocst.more s) @ [(u, st)])"
begin

abbreviation log :: "('u poller_cb, 'w, 'z) ocst_scheme \<Rightarrow> ('u \<times> onion_status) list" where
  "log s \<equiv> log_of (ocst.more s)"

lemma log_steady: "steady s t \<Longrightarrow> log t = log s"
  and log_silent: "silent s t \<Longrightarrow> log t = log s"
  and log_started: "started s t \<Longrightarrow> log t = log s"
  by (simp_all add: steady_def silent_def started_def)

lemma runs_report:
  assumes "cleared c h p s"
  shows "runs (user u (VoidReply st)) s
    (\<lambda>_ t. cleared c h p t \<and> log t = log s @ [(u, st)] \<and> content (world t) = content (world s))"
  by (rule runs_mono [OF user_takes_note])
    (use assms in \<open>auto simp: same_objects_def callbacks_def attached_def\<close>)

lemma runs_close_and_report:
  assumes "callbacks c h p r w e s"
  shows "runs (followed_by (close c) (user u (VoidReply st))) s
    (\<lambda>_ t. cleared c h p t \<and> log t = log s @ [(u, st)] \<and> content (world t) = content (world s))"
  by (rule runs_close_then [OF assms], rule runs_mono [OF runs_report]) (auto dest: log_silent)

section \<open>Whole runs\<close>

lemma runs_enable_succeeds:
  assumes "endpoint_ok" and "3 \<le> fuel" and "\<forall>n \<in> set ns. n < 1000 \<and> n \<noteq> 100"
    and "length ns < unat timeout"
  shows "runs (followed_by (enable_tor L T user poller u timeout)
      (followed_by (sets_network (next_bev s) False) (run_all (poll (next_bev s)) (ns @ [100])))) s
    (\<lambda>_ t. log t = log s @ [(u, OK)] \<and> (\<exists>p. cleared (next_ctrl s) (next_bev s) p t))"
proof (rule runs_enable_then [OF assms])
  fix v p y
  assume y: "started s v" "steady v y" "cleared (next_ctrl s) (next_bev s) p y" "inbuf p y = ''''"
  show "runs (user u (VoidReply OK)) y (\<lambda>_ t. attached (next_ctrl s) (next_bev s) p t \<and> inbuf p t = '''' \<and>
      log t = log s @ [(u, OK)] \<and> (\<exists>p. cleared (next_ctrl s) (next_bev s) p t))"
    by (rule runs_mono [OF runs_report [OF y(3)]])
      (use y(4) log_started [OF y(1)] log_steady [OF y(2)] in \<open>auto dest: callbacks_attached\<close>)
qed

text \<open>The status the client gets when the poller has given up.\<close>

abbreviation gave_up_status :: "nat \<Rightarrow> char \<Rightarrow> onion_status" where
  "gave_up_status code type \<equiv> if code = 250 \<and> type = CHR '' '' then GENERIC_ERROR
     else void_status (reply_status (int code)) type"

lemma runs_gave_up:
  assumes "giving_up c h p u s" and "wf_line (code, type, body)" and "2 \<le> fuel"
  shows "runs (asked h (''SETCONF DisableNetwork=1'' @ crlf) (code, type, body)) s
    (\<lambda>_ t. cleared c h p t \<and> log t = log s @ [(u, gave_up_status code type)])"
proof (rule runs_asked [where cb = "DoVoid (GiveUp c u)", OF _ _ _ assms(2,3)])
  show "sending c h p (DoVoid (GiveUp c u)) s" "inbuf p s = ''''" "outbuf p s = ''SETCONF DisableNetwork=1'' @ crlf"
    using assms(1) by (simp_all add: giving_up_def)
  show "line_args_of (code, type, body) = (reply_status (int code), type, body)"
    by (simp add: line_args_of_def)
  fix y
  assume y: "receiving c h p (DoVoid (GiveUp c u)) y" "inbuf p y = ''''" "silent s y"
  have call: "run_line_clo client (DoVoid (GiveUp c u)) (reply_status (int code)) type body =
      followed_by (close c) (user u (VoidReply (gave_up_status code type)))"
    by (auto simp: run_line_clo_def do_void_cb_def void_status_def poller_client_def reply_status_def)
  show "runs (run_line_clo client (DoVoid (GiveUp c u)) (reply_status (int code)) type body) y
      (\<lambda>_ t. attached c h p t \<and> inbuf p t = '''' \<and> cleared c h p t \<and>
         log t = log s @ [(u, gave_up_status code type)])"
    unfolding call
    by (rule runs_mono [OF runs_close_and_report [OF y(1)]])
      (use y(2) log_silent [OF y(3)] in \<open>auto dest: callbacks_attached\<close>)
qed

lemma runs_polls_out:
  assumes "undecided c h p poller timeout 0 u s"
    and "\<forall>n \<in> set ns. n < 1000 \<and> n \<noteq> 100" and "length ns = unat timeout" and "3 \<le> fuel"
    and "wf_line (code, type, body)"
  shows "runs (followed_by (run_all (poll h) ns) (asked h (''SETCONF DisableNetwork=1'' @ crlf) (code, type, body))) s
    (\<lambda>_ t. cleared c h p t \<and> log t = log s @ [(u, gave_up_status code type)])"
proof -
  have fuel2: "2 \<le> fuel" using assms(4) by simp
  note last = runs_gave_up [OF _ assms(5) fuel2]
  show ?thesis
  proof (cases "timeout = 0")
    case True
    then show ?thesis
      using assms(1,3) last by (simp add: undecided_def runs_andthen runs_ret split del: if_split)
  next
    case False
    then have pos: "(0 :: u32) < timeout" and len: "unat (0 :: u32) + length ns \<le> unat timeout"
      and eq: "unat (0 :: u32) + length ns = unat timeout"
      using assms(3) by (simp_all add: word_neq_0_conv)
    have w: "polling c h p poller timeout 0 u s"
      using assms(1) False by (simp add: undecided_def split: if_splits)
    show ?thesis
    proof (subst runs_andthen, rule runs_mono [OF runs_polls_go_on [OF w pos assms(2) len assms(4)]],
        unfold if_P [OF eq], elim conjE)
      fix t
      assume t: "steady s t" "giving_up c h p u t"
      from last [OF t(2)] show "runs (asked h (''SETCONF DisableNetwork=1'' @ crlf) (code, type, body)) t
          (\<lambda>_ t. cleared c h p t \<and> log t = log s @ [(u, gave_up_status code type)])"
        unfolding log_steady [OF t(1)] .
    qed
  qed
qed

lemma runs_enable_times_out:
  assumes "endpoint_ok" and "3 \<le> fuel" and "\<forall>n \<in> set ns. n < 1000 \<and> n \<noteq> 100"
    and "length ns = unat timeout" and "wf_line (code, type, body)"
  shows "runs (followed_by (enable_tor L T user poller u timeout)
      (followed_by (sets_network (next_bev s) False)
        (followed_by (run_all (poll (next_bev s)) ns)
          (asked (next_bev s) (''SETCONF DisableNetwork=1'' @ crlf) (code, type, body))))) s
    (\<lambda>_ t. log t = log s @ [(u, gave_up_status code type)] \<and> (\<exists>p. cleared (next_ctrl s) (next_bev s) p t))"
proof (rule runs_chain)
  have fuel2: "2 \<le> fuel" using assms(2) by simp
  show "runs (followed_by (enable_tor L T user poller u timeout) (sets_network (next_bev s) False)) s
    (\<lambda>_ t. runs (followed_by (run_all (poll (next_bev s)) ns)
        (asked (next_bev s) (''SETCONF DisableNetwork=1'' @ crlf) (code, type, body))) t
      (\<lambda>_ t. log t = log s @ [(u, gave_up_status code type)] \<and> (\<exists>p. cleared (next_ctrl s) (next_bev s) p t)))"
  proof (rule runs_mono [OF runs_enable_tor_steady [OF assms(1) fuel2]], elim exE conjE)
    fix t v p
    assume t: "started s v" "steady v t" "undecided (next_ctrl s) (next_bev s) p poller timeout 0 u t"
    show "runs (followed_by (run_all (poll (next_bev s)) ns)
        (asked (next_bev s) (''SETCONF DisableNetwork=1'' @ crlf) (code, type, body))) t
      (\<lambda>_ t. log t = log s @ [(u, gave_up_status code type)] \<and> (\<exists>p. cleared (next_ctrl s) (next_bev s) p t))"
      by (rule runs_mono [OF runs_polls_out [OF t(3) assms(3,4,2,5)]])
        (use log_started [OF t(1)] log_steady [OF t(2)] in auto)
  qed
qed

lemma runs_disable_tor:
  assumes "endpoint_ok" and "2 \<le> fuel"
  shows "runs (followed_by (disable_tor L T user poller u) (sets_network (next_bev s) True)) s
    (\<lambda>_ t. log t = log s @ [(u, OK)] \<and> (\<exists>p. cleared (next_ctrl s) (next_bev s) p t))"
proof (rule runs_disable_tor_then [OF assms])
  fix v p y
  assume y: "started s v" "silent v y" "cleared (next_ctrl s) (next_bev s) p y" "inbuf p y = ''''"
  show "runs (user u (VoidReply OK)) y (\<lambda>_ t. attached (next_ctrl s) (next_bev s) p t \<and> inbuf p t = '''' \<and>
      log t = log s @ [(u, OK)] \<and> (\<exists>p. cleared (next_ctrl s) (next_bev s) p t))"
    by (rule runs_mono [OF runs_report [OF y(3)]])
      (use y(4) log_started [OF y(1)] log_silent [OF y(2)] in \<open>auto dest: callbacks_attached\<close>)
qed

section \<open>Failures\<close>

lemma runs_connect_fails:
  assumes "connecting c h p token (EnableAuthed c poller timeout u) s \<or>
      connecting c h p token (DisableAuthed c u) s"
    and "what \<noteq> BEV_EVENT_CONNECTED L"
  shows "runs (handle h (Event what)) s
    (\<lambda>_ t. cleared c h p t \<and> log t = log s @ [(u, CONNECT_FAILED)])"
proof -
  obtain k where k: "connecting c h p token k s" "client k (VoidReply CONNECT_FAILED) =
      followed_by (close c) (user u (VoidReply CONNECT_FAILED))"
    using assms(1) by (auto simp: poller_client_def)
  note att = callbacks_attached [OF k(1)]
  show ?thesis
  proof (rule runs_event [OF k(1)])
    show "runs (run_ctrl_event L client (ConnectEvent c (ConnAuth token c k)) what) s
        (\<lambda>_ t. attached c h p t \<and> cleared c h p t \<and> log t = log s @ [(u, CONNECT_FAILED)])"
      using assms(2)
      apply (simp add: run_ctrl_event_def run_void_clo_def k(2) runs_bev_of_iff [OF att]
          runs_andthen [of "andthen (bev_of c) (setcb None None None)"] runs_andthen [of "bev_of c"])
      apply (rule runs_setcb_attached [OF k(1)])
      apply (rule runs_mono [OF runs_close_and_report], assumption)
      apply (auto simp: callbacks_attached)
      done
  qed
qed

text \<open>
  The connection ends between two polls: the callback of the last command, which is still
  installed, reports to the client.  The timer stays set, and the next poll reports again.
\<close>

lemma runs_reports_twice:
  assumes "polling c h p poller timeout counter u s"
    and "event_mask_to_status L what1 = st1" and "event_mask_to_status L what2 = st2"
  shows "runs (followed_by (handle h (Event what1)) (followed_by fire (handle h (Event what2)))) s
    (\<lambda>_ t. log t = log s @ [(u, st1), (u, st2)])"
proof -
  have not_ok: "st1 \<noteq> OK" "st2 \<noteq> OK" "st2 \<noteq> NO_ERROR"
    using assms(2,3) by (auto simp: event_mask_to_status_def split: if_splits)
  obtain cb where cb: "receiving c h p cb s" "reports_to c u cb" and w: "waiting c h p poller timeout counter u s"
    using assms(1) by (auto simp: polling_def)
  have "runs (handle h (Event what1)) s (\<lambda>_ t. waiting c h p poller timeout counter u t \<and>
      log t = log s @ [(u, st1)])"
  proof (rule runs_event [OF cb(1)])
    have call: "run_ctrl_event L client (RecvEvent cb) what1 = followed_by (close c) (user u (VoidReply st1))"
      using not_ok cb(2) by (cases "(c, u, cb)" rule: reports_to.cases)
        (auto simp: run_ctrl_event_def run_line_clo_def do_void_cb_def run_string_clo_def poller_client_def assms(2))
    show "runs (run_ctrl_event L client (RecvEvent cb) what1) s
        (\<lambda>_ t. attached c h p t \<and> waiting c h p poller timeout counter u t \<and>
           log t = log s @ [(u, st1)])"
      unfolding call runs_andthen
    proof (rule runs_mono [OF runs_close [OF cb(1)]], elim conjE, rule runs_mono [OF user_takes_note])
      fix t x v
      assume "callbacks c h p None None None t" "silent s t" "world t = world s"
        and "same_objects content t v \<and> next_once v = next_once t \<and> log v = log t @ [(u, st1)]"
      then show "attached c h p v \<and> waiting c h p poller timeout counter u v \<and>
          log v = log s @ [(u, st1)]"
        using w
        by (auto simp: waiting_def same_objects_def silent_def callbacks_def attached_def)
    qed
  qed
  then show ?thesis
    apply (subst runs_andthen)
    apply (erule runs_mono, elim conjE)
    apply (subst runs_andthen)
    apply (rule runs_mono [OF runs_fire], assumption, elim exE conjE)
    apply (rule runs_event, assumption)
    apply (simp add: run_ctrl_event_def run_sent_clo_def event_mask_to_status_error run_line_clo_def
        run_string_clo_def poller_client_def assms(3) not_ok)
    apply (rule runs_mono [OF runs_close_and_report], assumption)
    apply (auto simp: callbacks_attached log_steady)
    done
qed

end

context poller_session
begin

lemma runs_enable_reports_twice:
  assumes "endpoint_ok" and "3 \<le> fuel" and "\<forall>n \<in> set ns. n < 1000 \<and> n \<noteq> 100" and "length ns < unat timeout"
    and "event_mask_to_status L what1 = st1" and "event_mask_to_status L what2 = st2"
  shows "runs (followed_by (enable_tor L T user poller u timeout)
      (followed_by (sets_network (next_bev s) False)
        (followed_by (run_all (poll (next_bev s)) ns)
          (followed_by (handle (next_bev s) (Event what1))
            (followed_by fire (handle (next_bev s) (Event what2))))))) s
    (\<lambda>_ t. log t = log s @ [(u, st1), (u, st2)])"
proof (rule runs_chain)
  let ?c = "next_ctrl s" and ?h = "next_bev s"
  let ?ends = "followed_by (handle ?h (Event what1)) (followed_by fire (handle ?h (Event what2)))"
  have pos: "(0 :: u32) < timeout" and len: "unat (0 :: u32) + length ns \<le> unat timeout"
    and neq: "unat (0 :: u32) + length ns \<noteq> unat timeout"
    using assms(4) by (auto simp: word_less_nat_alt)
  have fuel2: "2 \<le> fuel" using assms(2) by simp
  show "runs (followed_by (enable_tor L T user poller u timeout) (sets_network ?h False)) s
    (\<lambda>_ t. runs (followed_by (run_all (poll ?h) ns) ?ends) t (\<lambda>_ t. log t = log s @ [(u, st1), (u, st2)]))"
  proof (rule runs_mono [OF runs_enable_tor_steady [OF assms(1) fuel2]], elim exE conjE)
    fix t v p
    assume t: "started s v" "steady v t" "undecided ?c ?h p poller timeout 0 u t"
    have w: "polling ?c ?h p poller timeout 0 u t" using t(3) pos by (simp add: undecided_def split: if_splits)
    show "runs (followed_by (run_all (poll ?h) ns) ?ends) t (\<lambda>_ t. log t = log s @ [(u, st1), (u, st2)])"
      unfolding runs_andthen [of "run_all _ _"]
    proof (rule runs_mono [OF runs_polls_go_on [OF w pos assms(3) len assms(2)]], unfold if_not_P [OF neq], elim conjE)
      fix x
      assume x: "steady t x" "polling ?c ?h p poller timeout (0 + word_of_nat (length ns)) u x"
      show "runs ?ends x (\<lambda>_ t. log t = log s @ [(u, st1), (u, st2)])"
        by (rule runs_mono [OF runs_reports_twice [OF x(2) assms(5,6)]])
          (simp add: log_steady [OF t(2)] log_started [OF t(1)] log_steady [OF x(1)])
    qed
  qed
qed

lemma runs_enable_connect_fails:
  assumes "endpoint_ok" and "what \<noteq> BEV_EVENT_CONNECTED L"
  shows "runs (followed_by (enable_tor L T user poller u timeout) (handle (next_bev s) (Event what))) s
    (\<lambda>_ t. log t = log s @ [(u, CONNECT_FAILED)] \<and> (\<exists>p. cleared (next_ctrl s) (next_bev s) p t))"
  unfolding enable_tor_def
  by (subst runs_andthen, rule runs_mono [OF runs_started [OF assms(1)]], elim conjE exE,
      rule runs_mono [OF runs_connect_fails [where poller = poller and timeout = timeout, OF disjI1 assms(2)]])
    (auto simp: log_started)

end

section \<open>Whatever tor sends\<close>

text \<open>The line callbacks the poller installs on the controller \<open>c\<close>.\<close>

fun poller_line :: "nat \<Rightarrow> 'u poller_cb line_clo \<Rightarrow> bool" where
  "poller_line c (AuthReply (EnableAuthed d _ _ _)) = (d = c)"
| "poller_line c (AuthReply (DisableAuthed d _)) = (d = c)"
| "poller_line c (DoVoid (EnableSetconf d _ _ _)) = (d = c)"
| "poller_line c (DoVoid (DisableSetconf d _)) = (d = c)"
| "poller_line c (DoVoid (GiveUp d _)) = (d = c)"
| "poller_line c (GetinfoBootstrap (BootstrapInt (WaitProgress d _ _ _ _)) _) = (d = c)"
| "poller_line c _ = False"

fun poller_call :: "nat \<Rightarrow> 'u poller_cb \<Rightarrow> reply \<Rightarrow> bool" where
  "poller_call c (EnableAuthed d _ _ _) (VoidReply _) = (d = c)"
| "poller_call c (DisableAuthed d _) (VoidReply _) = (d = c)"
| "poller_call c (EnableSetconf d _ _ _) (VoidReply _) = (d = c)"
| "poller_call c (DisableSetconf d _) (VoidReply _) = (d = c)"
| "poller_call c (GiveUp d _) (VoidReply _) = (d = c)"
| "poller_call c (WaitProgress d _ _ _ _) (IntReply _ _) = (d = c)"
| "poller_call c _ _ = False"

context poller_session
begin

definition usable :: "nat \<Rightarrow> nat \<Rightarrow> cptr \<Rightarrow> ('u poller_cb, 'w, 'z) ocst_scheme \<Rightarrow> bool" where
  "usable c h p s \<longleftrightarrow> (\<exists>r w e. callbacks c h p r w e s)"

lemma runs_wait_usable:
  assumes "usable c h p s"
  shows "runs (wait_for_circuit L poller c u timeout counter) s
    (\<lambda>_ t. usable c h p t \<and> inbuf p t = inbuf p s)"
proof -
  obtain r w e where cbs: "callbacks c h p r w e s" using assms by (auto simp: usable_def)
  show ?thesis
  proof (cases "timeout \<le> counter")
    case True
    then show ?thesis
      unfolding wait_for_circuit_def setconf_disable_network_def
      by simp (rule runs_mono [OF runs_sendrecv [OF cbs]], auto simp: usable_def)
  next
    case False
    then show ?thesis
      unfolding wait_for_circuit_def using cbs
      by simp (rule runs_once, auto simp: usable_def)
  qed
qed

lemma runs_call_usable:
  assumes "usable c h p s" and "poller_call c k r"
  shows "runs (client k r) s (\<lambda>_ t. usable c h p t \<and> inbuf p t = inbuf p s)"
proof -
  obtain r' w e where cbs: "callbacks c h p r' w e s" using assms by (auto simp: usable_def)
  have close: "runs (followed_by (close c) (user u (VoidReply st))) s (\<lambda>_ t. usable c h p t \<and> inbuf p t = inbuf p s)"
    for u st
    by (rule runs_mono [OF runs_close_and_report [OF cbs]]) (auto simp: usable_def)
  have conf: "runs (setconf_disable_network L c v k') s (\<lambda>_ t. usable c h p t \<and> inbuf p t = inbuf p s)"
    for v k'
    unfolding setconf_disable_network_def
    by (rule runs_mono [OF runs_sendrecv [OF cbs]]) (auto simp: usable_def)
  show ?thesis
    using assms(2) close conf runs_wait_usable [OF assms(1)]
    by (cases "(c, k, r)" rule: poller_call.cases) (auto simp: poller_client_def)
qed

lemma runs_line_usable:
  assumes "usable c h p s" and "poller_line c cb"
  shows "runs (run_line_clo client cb st ty body) s
    (\<lambda>_ t. usable c h p t \<and> inbuf p t = inbuf p s)"
proof (cases "(c, cb)" rule: poller_line.cases)
  case (6 d d' poller counter timeout u res)
  let ?k = "WaitProgress c poller counter timeout u"
  have call: "runs (client ?k (IntReply st' n)) t (\<lambda>_ v. usable c h p v \<and> inbuf p v = inbuf p s)"
    if "usable c h p t" "inbuf p t = inbuf p s" for st' n t
    using runs_call_usable [OF that(1), of ?k "IntReply st' n"] that(2) by simp
  have string: "runs (run_string_clo client (BootstrapInt ?k) st' x) s
      (\<lambda>_ v. usable c h p v \<and> inbuf p v = inbuf p s)" for st' x
    using assms(1)
    by (auto simp: run_string_clo_def parse_bootstrap_progress_eq andthen_ret case_prod_beta
        intro: call)
  have usable: "usable c h p (s\<lparr>results := rs\<rparr>)" for rs
    using assms(1) by (simp add: usable_def)
  have 23: "length ''status/bootstrap-phase='' = 23" by simp
  show ?thesis
  proof (cases "st = OK \<and> ty = CHR ''-'' \<and> prefix ''status/bootstrap-phase='' body")
    case True
    then have "23 \<le> length body"
      using prefix_length_le [of "''status/bootstrap-phase=''" body] by simp
    with True usable show ?thesis
      using assms(2) 6 unfolding run_line_clo_def 23
      by (simp add: str_find_0_iff substr_in_range andthen_ret runs_def prog_simps)
  next
    case False
    with string assms(2) 6 show ?thesis
      by (auto simp: run_line_clo_def str_find_0_iff runs_andthen runs_gets)
  qed
qed (use assms runs_call_usable [OF assms(1)] in
    \<open>auto simp: run_line_clo_def do_void_cb_def\<close>)

lemma poller_line_handler:
  assumes "poller_line c cb"
  shows "line_handler L content client cb c h p (\<lambda>_. usable c h p)"
proof unfold_locales
  fix s st ty body
  assume "usable c h p s"
  from runs_line_usable [OF this assms] show "runs (run_line_clo client cb st ty body) s
      (\<lambda>_ t. usable c h p t \<and> attached c h p t \<and> inbuf p t = inbuf p s)"
    by (rule runs_mono) (auto simp: usable_def callbacks_attached)
qed (auto simp: usable_def)

text \<open>
  Any bytes, complete reply or not: the callbacks return, and the connection stays usable.
\<close>

lemma runs_any_reply:
  assumes "receiving c h p cb s" and "poller_line c cb" and "length (inbuf p s @ x) < fuel"
  shows "runs (handle h (Readable x)) s (\<lambda>_ t. usable c h p t)"
proof (rule runs_bytes_arrive [OF assms(1)])
  fix w
  assume w: "content w = (content (world s))(bufferevent_get_input L p := inbuf p s @ x)"
  have u: "usable c h p (s\<lparr>world := w\<rparr>)" using assms(1) by (auto simp: usable_def)
  have len: "length (inbuf p (s\<lparr>world := w\<rparr>)) < fuel" using assms(3) by (simp add: w)
  have att: "attached c h p (s\<lparr>world := w\<rparr>)" using assms(1) by (simp add: callbacks_attached)
  note loop = line_handler.recv_loop_stream [where I = "\<lambda>_. usable c h p",
      OF poller_line_handler [OF assms(2)] u att len]
  show "runs (recv_loop L client fuel c cb) (s\<lparr>world := w\<rparr>)
      (\<lambda>_ t. attached c h p t \<and> usable c h p t)"
    by (rule runs_mono [OF loop]) simp
qed

end

end
