(* ===== verification/Poller_Props.thy ===== *)
theory Poller_Props
  imports Poller_Session
begin

text \<open>
  The properties of \<open>OnionPoller\<close>, over whole runs: from \<open>enable_tor\<close> or \<open>disable_tor\<close> to the
  report to the client, through the control connection, the timers and the C callbacks.
\<close>

section \<open>What tor and the timers do\<close>

text \<open>The timer set last fires; one poll: tor reads exactly the query, and answers it.\<close>

abbreviation timer_fires ::
  "'w libevent \<Rightarrow> (nat \<Rightarrow> ('k, 'w, 'z) ocst_scheme \<Rightarrow> bool) \<Rightarrow> ('k, 'w, 'z) oc_client \<Rightarrow>
   ('k, 'w, 'z, unit) oc_prog" where
  "timer_fires L unique client \<equiv> andthen (gets (\<lambda>s. next_once s - 1))
     (mk_libevent_event_cb L unique (run_ctrl_event L client) (EV_TIMEOUT L))"

abbreviation phase_poll ::
  "'w libevent \<Rightarrow> ('w \<Rightarrow> cptr \<Rightarrow> string) \<Rightarrow> (cptr \<Rightarrow> string \<Rightarrow> 'w \<Rightarrow> 'w) \<Rightarrow> (cptr \<Rightarrow> 'w \<Rightarrow> 'w) \<Rightarrow>
   (nat \<Rightarrow> ('k, 'w, 'z) ocst_scheme \<Rightarrow> bool) \<Rightarrow> ('k, 'w, 'z) oc_client \<Rightarrow> nat \<Rightarrow> nat \<Rightarrow> nat \<Rightarrow>
   ('k, 'w, 'z, unit) oc_prog" where
  "phase_poll L content arrive flush unique client fuel h n \<equiv> followed_by (timer_fires L unique client)
     (followed_by (peer_reads L content (handle_event L arrive flush unique client fuel) h
         (''GETINFO status/bootstrap-phase'' @ crlf))
       (handle_event L arrive flush unique client fuel h (Readable (phase_reply n))))"

text \<open>
  The connection comes up; tor reads exactly the authentication and accepts it, and reads exactly the
  command that takes it off-line, or on-line, and accepts it.
\<close>

abbreviation setting_network ::
  "'w libevent \<Rightarrow> ('w \<Rightarrow> cptr \<Rightarrow> string) \<Rightarrow> (cptr \<Rightarrow> string \<Rightarrow> 'w \<Rightarrow> 'w) \<Rightarrow> (cptr \<Rightarrow> 'w \<Rightarrow> 'w) \<Rightarrow>
   (nat \<Rightarrow> ('k, 'w, 'z) ocst_scheme \<Rightarrow> bool) \<Rightarrow> ('k, 'w, 'z) oc_client \<Rightarrow> nat \<Rightarrow> nat \<Rightarrow> bool \<Rightarrow>
   ('k, 'w, 'z, unit) oc_prog" where
  "setting_network L content arrive flush unique client fuel h off \<equiv>
     followed_by (handle_event L arrive flush unique client fuel h (Event (BEV_EVENT_CONNECTED L)))
       (followed_by (line_asked L content arrive flush unique client fuel h (''AUTHENTICATE'' @ crlf)
           (250, CHR '' '', ''OK''))
         (line_asked L content arrive flush unique client fuel h
           (''SETCONF DisableNetwork='' @ (if off then ''1'' else ''0'') @ crlf) (250, CHR '' '', ''OK'')))"

abbreviation local_endpoint_parses :: "'w libevent \<Rightarrow> bool" where
  "local_endpoint_parses L \<equiv> fst (evutil_parse_sockaddr_port L
     (c_str (''127.0.0.1'' @ '':'' @ show_int 9051)) 128) = 0"

section \<open>The recording client\<close>

definition poller_recorder :: "('u, 'w, ('u \<times> onion_status) list) poller_user" where
  "poller_recorder u r = (case r of
      VoidReply st \<Rightarrow> modify (ocst.more_update (\<lambda>calls. calls @ [(u, st)]))
    | _ \<Rightarrow> ret ())"

definition sim_tor :: "('u, simw, ('u \<times> onion_status) list) libtor" where
  "sim_tor = \<lparr>tor_on_started = (\<lambda>m. m), tor_main = (\<lambda>_ _. ret ()), tor_break_loop = ret (),
     tor_libevent_get_base = 1\<rparr>"

interpretation sim_poller: poller_session sim_libevent sim_content sim_arrive sim_flush
  sim_tor poller_recorder ctrl_unique fuel "\<lambda>calls. calls" for fuel
  by unfold_locales
    (simp_all add: poller_recorder_def prog_simps same_objects_def ctrl_unique_counts)

definition poller_demo :: "('u poller_cb, simw, ('u \<times> onion_status) list) ocst_scheme" where
  "poller_demo = \<lparr>world = sim_empty, bevs = Map.empty, next_bev = 0, onces = Map.empty,
     next_once = 0, strings = (\<lambda>_. ''''), flags = (\<lambda>_. False), verbose = False, clog = '''',
     ssl_singleton = None, ctrls = Map.empty, next_ctrl = 0, results = (\<lambda>_. ''''), next_result = 0,
     expecteds = (\<lambda>_. OK), next_expected = 0, \<dots> = []\<rparr>"

lemma poller_demo_simps [simp]:
  "next_bev poller_demo = 0" "next_ctrl poller_demo = 0" "ocst.more poller_demo = []"
  by (simp_all add: poller_demo_def)

lemma sim_endpoint_parses: "local_endpoint_parses sim_libevent"
  by (simp add: sim_libevent_def c_str_def)

section \<open>Properties\<close>

text \<open>
  C3: \<open>enable_tor\<close> when tor goes online in time: after any number of polls below the timeout that
  report another phase than 100, the poll that reports 100 makes the one call of the client, with
  \<open>OK\<close>; the connection is closed by then, and nothing has thrown.  On the way tor reads exactly the
  authentication, \<open>SETCONF DisableNetwork=0\<close>, and one query for each poll.
\<close>

theorem enable_tor_succeeds:
  assumes "poller_session L content arrive flush user unique log_of"
    and "local_endpoint_parses L" and "3 \<le> fuel"
    and "\<forall>n \<in> set ns. n < 1000 \<and> n \<noteq> 100" and "length ns < unat timeout"
  shows "runs (followed_by (enable_tor L T user poller u timeout)
      (followed_by (setting_network L content arrive flush unique (poller_client L T user) fuel (next_bev s) False)
        (run_all (phase_poll L content arrive flush unique (poller_client L T user) fuel (next_bev s))
          (ns @ [100])))) s
    (\<lambda>_ t. log_of (ocst.more t) = log_of (ocst.more s) @ [(u, OK)] \<and>
       (\<exists>p. callbacks (next_ctrl s) (next_bev s) p None None None t))"
  by (rule poller_session.runs_enable_succeeds [OF assms])

theorem enable_tor_succeeds_witness:
  "runs (followed_by (enable_tor sim_libevent sim_tor poller_recorder demo_base (7 :: nat) 3)
      (followed_by (setting_network sim_libevent sim_content sim_arrive sim_flush ctrl_unique
          (poller_client sim_libevent sim_tor poller_recorder) 3 0 False)
        (run_all (phase_poll sim_libevent sim_content sim_arrive sim_flush ctrl_unique
          (poller_client sim_libevent sim_tor poller_recorder) 3 0) ([10, 80] @ [100])))) poller_demo
    (\<lambda>_ t. ocst.more t = [(7, OK)])"
proof -
  have "\<forall>n \<in> set [10, 80]. n < 1000 \<and> n \<noteq> (100 :: nat)" and "length [10, 80 :: nat] < unat (3 :: u32)"
    by simp_all
  note r = enable_tor_succeeds [OF sim_poller.poller_session_axioms sim_endpoint_parses le_refl this,
      where s = poller_demo and u = 7 and poller = demo_base]
  show ?thesis by (rule runs_mono [OF r [unfolded poller_demo_simps]]) simp
qed

text \<open>
  C8: \<open>enable_tor\<close> when tor does not get online: after \<open>timeout\<close> polls that report another phase
  than 100 the poller asks tor to go offline again: what tor then reads is exactly
  \<open>SETCONF DisableNetwork=1\<close>.  With the answer to that the poller closes the connection and makes its one
  call of the client: \<open>GENERIC_ERROR\<close> when tor obeys, the status of the answer when it does not.
\<close>

theorem enable_tor_times_out:
  assumes "poller_session L content arrive flush user unique log_of"
    and "local_endpoint_parses L" and "3 \<le> fuel"
    and "\<forall>n \<in> set ns. n < 1000 \<and> n \<noteq> 100" and "length ns = unat timeout"
    and "wf_line (code, type, body)"
  shows "runs (followed_by (enable_tor L T user poller u timeout)
      (followed_by (setting_network L content arrive flush unique (poller_client L T user) fuel (next_bev s) False)
        (followed_by (run_all (phase_poll L content arrive flush unique (poller_client L T user) fuel
            (next_bev s)) ns)
          (line_asked L content arrive flush unique (poller_client L T user) fuel (next_bev s)
            (''SETCONF DisableNetwork=1'' @ crlf) (code, type, body))))) s
    (\<lambda>_ t. log_of (ocst.more t) = log_of (ocst.more s) @
         [(u, if code = 250 \<and> type = CHR '' '' then GENERIC_ERROR
              else void_status (reply_status (int code)) type)] \<and>
       (\<exists>p. callbacks (next_ctrl s) (next_bev s) p None None None t))"
  by (rule poller_session.runs_enable_times_out [OF assms])

theorem enable_tor_times_out_witness:
  "runs (followed_by (enable_tor sim_libevent sim_tor poller_recorder demo_base (7 :: nat) 2)
      (followed_by (setting_network sim_libevent sim_content sim_arrive sim_flush ctrl_unique
          (poller_client sim_libevent sim_tor poller_recorder) 3 0 False)
        (followed_by (run_all (phase_poll sim_libevent sim_content sim_arrive sim_flush ctrl_unique
            (poller_client sim_libevent sim_tor poller_recorder) 3 0) [10, 80])
          (line_asked sim_libevent sim_content sim_arrive sim_flush ctrl_unique
            (poller_client sim_libevent sim_tor poller_recorder) 3 0 (''SETCONF DisableNetwork=1'' @ crlf)
            (250, CHR '' '', ''OK''))))) poller_demo
    (\<lambda>_ t. ocst.more t = [(7, GENERIC_ERROR)])"
proof -
  have "\<forall>n \<in> set [10, 80]. n < 1000 \<and> n \<noteq> (100 :: nat)" and "length [10, 80 :: nat] = unat (2 :: u32)"
    and "wf_line (250, CHR '' '', ''OK'')"
    by (simp_all add: wf_line_def)
  note r = enable_tor_times_out [OF sim_poller.poller_session_axioms sim_endpoint_parses le_refl this,
      where s = poller_demo and u = 7 and poller = demo_base]
  show ?thesis by (rule runs_mono [OF r [unfolded poller_demo_simps]]) simp
qed

text \<open>
  \<open>disable_tor\<close>: once the connection is up and tor has accepted the authentication and
  \<open>SETCONF DisableNetwork=1\<close>, the client is called once, with \<open>OK\<close>, and the connection is closed.
\<close>

theorem disable_tor_reports:
  assumes "poller_session L content arrive flush user unique log_of"
    and "local_endpoint_parses L" and "2 \<le> fuel"
  shows "runs (followed_by (disable_tor L T user poller u)
      (setting_network L content arrive flush unique (poller_client L T user) fuel (next_bev s) True)) s
    (\<lambda>_ t. log_of (ocst.more t) = log_of (ocst.more s) @ [(u, OK)] \<and>
       (\<exists>p. callbacks (next_ctrl s) (next_bev s) p None None None t))"
  by (rule poller_session.runs_disable_tor [OF assms])

theorem disable_tor_reports_witness:
  "runs (followed_by (disable_tor sim_libevent sim_tor poller_recorder demo_base (7 :: nat))
      (setting_network sim_libevent sim_content sim_arrive sim_flush ctrl_unique
          (poller_client sim_libevent sim_tor poller_recorder) 2 0 True)) poller_demo
    (\<lambda>_ t. ocst.more t = [(7, OK)])"
proof -
  note r = disable_tor_reports [OF sim_poller.poller_session_axioms sim_endpoint_parses le_refl,
      where s = poller_demo and u = 7 and poller = demo_base]
  show ?thesis by (rule runs_mono [OF r [unfolded poller_demo_simps]]) simp
qed

text \<open>
  When the connection to tor cannot be made, \<open>enable_tor\<close> reports \<open>CONNECT_FAILED\<close>, once, and
  leaves no callback behind.
\<close>

theorem poller_connect_fails:
  assumes "poller_session L content arrive flush user unique log_of"
    and "local_endpoint_parses L" and "what \<noteq> BEV_EVENT_CONNECTED L"
  shows "runs (followed_by (enable_tor L T user poller u timeout)
      (handle_event L arrive flush unique (poller_client L T user) fuel (next_bev s) (Event what))) s
    (\<lambda>_ t. log_of (ocst.more t) = log_of (ocst.more s) @ [(u, CONNECT_FAILED)] \<and>
       (\<exists>p. callbacks (next_ctrl s) (next_bev s) p None None None t))"
  by (rule poller_session.runs_enable_connect_fails [OF assms])

theorem poller_connect_fails_witness:
  "runs (followed_by (enable_tor sim_libevent sim_tor poller_recorder demo_base (7 :: nat) 2)
      (handle_event sim_libevent sim_arrive sim_flush ctrl_unique
        (poller_client sim_libevent sim_tor poller_recorder) 2 0
        (Event (BEV_EVENT_ERROR sim_libevent)))) poller_demo
    (\<lambda>_ t. ocst.more t = [(7, CONNECT_FAILED)])"
proof -
  have "BEV_EVENT_ERROR sim_libevent \<noteq> BEV_EVENT_CONNECTED sim_libevent"
    by (simp add: sim_libevent_def)
  note r = poller_connect_fails [OF sim_poller.poller_session_axioms sim_endpoint_parses this,
      where s = poller_demo and u = 7 and poller = demo_base]
  show ?thesis by (rule runs_mono [OF r [unfolded poller_demo_simps]]) simp
qed

text \<open>
  C32: The poller can report twice.  While it waits between two polls, after any number \<open>ns\<close> of them, the
  callback of its last command or query is still installed: when the connection ends then, the client is
  told so, but the timer stays set, and the query it sends on the closed connection reports a second
  time.
\<close>

theorem poller_reports_twice:
  assumes "poller_session L content arrive flush user unique log_of"
    and "local_endpoint_parses L" and "3 \<le> fuel"
    and "\<forall>n \<in> set ns. n < 1000 \<and> n \<noteq> 100" and "length ns < unat timeout"
    and "event_mask_to_status L what1 = st1" and "event_mask_to_status L what2 = st2"
  shows "runs (followed_by (enable_tor L T user poller u timeout)
      (followed_by (setting_network L content arrive flush unique (poller_client L T user) fuel (next_bev s) False)
        (followed_by (run_all (phase_poll L content arrive flush unique (poller_client L T user) fuel (next_bev s)) ns)
          (followed_by
            (handle_event L arrive flush unique (poller_client L T user) fuel (next_bev s) (Event what1))
            (followed_by (timer_fires L unique (poller_client L T user))
              (handle_event L arrive flush unique (poller_client L T user) fuel (next_bev s)
                (Event what2))))))) s
    (\<lambda>_ t. log_of (ocst.more t) = log_of (ocst.more s) @ [(u, st1), (u, st2)])"
  by (rule poller_session.runs_enable_reports_twice [OF assms])

theorem poller_reports_twice_witness:
  "runs (followed_by (enable_tor sim_libevent sim_tor poller_recorder demo_base (7 :: nat) 3)
      (followed_by (setting_network sim_libevent sim_content sim_arrive sim_flush ctrl_unique
          (poller_client sim_libevent sim_tor poller_recorder) 3 0 False)
        (followed_by (run_all (phase_poll sim_libevent sim_content sim_arrive sim_flush ctrl_unique
            (poller_client sim_libevent sim_tor poller_recorder) 3 0) [10, 80])
          (followed_by
            (handle_event sim_libevent sim_arrive sim_flush ctrl_unique
              (poller_client sim_libevent sim_tor poller_recorder) 3 0
              (Event (BEV_EVENT_EOF sim_libevent)))
            (followed_by (timer_fires sim_libevent ctrl_unique
                (poller_client sim_libevent sim_tor poller_recorder))
              (handle_event sim_libevent sim_arrive sim_flush ctrl_unique
                (poller_client sim_libevent sim_tor poller_recorder) 3 0
                (Event (BEV_EVENT_ERROR sim_libevent)))))))) poller_demo
    (\<lambda>_ t. ocst.more t = [(7, EOF_ERROR), (7, IO_ERROR)])"
proof -
  have phases: "\<forall>n \<in> set [10, 80]. n < 1000 \<and> n \<noteq> (100 :: nat)" "length [10, 80 :: nat] < unat (3 :: u32)"
    by simp_all
  have status: "event_mask_to_status sim_libevent (BEV_EVENT_EOF sim_libevent) = EOF_ERROR"
    "event_mask_to_status sim_libevent (BEV_EVENT_ERROR sim_libevent) = IO_ERROR"
    by code_simp+
  note r = poller_reports_twice [OF sim_poller.poller_session_axioms sim_endpoint_parses le_refl phases status,
      where s = poller_demo and u = 7 and poller = demo_base]
  show ?thesis by (rule runs_mono [OF r [unfolded poller_demo_simps]]) simp
qed

text \<open>
  C22: Whatever bytes arrive while the poller waits for a reply, its callbacks return, with no
  exception and no undefined behaviour, and its connection can still be used or closed (with \<open>isdigit\<close> false
  for the bytes from 128 on, which the C standard does not promise for a negative \<open>char\<close>).
\<close>

theorem poller_survives_any_reply:
  assumes "poller_session L content arrive flush user unique log_of"
    and "callbacks c h p (Some (RecvRead c cb)) None (Some (RecvEvent cb)) s"
    and "poller_line c cb"
    and "length (content (world s) (bufferevent_get_input L p) @ x) < fuel"
  shows "runs (handle_event L arrive flush unique (poller_client L T user) fuel h (Readable x)) s
    (\<lambda>_ t. \<exists>r w e. callbacks c h p r w e t)"
  using poller_session.runs_any_reply [OF assms]
  unfolding poller_session.usable_def [OF assms(1)] .

theorem poller_survives_any_reply_witness:
  "runs (handle_event sim_libevent sim_arrive sim_flush ctrl_unique
      (poller_client sim_libevent sim_tor poller_recorder) 40 0
      (Readable (''garbage'' @ crlf @ ''250 OK'' @ crlf)))
    (demo_state (Some (RecvRead 0 (DoVoid (GiveUp 0 (7 :: nat))))) None
       (Some (RecvEvent (DoVoid (GiveUp 0 7)))))
    (\<lambda>_ t. \<exists>r w e. callbacks 0 0 1 r w e t)"
proof -
  note r = poller_survives_any_reply [OF sim_poller.poller_session_axioms, where c = 0 and h = 0
      and p = 1 and cb = "DoVoid (GiveUp 0 7)"]
  show ?thesis
    by (rule r) (simp_all del: One_nat_def)
qed

end
