(* ===== verification/Data_Props.thy ===== *)
theory Data_Props
  imports Libevent_Sim Onion_Parse
begin

text \<open>
  The properties of the functions on data: what is written to and read from an evbuffer, the
  texts of the control protocol, and the values the wrappers carry.
\<close>

section \<open>Evbuffers\<close>

lemma unat_u32: "m < 4294967296 \<Longrightarrow> unat (word_of_nat m :: u32) = m"
  by (simp add: unat_of_nat take_bit_nat_eq_self)

lemma div_powers_256: "n div 65536 = n div 256 div 256" "n div 16777216 = n div 256 div 256 div 256" for n :: nat
  by (simp_all add: div_mult2_eq [symmetric])

lemma bytes32_htonl:
  "bytes32 (htonl w) = [char_of (unat w div 16777216), char_of (unat w div 65536 mod 256),
     char_of (unat w div 256 mod 256), char_of (unat w mod 256)]"
proof -
  define n where "n = unat w"
  define a b c d where "a = n mod 256" and "b = n div 256 mod 256" and "c = n div 65536 mod 256"
    and "d = n div 16777216"
  have n: "n < 4294967296" unfolding n_def using unsigned_less [of w] by simp
  have abcd: "a < 256" "b < 256" "c < 256" "d < 256"
    using n by (simp_all add: a_def b_def c_def d_def less_mult_imp_div_less)
  define m where "m = a * 16777216 + b * 65536 + c * 256 + d"
  have "m < 4294967296" using abcd unfolding m_def by linarith
  then have "unat (htonl w) = m"
    unfolding htonl_def n_def [symmetric] m_def a_def b_def c_def d_def by (rule unat_u32)
  moreover have "m mod 256 = d" "m div 256 mod 256 = c" "m div 65536 mod 256 = b" "m div 16777216 mod 256 = a"
  proof -
    have push: "(256 * x + y) mod 256 = y \<and> (256 * x + y) div 256 = x" if "y < 256" for x y :: nat
      using that by simp
    have "m = 256 * (256 * (256 * a + b) + c) + d" by (simp add: m_def)
    then have "m mod 256 = d" "m div 256 = 256 * (256 * a + b) + c"
      using push [OF abcd(4), of "256 * (256 * a + b) + c"] by (simp_all only:)
    then show "m mod 256 = d" "m div 256 mod 256 = c" "m div 65536 mod 256 = b"
      "m div 16777216 mod 256 = a"
      using abcd push [OF abcd(3), of "256 * a + b"] push [OF abcd(2), of a]
      by (simp_all only: div_powers_256 mod_less simp_thms)
  qed
  moreover have "n div 16777216 mod 256 = n div 16777216" using abcd(4) by (simp add: d_def)
  ultimately show ?thesis
    by (simp add: bytes32_def n_def [symmetric] drop_bit_eq_div unat_div a_def b_def c_def d_def)
qed

text \<open>The number that bytes in network order stand for.\<close>

definition big_endian :: "string \<Rightarrow> nat" where
  "big_endian s = foldl (\<lambda>n c. 256 * n + uchar c) 0 s"

lemma big_endian_htons: "big_endian (bytes16 (htons w)) = unat w"
  using unat_u16_less [of w] by (simp add: bytes16_htons big_endian_def uchar_def less_mult_imp_div_less)

lemma big_endian_htonl: "big_endian (bytes32 (htonl w)) = unat w"
proof -
  have "unat w < 4294967296" using unsigned_less [of w] by simp
  then have "unat w div 16777216 < 256" by (simp add: less_mult_imp_div_less)
  moreover have "256 * (256 * (256 * (n div 16777216) + n div 65536 mod 256) + n div 256 mod 256) + n mod 256 = n"
    for n :: nat
    by (simp only: div_powers_256 mult_div_mod_eq)
  ultimately show ?thesis by (simp add: bytes32_htonl big_endian_def uchar_def)
qed

text \<open>
  \<open>add_uint16\<close> and \<open>add_uint32\<close> append exactly two and four bytes, which read in network order
  give the number back, and touch no other buffer.
\<close>

theorem network_order_roundtrip:
  assumes "evbuffer_api L content"
  shows "runs (Evbuffer_add_uint16 L v b) s
      (\<lambda>_ t. \<exists>bs. length bs = 2 \<and> big_endian bs = unat v \<and>
         content (world t) = (content (world s))(buf_ptr b := content (world s) (buf_ptr b) @ bs)) \<and>
    runs (Evbuffer_add_uint32 L w b) s
      (\<lambda>_ t. \<exists>bs. length bs = 4 \<and> big_endian bs = unat w \<and>
         content (world t) = (content (world s))(buf_ptr b := content (world s) (buf_ptr b) @ bs))"
proof -
  have add: "runs (Evbuffer_add L bs b) s (\<lambda>_ t. \<exists>bs. length bs = n \<and> big_endian bs = k \<and>
      content (world t) = (content (world s))(buf_ptr b := content (world s) (buf_ptr b) @ bs))"
    if "length bs = n" "big_endian bs = k" for bs n k
    by (rule evbuffer_api.runs_add [OF assms]) (use that in \<open>auto intro!: exI [of _ bs]\<close>)
  show ?thesis
    unfolding Evbuffer_add_uint16_def Evbuffer_add_uint32_def
    by (intro conjI add big_endian_htons big_endian_htonl) (simp_all add: bytes16_def bytes32_def)
qed

theorem network_order_roundtrip_witness:
  "runs (Evbuffer_add_uint16 sim_libevent 9050 \<lparr>buf_ptr = 4, buf_owned = True\<rparr>)
     (\<lparr>world = sim_empty, bevs = Map.empty, next_bev = 0, onces = Map.empty, next_once = 0\<rparr> :: (unit, simw) evst)
     (\<lambda>_ t. \<exists>bs. length bs = 2 \<and> big_endian bs = 9050 \<and>
        sim_content (world t) = (sim_content sim_empty)(4 := sim_content sim_empty 4 @ bs))"
  using network_order_roundtrip [OF sim.evbuffer_api_axioms, THEN conjunct1, of 9050 "\<lparr>buf_ptr = 4, buf_owned = True\<rparr>"
      "\<lparr>world = sim_empty, bevs = Map.empty, next_bev = 0, onces = Map.empty, next_once = 0\<rparr>"]
  by simp

text \<open>
  C27: Reading a buffer line by line gives back the lines that were added to it, and then the
  empty string, which consumes nothing: an unterminated rest stays in the buffer until its
  terminator arrives.
\<close>

theorem lines_roundtrip:
  fixes s :: "('c, 'w, 'z) evst_scheme"
  assumes "evbuffer_api L content"
    and "\<forall>l \<in> set (r # ls). CHR 0x0A \<notin> set l \<and> CHR 0x0D \<notin> set l"
    and "content (world s) (buf_ptr b) = ''''"
  shows "runs (followed_by (run_all (\<lambda>l. Evbuffer_add L (l @ crlf) b) ls)
      (followed_by (Evbuffer_add L r b)
        (run_all (\<lambda>l. andthen (Evbuffer_readln L (EVBUFFER_EOL_CRLF L) b)
            (\<lambda>x. if x = l then ret () else raise OutOfRange)) (ls @ ['''', ''''])))) s
    (\<lambda>_ t. content (world t) (buf_ptr b) = r)"
proof (rule runs_chain)
  let ?c = "\<lambda>t :: ('c, 'w, 'z) evst_scheme. content (world t) (buf_ptr b)"
  let ?read = "\<lambda>l :: string. andthen (Evbuffer_readln L (EVBUFFER_EOL_CRLF L) b)
      (\<lambda>x. if x = l then ret () else raise OutOfRange) :: ('c, 'w, 'z, unit) ev_prog"
  have none: "find_eol r = None" using assms(2) by (simp add: find_eol_None_iff)
  have add: "runs (run_all (\<lambda>l. Evbuffer_add L (l @ crlf) b) ls) t
      (\<lambda>_ u. ?c u = ?c t @ concat (map (\<lambda>l. l @ crlf) ls))" for t :: "('c, 'w, 'z) evst_scheme"
  proof (induction ls arbitrary: t)
    case (Cons l ls)
    show ?case
      unfolding run_all.simps runs_andthen
      by (rule evbuffer_api.runs_add [OF assms(1)], rule runs_mono [OF Cons.IH]) simp
  qed (simp add: runs_ret)
  have empty: "runs (?read '''') t (\<lambda>_ u. ?c u = r)" if "?c t = r" for t
    unfolding runs_andthen
    by (rule evbuffer_api.runs_readln [OF assms(1)]) (use that none in \<open>simp_all add: runs_ret\<close>)
  have read: "runs (run_all ?read (ls @ ['''', ''''])) t (\<lambda>_ u. ?c u = r)"
    if "?c t = concat (map (\<lambda>l. l @ crlf) ls) @ r" and "\<forall>l \<in> set ls. CHR 0x0A \<notin> set l \<and> CHR 0x0D \<notin> set l"
    for t ls
    using that
  proof (induction ls arbitrary: t)
    case Nil
    show ?case
      unfolding append.simps run_all.simps
      by (subst runs_andthen, rule runs_mono [OF empty], use Nil in simp, subst runs_andthen,
          rule runs_mono [OF empty], assumption) (simp add: runs_ret)
  next
    case (Cons l ls)
    have eol: "find_eol (?c t) = Some (length l, 2)"
      using Cons.prems find_eol_line [of l "concat (map (\<lambda>l. l @ crlf) ls) @ r"] by simp
    show ?case
      unfolding append.simps run_all.simps runs_andthen
      by (rule evbuffer_api.runs_readln [OF assms(1)])
        (use eol Cons in \<open>auto simp: runs_ret\<close>)
  qed
  show "runs (followed_by (run_all (\<lambda>l. Evbuffer_add L (l @ crlf) b) ls) (Evbuffer_add L r b)) s
      (\<lambda>_ t. runs (run_all ?read (ls @ ['''', ''''])) t (\<lambda>_ u. ?c u = r))"
    by (subst runs_andthen, rule runs_mono [OF add], rule evbuffer_api.runs_add [OF assms(1)], rule read)
      (use assms(2,3) in auto)
qed

theorem lines_roundtrip_witness:
  "runs (followed_by (run_all (\<lambda>l. Evbuffer_add sim_libevent (l @ crlf) \<lparr>buf_ptr = 4, buf_owned = True\<rparr>)
        [''250-version=0.2'', ''250 OK''])
      (followed_by (Evbuffer_add sim_libevent ''65'' \<lparr>buf_ptr = 4, buf_owned = True\<rparr>)
        (run_all (\<lambda>l. andthen (Evbuffer_readln sim_libevent (EVBUFFER_EOL_CRLF sim_libevent)
              \<lparr>buf_ptr = 4, buf_owned = True\<rparr>)
            (\<lambda>x. if x = l then ret () else raise OutOfRange))
          ([''250-version=0.2'', ''250 OK''] @ ['''', '''']))))
     (\<lparr>world = sim_empty, bevs = Map.empty, next_bev = 0, onces = Map.empty, next_once = 0\<rparr> :: (unit, simw) evst)
     (\<lambda>_ t. sim_content (world t) 4 = ''65'')"
proof -
  have "sim_content sim_empty 4 = ''''" by (simp add: sim_empty_def sim_content_def sim_chain_def)
  with lines_roundtrip [OF sim.evbuffer_api_axioms, of "''65''" "[''250-version=0.2'', ''250 OK'']"
      "\<lparr>world = sim_empty, bevs = Map.empty, next_bev = 0, onces = Map.empty, next_once = 0\<rparr> :: (unit, simw) evst"
      "\<lparr>buf_ptr = 4, buf_owned = True\<rparr>"]
  show ?thesis by simp
qed

section \<open>The texts of the control protocol\<close>

text \<open>
  The hexadecimal form of an authentication cookie has two lower-case digits for each of its
  bytes, and the cookie can be read back from it; for a file that cannot be read it is empty.
\<close>

theorem cookie_hex_roundtrip:
  "hex_decode (read_auth_cookie_as_hex read_file source) =
     (case read_file source of Some cookie \<Rightarrow> cookie | None \<Rightarrow> '''') \<and>
   length (read_auth_cookie_as_hex read_file source) =
     2 * length (case read_file source of Some cookie \<Rightarrow> cookie | None \<Rightarrow> '''') \<and>
   list_all (\<lambda>c. c \<in> set ''0123456789abcdef'') (read_auth_cookie_as_hex read_file source)"
proof -
  have "digit_char d \<in> set ''0123456789abcdef''" if "d < 16" for d
  proof -
    have "list_all (\<lambda>d. digit_char d \<in> set ''0123456789abcdef'') [0..<16]" by code_simp
    with that show ?thesis by (simp add: list_all_iff)
  qed
  then have "list_all (\<lambda>c. c \<in> set ''0123456789abcdef'') (auth_cookie_to_hex s)" for s
    unfolding list_all_iff using auth_cookie_to_hex_digits by blast
  then show ?thesis
    by (simp only: read_auth_cookie_as_hex_def read_auth_cookie_as_string_def hex_decode_auth_cookie
        length_auth_cookie_to_hex simp_thms)
qed

text \<open>
  The tokenizer computes the words of a text: it agrees with the reference that repeatedly
  skips white space and takes the longest run of other characters, its tokens are not empty
  and contain no white space, together they are all characters that are not white space, and
  joining them with spaces and tokenizing again gives the same tokens.
\<close>

theorem tokenize_words:
  "tokenize s = words s \<and> list_all is_token (tokenize s) \<and>
   concat (tokenize s) = filter (\<lambda>c. \<not> isspace c) s \<and> tokenize (unwords (tokenize s)) = tokenize s"
  using tokenize_eq_words tokenize_tokens concat_tokenize tokenize_unwords [OF tokenize_tokens] by blast

text \<open>
  C29: Parsing the bootstrap phase always returns, whatever the text, and changes nothing.  It
  accepts exactly the texts whose first three words are \<open>NOTICE\<close>, \<open>BOOTSTRAP\<close> and \<open>PROGRESS=\<close>
  followed by at most three digits, possibly none, and gives the number they stand for,
  between 0 and 999; on every other text the phase is left as it was.
\<close>

theorem bootstrap_progress_accepts:
  "\<exists>st n. parse_bootstrap_progress s phase t = (Return (st, n), t) \<and>
     (st = OK \<longleftrightarrow> (\<exists>d rest. words s = ''NOTICE'' # ''BOOTSTRAP'' # (''PROGRESS='' @ d) # rest \<and>
        length d \<le> 3 \<and> list_all isdigit d \<and> n = int (digits_value 0 d))) \<and>
     (if st = OK then 0 \<le> n \<and> n \<le> 999 else n = phase)"
proof -
  obtain st n where r: "bootstrap_tokens (words s) phase = (st, n)" by fastforce
  have "st = OK \<longleftrightarrow> (\<exists>d rest. words s = ''NOTICE'' # ''BOOTSTRAP'' # (''PROGRESS='' @ d) # rest \<and>
        length d \<le> 3 \<and> list_all isdigit d \<and> n = int (digits_value 0 d))"
    using bootstrap_tokens_OK_iff [of "words s" phase n] bootstrap_tokens_OK_iff [of "words s" phase] r
    by (metis prod.inject)
  with r bootstrap_tokens_range [of "words s" phase n] bootstrap_tokens_error [of "words s" phase]
  show ?thesis by (simp add: parse_bootstrap_progress_eq ret_run)
qed

text \<open>
  C30: The parser of integer variables makes exactly one call of its callback, for every reply,
  and never slices out of range.  With \<open>OK\<close> the value is the default or lies between 0 and
  99999.  The character between name and value is not looked at, and the value may be empty.
\<close>

theorem getconf_int_one_call:
  "\<exists>st n. getconf_int status type s var_name dflt cb = cb st n \<and>
     (st = OK \<longleftrightarrow> status = OK \<and> type = CHR '' '' \<and> (s = var_name \<and> n = dflt \<or>
        (\<exists>x d. s = var_name @ x # d \<and> length d \<le> 5 \<and> list_all isdigit d \<and>
           n = int (digits_value 0 d) \<and> n \<le> 99999)))"
proof -
  obtain st n where r: "getconf_result status type s var_name dflt = (st, n)" by fastforce
  have call: "getconf_int status type s var_name dflt cb = cb st n"
    by (simp add: getconf_int_eq r)
  consider (error) "status \<noteq> OK \<or> type \<noteq> CHR '' ''" | (default) "status = OK" "type = CHR '' ''" "s = var_name"
    | (other) "status = OK" "type = CHR '' ''" "\<not> prefix var_name s"
    | (val) x d where "status = OK" "type = CHR '' ''" "s = var_name @ x # d"
    by (metis neq_Nil_conv prefixE append_Nil2)
  then show ?thesis
  proof cases
    case val
    then have "st = (if 5 < length d then TOO_MANY_DIGITS else if \<not> list_all isdigit d then NOT_A_DIGIT else OK)"
      "length d \<le> 5 \<Longrightarrow> list_all isdigit d \<Longrightarrow> n = int (digits_value 0 d)"
      using r by (auto simp: getconf_result_def split: if_splits)
    moreover from this have "n \<le> 99999" if "st = OK"
      using getconf_result_range [of OK "CHR '' ''" "var_name @ x # d" var_name 0 n] val that r
      by (simp add: getconf_result_def split: if_splits)
    ultimately show ?thesis
      using call val by (intro exI [of _ st] exI [of _ n]) (auto split: if_splits)
  qed (use call r in \<open>auto simp: getconf_result_def intro!: exI [of _ st] exI [of _ n] split: if_splits\<close>)
qed

end
