(* ===== verification/Std_Order.thy ===== *)
theory Std_Order
  imports Prelude "HOL-Library.Word"
begin

text \<open>
  What the program uses of the ordered containers of the standard library: comparing sequences
  and pairs, and a map kept ordered by a comparison.  The contract the library puts on the
  comparison is a locale, \<open>strict_weak\<close>; what lookup after insertion gives is proved inside it.
\<close>

section \<open>Lexicographic comparison\<close>

text \<open>\<open>std::lexicographical_compare\<close>, and \<open>operator<\<close> of \<open>std::pair\<close>.\<close>

fun lex_less :: "('a \<Rightarrow> 'a \<Rightarrow> bool) \<Rightarrow> 'a list \<Rightarrow> 'a list \<Rightarrow> bool" where
  "lex_less f _ [] = False"
| "lex_less f [] (_ # _) = True"
| "lex_less f (x # xs) (y # ys) = (f x y \<or> (\<not> f y x \<and> lex_less f xs ys))"

definition pair_less :: "('a \<Rightarrow> 'a \<Rightarrow> bool) \<Rightarrow> ('b \<Rightarrow> 'b \<Rightarrow> bool) \<Rightarrow> 'a \<times> 'b \<Rightarrow> 'a \<times> 'b \<Rightarrow> bool" where
  "pair_less f g p q = (f (fst p) (fst q) \<or> (\<not> f (fst q) (fst p) \<and> g (snd p) (snd q)))"

lemma lex_less_cong [fundef_cong]:
  assumes "xs = xs'" and "ys = ys'"
    and "\<And>x y. x \<in> set xs' \<Longrightarrow> y \<in> set ys' \<Longrightarrow> f x y = g x y"
    and "\<And>x y. x \<in> set xs' \<Longrightarrow> y \<in> set ys' \<Longrightarrow> f y x = g y x"
  shows "lex_less f xs ys = lex_less g xs' ys'"
  using assms(3,4) unfolding assms(1,2) by (induction f xs' ys' rule: lex_less.induct) simp_all

lemma pair_less_cong [fundef_cong]:
  assumes "p = p'" and "q = q'" and "f (fst p') (fst q') = f' (fst p') (fst q')"
    and "f (fst q') (fst p') = f' (fst q') (fst p')" and "g (snd p') (snd q') = g' (snd p') (snd q')"
  shows "pair_less f g p q = pair_less f' g' p' q'"
  using assms by (simp add: pair_less_def)

section \<open>The contract of a comparison\<close>

text \<open>
  A strict weak order on the values that satisfy \<open>ok\<close>: asymmetric, and nothing lies between two
  values and is comparable with neither.
\<close>

locale strict_weak =
  fixes less :: "'a \<Rightarrow> 'a \<Rightarrow> bool" and ok :: "'a \<Rightarrow> bool"
  assumes asym: "ok x \<Longrightarrow> ok y \<Longrightarrow> less x y \<Longrightarrow> \<not> less y x"
    and between: "ok x \<Longrightarrow> ok y \<Longrightarrow> ok z \<Longrightarrow> less x z \<Longrightarrow> less x y \<or> less y z"
begin

lemma irrefl: "ok x \<Longrightarrow> \<not> less x x"
  using asym by blast

lemma trans: "ok x \<Longrightarrow> ok y \<Longrightarrow> ok z \<Longrightarrow> less x y \<Longrightarrow> less y z \<Longrightarrow> less x z"
  using asym between by blast

definition equiv :: "'a \<Rightarrow> 'a \<Rightarrow> bool" where
  "equiv x y \<longleftrightarrow> \<not> less x y \<and> \<not> less y x"

lemma equiv_less: "ok x \<Longrightarrow> ok y \<Longrightarrow> ok z \<Longrightarrow> equiv x y \<Longrightarrow> less x z \<longleftrightarrow> less y z"
  using between unfolding equiv_def by blast

lemma equiv_greater: "ok x \<Longrightarrow> ok y \<Longrightarrow> ok z \<Longrightarrow> equiv x y \<Longrightarrow> less z x \<longleftrightarrow> less z y"
  using between unfolding equiv_def by blast

text \<open>The contract carries over to sequences and to pairs.\<close>

lemma lex_strict_weak: "strict_weak (lex_less less) (list_all ok)"
proof
  fix xs ys zs
  show "list_all ok xs \<Longrightarrow> list_all ok ys \<Longrightarrow> lex_less less xs ys \<Longrightarrow> \<not> lex_less less ys xs"
    by (induction xs ys rule: list_induct2') (auto dest: asym)
  show "list_all ok xs \<Longrightarrow> list_all ok ys \<Longrightarrow> list_all ok zs \<Longrightarrow> lex_less less xs zs \<Longrightarrow>
      lex_less less xs ys \<or> lex_less less ys zs"
  proof (induction xs zs arbitrary: ys rule: list_induct2')
    case (3 z zs)
    then show ?case by (cases ys) simp_all
  next
    case (4 x xs z zs)
    show ?case
    proof (cases ys)
      case Nil
      then show ?thesis by simp
    next
      case (Cons y ys')
      with 4 asym [of x y] asym [of y z] asym [of x z] between [of x y z] between [of z y x]
        between [of x z y] between [of y x z]
        between [of y z x] between [of z x y]
      show ?thesis by auto
    qed
  qed simp_all
qed

lemma pair_strict_weak:
  assumes "strict_weak g ok'"
  shows "strict_weak (pair_less less g) (\<lambda>p. ok (fst p) \<and> ok' (snd p))"
  by unfold_locales
    (use asym between strict_weak.asym [OF assms] strict_weak.between [OF assms] in
      \<open>unfold pair_less_def, blast+\<close>)

end

text \<open>A total order: values neither of which is less are equal.\<close>

locale strict_total = strict_weak +
  assumes total: "ok x \<Longrightarrow> ok y \<Longrightarrow> \<not> less x y \<Longrightarrow> \<not> less y x \<Longrightarrow> x = y"
begin

lemma equiv_eq: "ok x \<Longrightarrow> ok y \<Longrightarrow> equiv x y \<longleftrightarrow> x = y"
  using total irrefl unfolding equiv_def by blast

lemma lex_strict_total: "strict_total (lex_less less) (list_all ok)"
proof (rule strict_total.intro [OF lex_strict_weak], unfold_locales)
  fix xs ys
  show "list_all ok xs \<Longrightarrow> list_all ok ys \<Longrightarrow> \<not> lex_less less xs ys \<Longrightarrow> \<not> lex_less less ys xs \<Longrightarrow> xs = ys"
    by (induction xs ys rule: list_induct2') (auto dest: total irrefl)
qed

lemma pair_strict_total:
  assumes "strict_total g ok'"
  shows "strict_total (pair_less less g) (\<lambda>p. ok (fst p) \<and> ok' (snd p))"
proof (rule strict_total.intro [OF pair_strict_weak [OF strict_total.axioms(1) [OF assms]]], unfold_locales)
  fix p q :: "'a \<times> 'b"
  assume "ok (fst p) \<and> ok' (snd p)" "ok (fst q) \<and> ok' (snd q)"
    and "\<not> pair_less less g p q" "\<not> pair_less less g q p"
  then have "fst p = fst q" "snd p = snd q"
    using total [of "fst p" "fst q"] irrefl [of "fst p"] strict_total.total [OF assms, of "snd p" "snd q"]
    by (auto simp: pair_less_def)
  then show "p = q" by (rule prod_eqI)
qed

end

section \<open>Maps\<close>

text \<open>
  \<open>std::map\<close>, as the sequence of its entries in iteration order.  \<open>map_find\<close> is \<open>find\<close>: the first
  entry whose key is not less than the key, if the key is not less than it; \<open>map_set\<close> is the
  assignment \<open>m[k] = v\<close>, which keeps the key of an entry that is there.
\<close>

definition map_find :: "('a \<Rightarrow> 'a \<Rightarrow> bool) \<Rightarrow> 'a \<Rightarrow> ('a \<times> 'b) list \<Rightarrow> 'b option" where
  "map_find f k m = (case dropWhile (\<lambda>p. f (fst p) k) m of
      [] \<Rightarrow> None
    | (k', v) # _ \<Rightarrow> if f k k' then None else Some v)"

definition map_set :: "('a \<Rightarrow> 'a \<Rightarrow> bool) \<Rightarrow> 'a \<Rightarrow> 'b \<Rightarrow> ('a \<times> 'b) list \<Rightarrow> ('a \<times> 'b) list" where
  "map_set f k v m = takeWhile (\<lambda>p. f (fst p) k) m @ (case dropWhile (\<lambda>p. f (fst p) k) m of
      [] \<Rightarrow> [(k, v)]
    | (k', v') # r \<Rightarrow> if f k k' then (k, v) # (k', v') # r else (k', v) # r)"

fun ordered :: "('a \<Rightarrow> 'a \<Rightarrow> bool) \<Rightarrow> ('a \<times> 'b) list \<Rightarrow> bool" where
  "ordered f [] = True"
| "ordered f (p # m) = (list_all (\<lambda>q. f (fst p) (fst q)) m \<and> ordered f m)"

lemma map_find_simps [simp]:
  "map_find f k [] = None"
  "map_find f k ((k', v) # m) = (if f k' k then map_find f k m else if f k k' then None else Some v)"
  by (simp_all add: map_find_def)

lemma map_set_simps [simp]:
  "map_set f k v [] = [(k, v)]"
  "map_set f k v ((k', v') # m) = (if f k' k then (k', v') # map_set f k v m
     else if f k k' then (k, v) # (k', v') # m else (k', v) # m)"
  by (simp_all add: map_set_def)

lemma map_set_keys: "p \<in> set (map_set f k v m) \<Longrightarrow> fst p = k \<or> (\<exists>q \<in> set m. fst p = fst q)"
  by (induction m) (force split: if_splits)+

context strict_weak
begin

abbreviation keys_ok :: "('a \<times> 'b) list \<Rightarrow> bool" where
  "keys_ok m \<equiv> list_all (\<lambda>p. ok (fst p)) m"

lemma set_keys_ok: "ok k \<Longrightarrow> keys_ok m \<Longrightarrow> keys_ok (map_set less k v m)"
  by (induction m) auto

lemma set_ordered:
  assumes "ok k" and "keys_ok m" and "ordered less m"
  shows "ordered less (map_set less k v m)"
  using assms(2,3)
proof (induction m)
  case (Cons p m)
  obtain k' v' where p: "p = (k', v')" by (cases p)
  have "list_all (\<lambda>q. less k' (fst q)) (map_set less k v m)" if "less k' k"
    using Cons.prems that by (auto simp: p list_all_iff dest!: map_set_keys)
  moreover have "list_all (\<lambda>q. less k (fst q)) m" if "less k k'"
    using Cons.prems that assms(1) by (auto simp: p list_all_iff intro: trans)
  ultimately show ?case using Cons by (auto simp: p)
qed simp

lemma find_set:
  assumes "ok k" and "ok k'" and "keys_ok m" and "ordered less m"
  shows "map_find less k' (map_set less k v m) =
    (if equiv k k' then Some v else map_find less k' m)"
  using assms(3,4)
proof (induction m)
  case Nil
  show ?case by (auto simp: equiv_def)
next
  case (Cons p m)
  obtain a b where p: "p = (a, b)" by (cases p)
  have a: "ok a" using Cons.prems by (simp add: p)
  have IH: "map_find less k' (map_set less k v m) = (if equiv k k' then Some v else map_find less k' m)"
    using Cons by simp
  show ?case
    using IH asym [OF a assms(1)] asym [OF a assms(2)] asym [OF assms(1,2)]
      between [OF a assms(1,2)] between [OF a assms(2,1)] between [OF assms(1) a assms(2)]
      between [OF assms(2) a assms(1)] between [OF assms(1,2) a] between [OF assms(2,1) a]
    by (auto simp: p equiv_def)
qed

end

end
