(* ===== verification/Object_Model.thy ===== *)
theory Object_Model
  imports Std_Order Wrappers
begin

text \<open>
  The class \<open>Object\<close> of \<open>common/object.hpp\<close> and \<open>object.cpp\<close>: a value of one of six types, its
  comparison, and the lazy switch over its type.  The object a \<open>Var\<open>ObjectImpl\<close>\<close> points to is
  never changed after its construction, so an \<open>Object\<close> is modelled by its value.
\<close>

section \<open>Types and values\<close>

datatype object_type = Type_None | Type_Dict | Type_Double | Type_Int | Type_List | Type_Str

text \<open>The values of the enumerators; scoped enumerations are compared by them.\<close>

fun object_type_value :: "object_type \<Rightarrow> nat" where
  "object_type_value Type_None = 0"
| "object_type_value Type_Dict = 1"
| "object_type_value Type_Double = 2"
| "object_type_value Type_Int = 3"
| "object_type_value Type_List = 4"
| "object_type_value Type_Str = 5"

lemma object_type_value_inj: "object_type_value s = object_type_value t \<longleftrightarrow> s = t"
  by (cases s; cases t) simp_all

instantiation object_type :: linorder
begin

definition less_eq_object_type :: "object_type \<Rightarrow> object_type \<Rightarrow> bool" where
  "less_eq_object_type s t = (object_type_value s \<le> object_type_value t)"

definition less_object_type :: "object_type \<Rightarrow> object_type \<Rightarrow> bool" where
  "less_object_type s t = (object_type_value s < object_type_value t)"

instance
  by standard (auto simp: less_eq_object_type_def less_object_type_def object_type_value_inj)

end

text \<open>
  A \<open>double\<close> is its IEEE 754 encoding: sign, exponent and fraction.  The magnitude of a number
  grows with the lower 63 bits, and the encodings above that of infinity are not numbers.
\<close>

datatype double = IEEE u64

definition double_magnitude :: "double \<Rightarrow> int" where
  "double_magnitude d = (case d of IEEE w \<Rightarrow> uint w mod 2 ^ 63)"

definition double_is_nan :: "double \<Rightarrow> bool" where
  "double_is_nan d \<longleftrightarrow> 0x7FF0000000000000 < double_magnitude d"

definition double_key :: "double \<Rightarrow> int" where
  "double_key d = (case d of IEEE w \<Rightarrow>
     if 2 ^ 63 \<le> uint w then - double_magnitude d else double_magnitude d)"

definition double_less :: "double \<Rightarrow> double \<Rightarrow> bool" where
  "double_less x y \<longleftrightarrow> \<not> double_is_nan x \<and> \<not> double_is_nan y \<and> double_key x < double_key y"

text \<open>Strings are compared by their bytes, as unsigned numbers.\<close>

definition str_less :: "string \<Rightarrow> string \<Rightarrow> bool" where
  "str_less = lex_less (\<lambda>a b. uchar a < uchar b)"

text \<open>The objects, one constructor per class derived from \<open>ObjectImpl\<close>, and the base class.\<close>

datatype obj =
    ObjectNone
  | ObjectDict "(obj \<times> obj) list"
  | ObjectDouble double
  | ObjectInt u32
  | ObjectList "obj list"
  | ObjectStr string

type_synonym dict = "(obj \<times> obj) list"

section \<open>Queries and conversions\<close>

fun get_type :: "obj \<Rightarrow> object_type" where
  "get_type ObjectNone = Type_None"
| "get_type (ObjectDict _) = Type_Dict"
| "get_type (ObjectDouble _) = Type_Double"
| "get_type (ObjectInt _) = Type_Int"
| "get_type (ObjectList _) = Type_List"
| "get_type (ObjectStr _) = Type_Str"

text \<open>The virtual functions, which return a pointer to the value, or null.\<close>

fun get_dict :: "obj \<Rightarrow> dict option" where
  "get_dict (ObjectDict v) = Some v"
| "get_dict _ = None"

fun get_double :: "obj \<Rightarrow> double option" where
  "get_double (ObjectDouble v) = Some v"
| "get_double _ = None"

fun get_int :: "obj \<Rightarrow> u32 option" where
  "get_int (ObjectInt v) = Some v"
| "get_int _ = None"

fun get_list :: "obj \<Rightarrow> obj list option" where
  "get_list (ObjectList v) = Some v"
| "get_list _ = None"

fun get_str :: "obj \<Rightarrow> string option" where
  "get_str (ObjectStr v) = Some v"
| "get_str _ = None"

text \<open>What the macro generates for each type: \<open>is_\<close> and \<open>as_\<close>.\<close>

definition is_type :: "object_type \<Rightarrow> obj \<Rightarrow> bool" where
  "is_type t x = (get_type x = t)"

definition is_dict :: "obj \<Rightarrow> bool" where "is_dict = is_type Type_Dict"
definition is_double :: "obj \<Rightarrow> bool" where "is_double = is_type Type_Double"
definition is_int :: "obj \<Rightarrow> bool" where "is_int = is_type Type_Int"
definition is_list :: "obj \<Rightarrow> bool" where "is_list = is_type Type_List"
definition is_str :: "obj \<Rightarrow> bool" where "is_str = is_type Type_Str"

text \<open>
  \<open>as_\<close> itself never throws: for an object of another type it is a \<open>Maybe\<close> with the error \<open>TypeError\<close>,
  and reading that throws an \<open>Error\<close> with its code (\<open>as_value\<close>).
\<close>

definition as_type :: "(obj \<Rightarrow> 'a option) \<Rightarrow> 'a \<Rightarrow> obj \<Rightarrow> 'a maybe" where
  "as_type get dflt x = (case get x of
      None \<Rightarrow> Maybe_error_value TypeError dflt
    | Some v \<Rightarrow> Maybe_of_value v)"

definition as_dict :: "obj \<Rightarrow> dict maybe" where "as_dict = as_type get_dict []"
definition as_double :: "obj \<Rightarrow> double maybe" where "as_double = as_type get_double (IEEE 0)"
definition as_int :: "obj \<Rightarrow> u32 maybe" where "as_int = as_type get_int 0"
definition as_list :: "obj \<Rightarrow> obj list maybe" where "as_list = as_type get_list []"
definition as_str :: "obj \<Rightarrow> string maybe" where "as_str = as_type get_str ''''"

text \<open>Walking through containers: the function is called for every entry, in order.\<close>

definition for_each_dict :: "dict \<Rightarrow> (obj \<Rightarrow> obj \<Rightarrow> ('s, exn, unit) prog) \<Rightarrow> ('s, exn, unit) prog" where
  "for_each_dict d func = run_all (\<lambda>p. func (fst p) (snd p)) d"

definition for_each_list :: "obj list \<Rightarrow> (obj \<Rightarrow> ('s, exn, unit) prog) \<Rightarrow> ('s, exn, unit) prog" where
  "for_each_list l func = run_all func l"

section \<open>Comparison\<close>

lemma size_of_entry:
  assumes "(a, b) \<in> set m"
  shows "size a < Suc (size_list (size_prod size size) m) \<and> size b < Suc (size_list (size_prod size size) m)"
proof -
  have "size_prod size size (a, b) \<le> size_list (size_prod size size) m"
    using assms by (rule size_list_estimation') simp
  then show ?thesis by simp
qed

lemma size_of_element: "(x :: obj) \<in> set xs \<Longrightarrow> size x < Suc (size_list size xs)"
  by (auto simp: less_Suc_eq_le intro!: size_list_estimation')

function obj_less :: "obj \<Rightarrow> obj \<Rightarrow> bool" where
  "obj_less x y =
     (if get_type x \<noteq> get_type y then get_type x < get_type y
      else case (x, y) of
          (ObjectDict a, ObjectDict b) \<Rightarrow> lex_less (pair_less obj_less obj_less) a b
        | (ObjectDouble a, ObjectDouble b) \<Rightarrow> double_less a b
        | (ObjectInt a, ObjectInt b) \<Rightarrow> sint a < sint b
        | (ObjectList a, ObjectList b) \<Rightarrow> lex_less obj_less a b
        | (ObjectStr a, ObjectStr b) \<Rightarrow> str_less a b
        | _ \<Rightarrow> True)"
  by pat_completeness auto
termination
  by (relation "measure (\<lambda>(x, y). size x + size y)")
    (auto dest!: size_of_entry size_of_element)

declare obj_less.simps [simp del]

lemma obj_less_types: "get_type x \<noteq> get_type y \<Longrightarrow> obj_less x y = (get_type x < get_type y)"
  by (subst obj_less.simps) simp

lemma obj_less_simps [simp]:
  "obj_less ObjectNone ObjectNone = True"
  "obj_less (ObjectDict a) (ObjectDict b) = lex_less (pair_less obj_less obj_less) a b"
  "obj_less (ObjectDouble d) (ObjectDouble e) = double_less d e"
  "obj_less (ObjectInt i) (ObjectInt j) = (sint i < sint j)"
  "obj_less (ObjectList xs) (ObjectList ys) = lex_less obj_less xs ys"
  "obj_less (ObjectStr s) (ObjectStr t) = str_less s t"
  by (subst obj_less.simps, simp)+

section \<open>The lazy switch\<close>

text \<open>
  The registered functions are closures of the client.  \<open>switch_arg\<close> is what one is called with.
\<close>

datatype switch_arg =
    No_Arg
  | Dict_Arg dict
  | Double_Arg double
  | Int_Arg u32
  | List_Arg "obj list"
  | Str_Arg string

record 'k type_switch =
  switch_ctx :: obj
  case_none_fn :: "'k option"
  case_dict_fn :: "'k option"
  case_double_fn :: "'k option"
  case_int_fn :: "'k option"
  case_list_fn :: "'k option"
  case_str_fn :: "'k option"
  otherwise_fn :: "'k option"

definition switch_type :: "obj \<Rightarrow> 'k type_switch" where
  "switch_type x = \<lparr>switch_ctx = x, case_none_fn = None, case_dict_fn = None, case_double_fn = None,
     case_int_fn = None, case_list_fn = None, case_str_fn = None, otherwise_fn = None\<rparr>"

definition case_none :: "'k \<Rightarrow> 'k type_switch \<Rightarrow> 'k type_switch" where
  "case_none fn sw = sw\<lparr>case_none_fn := Some fn\<rparr>"

definition case_dict :: "'k \<Rightarrow> 'k type_switch \<Rightarrow> 'k type_switch" where
  "case_dict fn sw = sw\<lparr>case_dict_fn := Some fn\<rparr>"

definition case_double :: "'k \<Rightarrow> 'k type_switch \<Rightarrow> 'k type_switch" where
  "case_double fn sw = sw\<lparr>case_double_fn := Some fn\<rparr>"

definition case_int :: "'k \<Rightarrow> 'k type_switch \<Rightarrow> 'k type_switch" where
  "case_int fn sw = sw\<lparr>case_int_fn := Some fn\<rparr>"

definition case_list_type :: "'k \<Rightarrow> 'k type_switch \<Rightarrow> 'k type_switch" where
  "case_list_type fn sw = sw\<lparr>case_list_fn := Some fn\<rparr>"

definition case_str :: "'k \<Rightarrow> 'k type_switch \<Rightarrow> 'k type_switch" where
  "case_str fn sw = sw\<lparr>case_str_fn := Some fn\<rparr>"

definition otherwise :: "'k \<Rightarrow> 'k type_switch \<Rightarrow> 'k type_switch" where
  "otherwise fn sw = sw\<lparr>otherwise_fn := Some fn\<rparr>"

lemmas switch_defs = switch_type_def case_none_def case_dict_def case_double_def case_int_def
  case_list_type_def case_str_def otherwise_def

text \<open>
  The destructor executes the switch.  \<open>switch_case\<close> is the body of its macro; the pointer the
  macro dereferences is the one the virtual function returned.
\<close>

definition switch_case ::
  "('k \<Rightarrow> switch_arg \<Rightarrow> ('s, exn, unit) prog) \<Rightarrow> 'k option \<Rightarrow> switch_arg option \<Rightarrow> 'k option \<Rightarrow>
   ('s, exn, unit) prog" where
  "switch_case client fn arg other = (case fn of
      Some k \<Rightarrow> (case arg of None \<Rightarrow> raise (UndefinedBehaviour ''null pointer'') | Some a \<Rightarrow> client k a)
    | None \<Rightarrow> (case other of Some k \<Rightarrow> client k No_Arg | None \<Rightarrow> ret ()))"

definition run_switch ::
  "('k \<Rightarrow> switch_arg \<Rightarrow> ('s, exn, unit) prog) \<Rightarrow> 'k type_switch \<Rightarrow> ('s, exn, unit) prog" where
  "run_switch client sw =
     (let ctx = switch_ctx sw; other = otherwise_fn sw
      in if get_type ctx = Type_Dict then
           switch_case client (case_dict_fn sw) (map_option Dict_Arg (get_dict ctx)) other
         else if get_type ctx = Type_Double then
           switch_case client (case_double_fn sw) (map_option Double_Arg (get_double ctx)) other
         else if get_type ctx = Type_Int then
           switch_case client (case_int_fn sw) (map_option Int_Arg (get_int ctx)) other
         else if get_type ctx = Type_List then
           switch_case client (case_list_fn sw) (map_option List_Arg (get_list ctx)) other
         else if get_type ctx = Type_Str then
           switch_case client (case_str_fn sw) (map_option Str_Arg (get_str ctx)) other
         else if get_type ctx = Type_None then
           switch_case client (case_none_fn sw) (Some No_Arg) other
         else raise (ErrorExn GenericError))"

end
