(* ===== verification/Object_Order.thy ===== *)
theory Object_Order
  imports Object_Model
begin

text \<open>
  The comparison of objects meets the contract of \<open>std::map\<close> on the objects that contain no
  \<open>None\<close> and no \<open>double\<close> that is not a number, and it is a total order on those of them that
  contain no negative zero.
\<close>

section \<open>The comparisons of the scalars\<close>

definition ordinary :: "double \<Rightarrow> bool" where
  "ordinary d \<longleftrightarrow> \<not> double_is_nan d \<and> d \<noteq> IEEE 0x8000000000000000"

interpretation doubles: strict_weak double_less "\<lambda>d. \<not> double_is_nan d"
  by unfold_locales (auto simp: double_less_def)

lemma double_key_inj:
  assumes "ordinary d" and "ordinary e" and "double_key d = double_key e"
  shows "d = e"
proof -
  obtain v w where de: "d = IEEE v" "e = IEEE w" by (cases d; cases e)
  define a b where "a = uint v" and "b = uint w"
  have ab: "0 \<le> a" "a < 2 ^ 64" "0 \<le> b" "b < 2 ^ 64"
    using uint_bounded [of v] uint_bounded [of w] by (simp_all add: a_def b_def)
  have "uint (0x8000000000000000 :: u64) = 2 ^ 63" by simp
  then have "v \<noteq> 0x8000000000000000 \<longleftrightarrow> a \<noteq> 2 ^ 63" "w \<noteq> 0x8000000000000000 \<longleftrightarrow> b \<noteq> 2 ^ 63"
    unfolding a_def b_def by (metis word_uint_eqI)+
  then have "a \<noteq> 2 ^ 63" "b \<noteq> 2 ^ 63" using assms(1,2) by (simp_all add: ordinary_def de)
  moreover have "c mod 2 ^ 63 = (if 2 ^ 63 \<le> c then c - 2 ^ 63 else c)" if "0 \<le> c" "c < 2 ^ 64" for c :: int
    using that minus_mod_self2 [of c "2 ^ 63"] mod_pos_pos_trivial [of "c - 2 ^ 63" "2 ^ 63"]
    by auto
  moreover have "double_key d = (if 2 ^ 63 \<le> a then - (a mod 2 ^ 63) else a mod 2 ^ 63)"
    "double_key e = (if 2 ^ 63 \<le> b then - (b mod 2 ^ 63) else b mod 2 ^ 63)"
    by (simp_all only: de double_key_def double_magnitude_def double.case a_def b_def)
  ultimately have "a = b" using ab assms(3) by (auto split: if_splits)
  then show ?thesis unfolding de a_def b_def by (simp add: word_uint_eqI)
qed

interpretation ordinary_doubles: strict_total double_less ordinary
  by unfold_locales (auto simp: ordinary_def double_less_def intro: double_key_inj)

interpretation ints: strict_total "\<lambda>a b :: u32. sint a < sint b" "\<lambda>_. True"
  by unfold_locales (auto simp: signed_word_eqI)

interpretation chars: strict_total "\<lambda>a b. uchar a < uchar b" "\<lambda>_. True"
  by unfold_locales (auto simp: uchar_def)

lemma list_all_True: "list_all (\<lambda>_. True) = (\<lambda>_. True)"
  by (simp add: fun_eq_iff list_all_iff)

interpretation strings: strict_total str_less "\<lambda>_. True"
  unfolding str_less_def by (rule chars.lex_strict_total [unfolded list_all_True])

section \<open>The comparison of objects\<close>

text \<open>No \<open>None\<close> anywhere, and all numbers as \<open>D\<close> asks.\<close>

fun regular :: "(double \<Rightarrow> bool) \<Rightarrow> obj \<Rightarrow> bool" where
  "regular D ObjectNone = False"
| "regular D (ObjectDict m) = list_all (\<lambda>p. regular D (fst p) \<and> regular D (snd p)) m"
| "regular D (ObjectDouble d) = D d"
| "regular D (ObjectInt _) = True"
| "regular D (ObjectList xs) = list_all (regular D) xs"
| "regular D (ObjectStr _) = True"

lemma regular_mono: "(\<And>d. D d \<Longrightarrow> E d) \<Longrightarrow> regular D x \<Longrightarrow> regular E x"
  by (induction D x rule: regular.induct) (auto simp: list_all_iff)

lemma less_of_equal_types:
  "get_type x = get_type y \<Longrightarrow> regular D x \<Longrightarrow> regular D y \<Longrightarrow>
   (\<And>a b. x = ObjectDict a \<Longrightarrow> y = ObjectDict b \<Longrightarrow> P) \<Longrightarrow>
   (\<And>d e. x = ObjectDouble d \<Longrightarrow> y = ObjectDouble e \<Longrightarrow> P) \<Longrightarrow>
   (\<And>i j. x = ObjectInt i \<Longrightarrow> y = ObjectInt j \<Longrightarrow> P) \<Longrightarrow>
   (\<And>xs ys. x = ObjectList xs \<Longrightarrow> y = ObjectList ys \<Longrightarrow> P) \<Longrightarrow>
   (\<And>s t. x = ObjectStr s \<Longrightarrow> y = ObjectStr t \<Longrightarrow> P) \<Longrightarrow> P"
  by (cases x; cases y) simp_all

text \<open>
  The carrier of the induction: regular objects of bounded size.
\<close>

abbreviation regular_below :: "(double \<Rightarrow> bool) \<Rightarrow> nat \<Rightarrow> obj \<Rightarrow> bool" where
  "regular_below D n x \<equiv> regular D x \<and> size x < n"

lemma dict_below:
  assumes "list_all (\<lambda>p. regular D (fst p) \<and> regular D (snd p)) m"
    and "size_list (size_prod size size) m < n"
  shows "list_all (\<lambda>p. regular_below D n (fst p) \<and> regular_below D n (snd p)) m"
  using assms by (fastforce simp: list_all_iff dest: size_of_entry)

lemma list_below:
  assumes "list_all (regular D) xs" and "size_list size xs < n"
  shows "list_all (regular_below D n) xs"
  using assms by (fastforce simp: list_all_iff dest: size_of_element)

lemma obj_less_weak_step:
  assumes D: "\<And>d. D d \<Longrightarrow> \<not> double_is_nan d" and IH: "strict_weak obj_less (regular_below D n)"
  shows "strict_weak obj_less (regular_below D (Suc n))"
proof
  note lists = strict_weak.lex_strict_weak [OF IH]
  note dicts = strict_weak.lex_strict_weak [OF strict_weak.pair_strict_weak [OF IH IH]]
  fix x y z :: obj
  show "\<not> obj_less y x" if xy: "regular_below D (Suc n) x" "regular_below D (Suc n) y" "obj_less x y"
  proof (cases "get_type x = get_type y")
    case True
    show ?thesis
    proof (rule less_of_equal_types [where D = D, OF True])
      show "\<not> obj_less y x" if "x = ObjectDict a" "y = ObjectDict b" for a b
        using strict_weak.asym [OF dicts dict_below dict_below, of a b] xy that by simp
      show "\<not> obj_less y x" if "x = ObjectList a" "y = ObjectList b" for a b
        using strict_weak.asym [OF lists list_below list_below, of a b] xy that by simp
      show "\<not> obj_less y x" if "x = ObjectDouble a" "y = ObjectDouble b" for a b
        using doubles.asym [of a b] xy that by (simp add: D)
      show "\<not> obj_less y x" if "x = ObjectStr a" "y = ObjectStr b" for a b
        using strings.asym [of a b] xy that by simp
    qed (use xy in auto)
  qed (use xy(3) in \<open>simp add: obj_less_types\<close>)
  show "obj_less x z \<Longrightarrow> obj_less x y \<or> obj_less y z"
    if xyz: "regular_below D (Suc n) x" "regular_below D (Suc n) y" "regular_below D (Suc n) z"
  proof (cases "get_type x = get_type y \<and> get_type y = get_type z")
    case True
    assume less: "obj_less x z"
    from True have xy: "get_type x = get_type y" by simp
    show ?thesis
    proof (rule less_of_equal_types [where D = D, OF xy])
      show "obj_less x y \<or> obj_less y z" if "x = ObjectDict a" "y = ObjectDict b" for a b
      proof -
        from that True obtain c where "z = ObjectDict c" by (cases z) auto
        with strict_weak.between [OF dicts dict_below dict_below dict_below, of a b c] xyz less that
        show ?thesis by simp
      qed
      show "obj_less x y \<or> obj_less y z" if "x = ObjectList a" "y = ObjectList b" for a b
      proof -
        from that True obtain c where "z = ObjectList c" by (cases z) auto
        with strict_weak.between [OF lists list_below list_below list_below, of a b c] xyz less that
        show ?thesis by simp
      qed
      show "obj_less x y \<or> obj_less y z" if "x = ObjectDouble a" "y = ObjectDouble b" for a b
      proof -
        from that True obtain c where "z = ObjectDouble c" by (cases z) auto
        with doubles.between [of a b c] xyz less that show ?thesis by (simp add: D)
      qed
      show "obj_less x y \<or> obj_less y z" if "x = ObjectStr a" "y = ObjectStr b" for a b
      proof -
        from that True obtain c where "z = ObjectStr c" by (cases z) auto
        with strings.between [of a c b] less that show ?thesis by auto
      qed
      show "obj_less x y \<or> obj_less y z" if "x = ObjectInt a" "y = ObjectInt b" for a b
      proof -
        from that True obtain c where "z = ObjectInt c" by (cases z) auto
        with less that show ?thesis by auto
      qed
    qed (use xyz in simp_all)
  next
    case False
    assume "obj_less x z"
    then have "get_type x \<le> get_type z"
      by (cases "get_type x = get_type z") (simp_all add: obj_less_types)
    with False have "get_type x < get_type y \<or> get_type y < get_type z"
      by (auto simp: not_less)
    then show ?thesis
      using obj_less_types [of x y] obj_less_types [of y z] by (metis order_less_irrefl)
  qed
qed

lemma obj_less_weak:
  assumes "\<And>d. D d \<Longrightarrow> \<not> double_is_nan d"
  shows "strict_weak obj_less (regular_below D n)"
proof (induction n)
  case 0
  show ?case by unfold_locales simp_all
qed (rule obj_less_weak_step [OF assms])

lemma obj_less_total:
  "regular ordinary x \<Longrightarrow> regular ordinary y \<Longrightarrow> size x < n \<Longrightarrow> size y < n \<Longrightarrow>
   \<not> obj_less x y \<Longrightarrow> \<not> obj_less y x \<Longrightarrow> x = y"
proof (induction n arbitrary: x y)
  case (Suc n)
  have "strict_weak obj_less (regular_below ordinary n)"
    by (rule obj_less_weak) (simp add: ordinary_def)
  then have IH: "strict_total obj_less (regular_below ordinary n)"
    by (rule strict_total.intro) (unfold_locales, blast intro: Suc.IH)
  note lists = strict_total.total [OF strict_total.lex_strict_total [OF IH] list_below list_below]
  note dicts = strict_total.total [OF strict_total.lex_strict_total
      [OF strict_total.pair_strict_total [OF IH IH]] dict_below dict_below]
  show ?case
  proof (cases "get_type x = get_type y")
    case True
    show ?thesis
    proof (rule less_of_equal_types [where D = ordinary, OF True])
      show "x = y" if "x = ObjectDict a" "y = ObjectDict b" for a b
        using Suc.prems that dicts [of a b] by auto
      show "x = y" if "x = ObjectList a" "y = ObjectList b" for a b
        using Suc.prems that lists [of a b] by auto
      show "x = y" if "x = ObjectDouble a" "y = ObjectDouble b" for a b
        using Suc.prems that ordinary_doubles.total [of a b] by auto
      show "x = y" if "x = ObjectInt a" "y = ObjectInt b" for a b
        using Suc.prems(5,6) unfolding that by (simp, intro ints.total) simp_all
      show "x = y" if "x = ObjectStr a" "y = ObjectStr b" for a b
        using Suc.prems(5,6) unfolding that by (simp, intro strings.total) simp_all
    qed (use Suc.prems in simp_all)
  next
    case False
    then show ?thesis using Suc.prems by (simp add: obj_less_types not_less)
  qed
qed simp

interpretation objects: strict_weak obj_less "regular (\<lambda>d. \<not> double_is_nan d)"
proof
  fix x y z :: obj
  let ?n = "Suc (size x + size y + size z)"
  note weak = obj_less_weak [of "\<lambda>d. \<not> double_is_nan d" ?n]
  show "regular (\<lambda>d. \<not> double_is_nan d) x \<Longrightarrow> regular (\<lambda>d. \<not> double_is_nan d) y \<Longrightarrow>
      obj_less x y \<Longrightarrow> \<not> obj_less y x"
    using strict_weak.asym [OF weak, of x y] by simp
  show "regular (\<lambda>d. \<not> double_is_nan d) x \<Longrightarrow> regular (\<lambda>d. \<not> double_is_nan d) y \<Longrightarrow>
      regular (\<lambda>d. \<not> double_is_nan d) z \<Longrightarrow> obj_less x z \<Longrightarrow> obj_less x y \<or> obj_less y z"
    using strict_weak.between [OF weak, of x y z] by simp
qed

interpretation ordinary_objects: strict_total obj_less "regular ordinary"
proof
  fix x y z :: obj
  have nan: "regular ordinary v \<Longrightarrow> regular (\<lambda>d. \<not> double_is_nan d) v" for v
    by (rule regular_mono [of ordinary]) (auto simp: ordinary_def)
  show "regular ordinary x \<Longrightarrow> regular ordinary y \<Longrightarrow> obj_less x y \<Longrightarrow> \<not> obj_less y x"
    using objects.asym nan by blast
  show "regular ordinary x \<Longrightarrow> regular ordinary y \<Longrightarrow> regular ordinary z \<Longrightarrow> obj_less x z \<Longrightarrow>
      obj_less x y \<or> obj_less y z"
    using objects.between nan by blast
  show "regular ordinary x \<Longrightarrow> regular ordinary y \<Longrightarrow> \<not> obj_less x y \<Longrightarrow> \<not> obj_less y x \<Longrightarrow> x = y"
    by (rule obj_less_total [of x y "Suc (size x + size y)"]) simp_all
qed

end
