(* ===== verification/Object_Props.thy ===== *)
theory Object_Props
  imports Object_Order
begin

text \<open>
  The properties of \<open>Object\<close>: that its comparison makes it a key of
  \<open>std::map\<close>, where it does not, and what the lazy switch executes.
\<close>

section \<open>Comparison\<close>

text \<open>
  C28: On the objects that contain no \<open>None\<close>, no \<open>double\<close> that is not a number and no negative
  zero, at any depth, \<open>operator<\<close> is a strict total order: exactly one of less, equal, greater
  holds, and it is transitive.
\<close>

theorem object_less_total_order:
  assumes "regular ordinary x" and "regular ordinary y" and "regular ordinary z"
  shows "(obj_less x y, obj_less y x, x = y) \<in> {(True, False, False), (False, True, False),
      (False, False, True)} \<and> (obj_less x y \<and> obj_less y z \<longrightarrow> obj_less x z)"
  using assms ordinary_objects.asym [of x y] ordinary_objects.total [of x y]
    ordinary_objects.irrefl [of x] ordinary_objects.trans [of x y z]
  by (cases "x = y"; cases "obj_less x y"; cases "obj_less y x") simp_all

theorem object_less_total_order_witness:
  "(obj_less (ObjectInt 5) (ObjectList [ObjectStr ''a'']),
    obj_less (ObjectList [ObjectStr ''a'']) (ObjectInt 5),
    ObjectInt 5 = ObjectList [ObjectStr ''a'']) = (True, False, False)"
proof -
  have "get_type (ObjectInt 5) < get_type (ObjectList [ObjectStr ''a''])"
    by (simp add: less_object_type_def)
  then have "obj_less (ObjectInt 5) (ObjectList [ObjectStr ''a''])" by (simp add: obj_less_types)
  with object_less_total_order [of "ObjectInt 5" "ObjectList [ObjectStr ''a'']" "ObjectStr ''b''"]
  show ?thesis by simp
qed

text \<open>
  C20: A dictionary keyed by such objects (negative zeros allowed) is kept in strictly ascending
  order by an assignment, and lookup after the assignment finds the assigned value under the
  keys that compare equivalent to the key, and what was there before under every other key.
\<close>

theorem dict_lookup_after_set:
  assumes "regular (\<lambda>d. \<not> double_is_nan d) k" and "regular (\<lambda>d. \<not> double_is_nan d) k'"
    and "regular (\<lambda>d. \<not> double_is_nan d) (ObjectDict m)" and "ordered obj_less m"
  shows "ordered obj_less (map_set obj_less k v m) \<and>
    map_find obj_less k' (map_set obj_less k v m) =
      (if obj_less k k' \<or> obj_less k' k then map_find obj_less k' m else Some v)"
proof -
  have "objects.keys_ok m" using assms(3) by (simp add: list_all_iff)
  with assms objects.set_ordered [of k m v] objects.find_set [of k k' m v] show ?thesis
    by (simp add: objects.equiv_def)
qed

theorem dict_lookup_after_set_witness:
  "map_find obj_less (ObjectStr ''age'') (map_set obj_less (ObjectStr ''age'') (ObjectInt 33)
     [(ObjectStr ''name'', ObjectStr ''S'')]) = Some (ObjectInt 33)"
proof -
  have "\<not> obj_less (ObjectStr ''age'') (ObjectStr ''age'')" by (simp add: str_less_def)
  with dict_lookup_after_set [of "ObjectStr ''age''" "ObjectStr ''age''"
      "[(ObjectStr ''name'', ObjectStr ''S'')]" "ObjectInt 33"]
  show ?thesis by simp
qed

text \<open>
  The comparison is no order as soon as \<open>None\<close> is involved: \<open>None\<close> is less than itself, and so
  is every list and every dictionary that starts with it.  A value stored under the key \<open>None\<close>
  in an empty dictionary is not found, and storing it again adds a second entry.
\<close>

theorem none_key_is_lost:
  "obj_less ObjectNone ObjectNone \<and>
   obj_less (ObjectList (ObjectNone # xs)) (ObjectList (ObjectNone # xs)) \<and>
   obj_less (ObjectDict ((ObjectNone, w) # m)) (ObjectDict ((ObjectNone, w) # m)) \<and>
   map_find obj_less ObjectNone (map_set obj_less ObjectNone v []) = None \<and>
   length (map_set obj_less ObjectNone v (map_set obj_less ObjectNone v [])) = 2"
  by (simp add: pair_less_def)

section \<open>The lazy switch\<close>

text \<open>Registering a function for a type; the member that is for an object, and its argument.\<close>

fun register :: "object_type \<times> 'k \<Rightarrow> 'k type_switch \<Rightarrow> 'k type_switch" where
  "register (Type_None, k) = case_none k"
| "register (Type_Dict, k) = case_dict k"
| "register (Type_Double, k) = case_double k"
| "register (Type_Int, k) = case_int k"
| "register (Type_List, k) = case_list_type k"
| "register (Type_Str, k) = case_str k"

fun registered :: "object_type \<Rightarrow> 'k type_switch \<Rightarrow> 'k option" where
  "registered Type_None = case_none_fn"
| "registered Type_Dict = case_dict_fn"
| "registered Type_Double = case_double_fn"
| "registered Type_Int = case_int_fn"
| "registered Type_List = case_list_fn"
| "registered Type_Str = case_str_fn"

fun arg_of :: "obj \<Rightarrow> switch_arg" where
  "arg_of ObjectNone = No_Arg"
| "arg_of (ObjectDict v) = Dict_Arg v"
| "arg_of (ObjectDouble v) = Double_Arg v"
| "arg_of (ObjectInt v) = Int_Arg v"
| "arg_of (ObjectList v) = List_Arg v"
| "arg_of (ObjectStr v) = Str_Arg v"

lemma register_simps [simp]:
  "switch_ctx (register r sw) = switch_ctx sw"
  "otherwise_fn (register r sw) = otherwise_fn sw"
  "registered t (register r sw) = (if t = fst r then Some (snd r) else registered t sw)"
  by (cases r; cases "fst r"; cases t; simp add: switch_defs)+

lemma register_all:
  "switch_ctx (fold register rs sw) = switch_ctx sw"
  "otherwise_fn (fold register rs sw) = otherwise_fn sw"
  "registered t (fold register rs sw) = (case map_of (rev rs) t of
     Some k \<Rightarrow> Some k | None \<Rightarrow> registered t sw)"
  by (induction rs arbitrary: sw) (auto simp: map_add_def split: option.splits)

lemma run_switch_registered:
  "run_switch client sw = (case registered (get_type (switch_ctx sw)) sw of
     Some k \<Rightarrow> client k (arg_of (switch_ctx sw))
   | None \<Rightarrow> (case otherwise_fn sw of Some k \<Rightarrow> client k No_Arg | None \<Rightarrow> ret ()))"
  by (cases "switch_ctx sw") (simp_all add: run_switch_def switch_case_def split: option.splits)

lemma registered_simps [simp]:
  "registered t (switch_type x) = None" "switch_ctx (switch_type x) = x"
  "otherwise_fn (switch_type x) = None"
  "registered t (otherwise k sw) = registered t sw" "switch_ctx (otherwise k sw) = switch_ctx sw"
  "otherwise_fn (otherwise k sw) = Some k"
  by (cases t; simp add: switch_type_def otherwise_def)+

text \<open>
  However many functions are registered and in whatever order, the switch runs exactly one:
  the one registered last for the type of the object, with the object's value; else the default
  one, if there is one.  It never dereferences null and never reaches its final \<open>throw\<close>.
\<close>

theorem switch_runs_last_registered:
  "run_switch client (case other of
       None \<Rightarrow> fold register rs (switch_type x)
     | Some k \<Rightarrow> otherwise k (fold register rs (switch_type x))) =
   (case map_of (rev rs) (get_type x) of
       Some k \<Rightarrow> client k (arg_of x)
     | None \<Rightarrow> (case other of Some k \<Rightarrow> client k No_Arg | None \<Rightarrow> ret ()))"
  by (cases other; cases "map_of (rev rs) (get_type x)")
    (simp_all add: run_switch_registered register_all)

section \<open>Walking through containers\<close>

text \<open>A walk that runs calls the function for the entries in order, and only for them.\<close>

lemma for_each_list_log:
  "(\<And>x s. runs (func x) s (\<lambda>_ t. log t = log s @ [x])) \<Longrightarrow>
   runs (for_each_list xs func) s (\<lambda>_ t. log t = log s @ xs)"
  unfolding for_each_list_def
proof (induction xs arbitrary: s)
  case (Cons x xs)
  show ?case
    unfolding run_all.simps runs_andthen
    by (rule runs_mono [OF Cons.prems]) (rule runs_mono [OF Cons.IH [OF Cons.prems]], simp)
qed (simp add: runs_ret)

end
