(* ===== verification/Lifecycle.thy ===== *)
theory Lifecycle
  imports Libevent_Sim
begin

text \<open>
  The life of a \<open>Bufferevent\<close>: libevent keeps the object alive through the pointer \<open>varp\<close> that it
  passes to the C callbacks; when C++ code no longer refers to the object, the next callback
  detaches it from libevent and sets a timer that deletes \<open>varp\<close>, and with it the object.  The
  steps of the event loop are a relation on states, and what keeps memory safe is an invariant.
\<close>

section \<open>The callbacks libevent has registered\<close>

text \<open>
  \<open>registered w p\<close> is the argument of the last \<open>bufferevent_setcb\<close> on \<open>p\<close>, with which libevent
  calls the callbacks.  A new bufferevent has none, a freed one loses it, a filter takes over the
  callbacks of the bufferevent under it, and nothing else changes it.
\<close>

locale callback_api = bufferevent_api L content
  for L :: "'w libevent" and content :: "'w \<Rightarrow> cptr \<Rightarrow> string" +
  fixes registered :: "'w \<Rightarrow> cptr \<Rightarrow> nat option"
  assumes reg_null: "registered w nullptr = None"
    and reg_setcb: "p \<noteq> nullptr \<Longrightarrow> registered (bufferevent_setcb L p arg w) = (registered w)(p := arg)"
    and reg_socket_new: "bufferevent_socket_new L base fd flags w = (p, w') \<Longrightarrow>
        registered w' = registered w \<and> registered w p = None"
    and reg_filter_new: "bufferevent_openssl_filter_new L base u ssl st opts w = (p, w') \<Longrightarrow>
        p \<noteq> nullptr \<Longrightarrow> registered w' = (registered w)(u := None) \<and> registered w p = None \<and> p \<noteq> u"
    and reg_free: "registered (bufferevent_free L p w) = (registered w)(p := None)"
    and reg_same: "registered (snd (evbuffer_drain L b n w)) = registered w"
      "registered (snd (evbuffer_add L b x w)) = registered w"
      "registered (snd (evbuffer_peek L b l at n w)) = registered w"
      "registered (snd (evbuffer_search_eol L b at style w)) = registered w"
      "registered (snd (bufferevent_write L p x w)) = registered w"
      "registered (snd (bufferevent_enable L p what w)) = registered w"
      "registered (snd (bufferevent_disable L p what w)) = registered w"
      "registered (snd (bufferevent_set_timeouts L p rt wt w)) = registered w"
      "registered (snd (bufferevent_socket_connect L p sa len w)) = registered w"
      "registered (snd (event_base_once L base sock what cbp timeo w)) = registered w"

definition sim_registered :: "simw \<Rightarrow> cptr \<Rightarrow> nat option" where
  "sim_registered w p = (if p = 0 then None else case map_of (sim_cbs w) p of None \<Rightarrow> None | Some arg \<Rightarrow> arg)"

section \<open>The invariant\<close>

text \<open>A timer is set that will delete the object.\<close>

definition doomed :: "nat \<Rightarrow> ('c, 'w, 'z) evst_scheme \<Rightarrow> bool" where
  "doomed h s \<longleftrightarrow> (\<exists>i. onces s i = Some (DeleteVarp h))"

definition alive :: "nat \<Rightarrow> ('c, 'w, 'z) evst_scheme \<Rightarrow> bool" where
  "alive h s \<longleftrightarrow> (\<exists>b. bevs s h = Some b \<and> varp b)"

text \<open>
  What libevent calls back with is an object whose \<open>varp\<close> has not been deleted; what a timer will
  delete is such an object too, C++ code does not refer to it, libevent no longer calls back with
  it, and no other timer will delete it.
\<close>

definition memory_safe ::
  "('w \<Rightarrow> cptr \<Rightarrow> nat option) \<Rightarrow> (nat \<Rightarrow> ('c, 'w, 'z) evst_scheme \<Rightarrow> bool) \<Rightarrow>
   ('c, 'w, 'z) evst_scheme \<Rightarrow> bool" where
  "memory_safe registered unique s \<longleftrightarrow>
     (\<forall>p h. registered (world s) p = Some h \<longrightarrow> (\<exists>b. bevs s h = Some b \<and> varp b \<and> bevp b = p)) \<and>
     (\<forall>h. doomed h s \<longrightarrow> alive h s \<and> unique h s \<and> (\<forall>p. registered (world s) p \<noteq> Some h)) \<and>
     (\<forall>i j h. onces s i = Some (DeleteVarp h) \<longrightarrow> onces s j = Some (DeleteVarp h) \<longrightarrow> i = j) \<and>
     (\<forall>h. next_bev s \<le> h \<longrightarrow> bevs s h = None) \<and> (\<forall>i. next_once s \<le> i \<longrightarrow> onces s i = None)"

lemma memory_safeD:
  assumes "memory_safe registered unique s"
  shows "registered (world s) p = Some h \<Longrightarrow> \<exists>b. bevs s h = Some b \<and> varp b \<and> bevp b = p"
    and "doomed h s \<Longrightarrow> alive h s \<and> unique h s"
    and "doomed h s \<Longrightarrow> registered (world s) p \<noteq> Some h"
    and "onces s i = Some (DeleteVarp h) \<Longrightarrow> onces s j = Some (DeleteVarp h) \<Longrightarrow> i = j"
    and "next_bev s \<le> h \<Longrightarrow> bevs s h = None" and "next_once s \<le> i \<Longrightarrow> onces s i = None"
  using assms unfolding memory_safe_def by blast+

lemma memory_safeI:
  assumes "\<And>p h. registered (world s) p = Some h \<Longrightarrow> \<exists>b. bevs s h = Some b \<and> varp b \<and> bevp b = p"
    and "\<And>h. doomed h s \<Longrightarrow> alive h s \<and> unique h s"
    and "\<And>h p. doomed h s \<Longrightarrow> registered (world s) p \<noteq> Some h"
    and "\<And>i j h. onces s i = Some (DeleteVarp h) \<Longrightarrow> onces s j = Some (DeleteVarp h) \<Longrightarrow> i = j"
    and "\<And>h. next_bev s \<le> h \<Longrightarrow> bevs s h = None" and "\<And>i. next_once s \<le> i \<Longrightarrow> onces s i = None"
  shows "memory_safe registered unique s"
  using assms unfolding memory_safe_def by blast

text \<open>
  What code outside the C callbacks does not do: delete a \<open>varp\<close>, or set or cancel a timer that
  deletes one.
\<close>

definition keeps_objects :: "('c, 'w, 'z) evst_scheme \<Rightarrow> ('c, 'w, 'z) evst_scheme \<Rightarrow> bool" where
  "keeps_objects s t \<longleftrightarrow> (\<forall>h. alive h s \<longrightarrow> alive h t) \<and>
     (\<forall>i h. onces t i = Some (DeleteVarp h) \<longleftrightarrow> onces s i = Some (DeleteVarp h))"

lemma keeps_objects_refl [simp]: "keeps_objects s s"
  by (simp add: keeps_objects_def)

lemma keeps_objects_trans: "keeps_objects s t \<Longrightarrow> keeps_objects t u \<Longrightarrow> keeps_objects s u"
  by (simp add: keeps_objects_def)

lemma keeps_objects_doomed: "keeps_objects s t \<Longrightarrow> doomed h t = doomed h s"
  by (simp add: keeps_objects_def doomed_def)

text \<open>
  A C callback ends normally, or the way the closure it runs ends: \<open>stored\<close> is that closure, if there is
  one.  The function of a timer is a closure of the client, or the one that deletes \<open>varp\<close>.
\<close>

definition fails_only_by ::
  "('k \<Rightarrow> ('s, exn, unit) prog) \<Rightarrow> 'k option \<Rightarrow> ('s, exn, unit) prog \<Rightarrow> 's \<Rightarrow> bool" where
  "fails_only_by run stored m s \<longleftrightarrow>
     fst (m s) = Return () \<or> (\<exists>k. stored = Some k \<and> fst (run k s) = fst (m s))"

fun client_timer :: "'c once_clo \<Rightarrow> 'c option" where
  "client_timer (Once k) = Some k"
| "client_timer (DeleteVarp h) = None"

section \<open>The steps of the event loop\<close>

text \<open>
  libevent runs a C callback with the registered argument, or the function of a timer that is
  set; C++ code outside of them runs; bytes move between sockets and buffers.
\<close>

inductive life_step ::
  "'w libevent \<Rightarrow> ('w \<Rightarrow> cptr \<Rightarrow> nat option) \<Rightarrow> (nat \<Rightarrow> ('c, 'w, 'z) evst_scheme \<Rightarrow> bool) \<Rightarrow>
   ('c \<Rightarrow> ('c, 'w, 'z, unit) ev_prog) \<Rightarrow> ('c \<Rightarrow> u16 \<Rightarrow> ('c, 'w, 'z, unit) ev_prog) \<Rightarrow>
   (('c, 'w, 'z, unit) ev_prog \<Rightarrow> bool) \<Rightarrow>
   ('c, 'w, 'z) evst_scheme \<Rightarrow> ('c, 'w, 'z) evst_scheme \<Rightarrow> bool"
  for L registered unique run run_event code where
  Bev_Read: "registered (world s) p = Some h \<Longrightarrow> mk_libevent_bev_read L unique run h s = (Return (), t) \<Longrightarrow>
    life_step L registered unique run run_event code s t"
| Bev_Write: "registered (world s) p = Some h \<Longrightarrow> mk_libevent_bev_write L unique run h s = (Return (), t) \<Longrightarrow>
    life_step L registered unique run run_event code s t"
| Bev_Event: "registered (world s) p = Some h \<Longrightarrow>
    mk_libevent_bev_event L unique run_event what h s = (Return (), t) \<Longrightarrow>
    life_step L registered unique run run_event code s t"
| Timer: "onces s i = Some c \<Longrightarrow> mk_libevent_event_cb L unique run_event what i s = (Return (), t) \<Longrightarrow>
    life_step L registered unique run run_event code s t"
| Program: "code m \<Longrightarrow> m s = (Return (), t) \<Longrightarrow> life_step L registered unique run run_event code s t"
| Network: "registered w = registered (world s) \<Longrightarrow>
    life_step L registered unique run run_event code s (s\<lparr>world := w\<rparr>)"

inductive_cases life_stepE: "life_step L registered unique run run_event code s t"

abbreviation life_reach ::
  "'w libevent \<Rightarrow> ('w \<Rightarrow> cptr \<Rightarrow> nat option) \<Rightarrow> (nat \<Rightarrow> ('c, 'w, 'z) evst_scheme \<Rightarrow> bool) \<Rightarrow>
   ('c \<Rightarrow> ('c, 'w, 'z, unit) ev_prog) \<Rightarrow> ('c \<Rightarrow> u16 \<Rightarrow> ('c, 'w, 'z, unit) ev_prog) \<Rightarrow>
   (('c, 'w, 'z, unit) ev_prog \<Rightarrow> bool) \<Rightarrow>
   ('c, 'w, 'z) evst_scheme \<Rightarrow> ('c, 'w, 'z) evst_scheme \<Rightarrow> bool" where
  "life_reach L registered unique run run_event code \<equiv>
     (life_step L registered unique run run_event code)\<^sup>*\<^sup>*"

section \<open>Objects and their references\<close>

locale object_life = callback_api L content registered
  for L :: "'w libevent" and content :: "'w \<Rightarrow> cptr \<Rightarrow> string"
    and registered :: "'w \<Rightarrow> cptr \<Rightarrow> nat option" +
  fixes unique :: "nat \<Rightarrow> ('c, 'w, 'z) evst_scheme \<Rightarrow> bool"
  assumes unique_frame: "unique h (s\<lparr>world := w\<rparr>) = unique h s"
    "unique h (s\<lparr>onces := os\<rparr>) = unique h s" "unique h (s\<lparr>next_once := n\<rparr>) = unique h s"
    "unique h (s\<lparr>bevs := bs\<rparr>) = unique h s" "unique h (s\<lparr>next_bev := n\<rparr>) = unique h s"
begin

abbreviation safe :: "('c, 'w, 'z) evst_scheme \<Rightarrow> bool" where
  "safe \<equiv> memory_safe registered unique"

definition keeps :: "('c, 'w, 'z, 'a) ev_prog \<Rightarrow> bool" where
  "keeps m \<longleftrightarrow> (\<forall>s x t. safe s \<longrightarrow> m s = (Return x, t) \<longrightarrow> safe t \<and> keeps_objects s t)"

lemma keepsI: "(\<And>s x t. safe s \<Longrightarrow> m s = (Return x, t) \<Longrightarrow> safe t \<and> keeps_objects s t) \<Longrightarrow> keeps m"
  by (simp add: keeps_def)

lemma keepsD: "keeps m \<Longrightarrow> safe s \<Longrightarrow> m s = (Return x, t) \<Longrightarrow> safe t \<and> keeps_objects s t"
  by (simp add: keeps_def)

lemma keeps_ret: "keeps (ret x)"
  and keeps_raise: "keeps (raise e)"
  and keeps_diverge: "keeps diverge"
  and keeps_gets: "keeps (gets f)"
  by (auto intro!: keepsI simp: ret_def raise_def diverge_def gets_def)

lemma keeps_throw: "keeps (MK_THROW f l n e)"
  by (simp add: MK_THROW_def keeps_raise)

lemma keeps_andthen:
  assumes "keeps m" and "\<And>x. keeps (f x)"
  shows "keeps (andthen m f)"
proof (rule keepsI)
  fix s y t
  assume s: "safe s" and r: "andthen m f s = (Return y, t)"
  then obtain x u where "m s = (Return x, u)" "f x u = (Return y, t)"
    by (auto simp: andthen_def split: prod.splits outcome.splits)
  with s keepsD [OF assms(1) s] keepsD [OF assms(2)] show "safe t \<and> keeps_objects s t"
    by (blast intro: keeps_objects_trans)
qed

lemma safe_world: "registered w = registered (world s) \<Longrightarrow> safe (s\<lparr>world := w\<rparr>) = safe s"
  by (simp add: memory_safe_def doomed_def alive_def unique_frame)

lemma keeps_objects_world [simp]: "keeps_objects s (s\<lparr>world := w\<rparr>)"
  by (simp add: keeps_objects_def alive_def)

lemma keeps_lib:
  assumes "\<And>w. registered (snd (f w)) = registered w"
  shows "keeps (lib f)"
proof (rule keepsI)
  fix s x t
  assume "safe s" and "lib f s = (Return x, t)"
  moreover obtain v where "f (world s) = (x, v)" "t = s\<lparr>world := v\<rparr>"
    using \<open>lib f s = (Return x, t)\<close> by (auto simp: lib_def split: prod.splits)
  ultimately show "safe t \<and> keeps_objects s t"
    using safe_world [of v s] assms [of "world s"] by simp
qed

lemma keeps_lib_check:
  assumes "\<And>w. registered (snd (f w)) = registered w" and "keeps e"
  shows "keeps (lib_check f e)"
  unfolding lib_check_def by (intro keeps_andthen keeps_lib assms) (simp add: assms(2) keeps_ret)

lemma keeps_bev_get: "keeps (bev_get h)"
  unfolding bev_get_def
  by (intro keeps_andthen keeps_gets) (simp add: keeps_raise keeps_ret split: option.split)

lemma keeps_bev_lib_check:
  assumes "\<And>p w. registered (snd (f p w)) = registered w" and "keeps e"
  shows "keeps (bev_lib_check h f e)"
  unfolding bev_lib_check_def by (intro keeps_andthen keeps_bev_get keeps_lib_check assms)

lemma keeps_setcb: "keeps (setcb r w e h)"
proof (rule keepsI)
  fix s x t
  assume s: "safe s" and "setcb r w e h s = (Return x, t)"
  then obtain b where b: "bevs s h = Some b"
    "t = s\<lparr>bevs := (bevs s)(h \<mapsto> b\<lparr>event_cb := e, read_cb := r, write_cb := w\<rparr>)\<rparr>"
    by (auto simp: setcb_def andthen_def bev_get_def bev_put_def gets_def ret_def raise_def modify_def
        split: option.splits)
  have dead: "doomed g t = doomed g s" "alive g t = alive g s" for g
    using b by (auto simp: doomed_def alive_def)
  have t: "world t = world s" "onces t = onces s" "next_once t = next_once s" "unique g t = unique g s" for g
    by (simp_all add: b unique_frame)
  note sD = memory_safeD [OF s]
  have "safe t"
  proof (rule memory_safeI, goal_cases)
    case (1 p g)
    then obtain b' where "bevs s g = Some b'" "varp b'" "bevp b' = p" using sD(1) by (auto simp: b)
    then show ?case using b by (cases "g = h") auto
  next
    case (5 g)
    then show ?case using sD(5) [of g] b by (auto split: if_splits)
  qed (use sD t in \<open>simp_all add: dead\<close>)
  with dead show "safe t \<and> keeps_objects s t" by (simp add: keeps_objects_def b)
qed

lemma safe_alloc_once:
  assumes "safe s" and "\<And>h. c = DeleteVarp h \<Longrightarrow>
    alive h s \<and> unique h s \<and> \<not> doomed h s \<and> (\<forall>p. registered (world s) p \<noteq> Some h)"
  shows "safe (s\<lparr>onces := (onces s)(next_once s \<mapsto> c), next_once := Suc (next_once s)\<rparr>)" (is "safe ?t")
proof -
  have new: "onces s (next_once s) = None" using assms(1) by (rule memory_safeD) simp
  have doomed: "doomed g ?t \<longleftrightarrow> doomed g s \<or> c = DeleteVarp g" for g
    using new by (auto simp: doomed_def intro: exI [of _ "next_once s"]) (metis option.distinct(1))
  have alive: "alive g ?t = alive g s" for g by (simp add: alive_def)
  note sD = memory_safeD [OF assms(1)]
  show ?thesis
  proof (rule memory_safeI, goal_cases)
    case (4 i j h)
    then show ?case using sD(4) [of i h j] assms(2) [of h] by (auto simp: doomed_def split: if_splits)
  qed (use sD assms(2) in \<open>auto simp: doomed alive unique_frame\<close>)
qed

lemma keeps_once: "keeps (EventBase_once L base sock what (Once k) timeo)"
proof (rule keepsI)
  fix s t :: "('c, 'w, 'z) evst_scheme" and x
  let ?u = "s\<lparr>onces := (onces s)(next_once s \<mapsto> Once k), next_once := Suc (next_once s)\<rparr>"
  assume s: "safe s" and "EventBase_once L base sock what (Once k) timeo s = (Return x, t)"
  then have t: "t = ?u\<lparr>world := snd (event_base_once L (base_ptr base) sock what (next_once s) timeo (world s))\<rparr>"
    by (auto simp: EventBase_once_def alloc_once_def lib_check_def delete_once_def prog_simps split: prod.splits if_splits)
  have new: "onces s (next_once s) = None" using s by (rule memory_safeD) simp
  have "safe t"
    unfolding t by (subst safe_world, simp add: reg_same, rule safe_alloc_once [OF s], simp)
  moreover have "keeps_objects s ?u" using new by (auto simp: keeps_objects_def alive_def)
  then have "keeps_objects s t"
    unfolding t by (rule keeps_objects_trans [OF _ keeps_objects_world])
  ultimately show "safe t \<and> keeps_objects s t" ..
qed

lemma keeps_peek: "keeps (Evbuffer_peek L l at b)"
  unfolding Evbuffer_peek_def
  by (intro keeps_andthen keeps_lib reg_same)
    (auto simp: keeps_ret keeps_throw split: prod.split intro!: keeps_andthen keeps_lib reg_same)

lemma keeps_drain: "keeps (Evbuffer_drain L n b)"
  unfolding Evbuffer_drain_def by (intro keeps_lib_check reg_same keeps_throw)

lemma keeps_remove: "keeps (Evbuffer_remove L n b)"
  unfolding Evbuffer_remove_def Evbuffer_copyout_def Evbuffer_for_each_def
  by (intro keeps_andthen keeps_peek)
    (auto simp: keeps_ret keeps_drain split: prod.split option.split)

lemma keeps_readln: "keeps (Evbuffer_readln L style b)"
  unfolding Evbuffer_readln_def
  by (intro keeps_andthen keeps_lib reg_same)
    (auto simp: keeps_ret split: prod.split intro!: keeps_andthen keeps_remove keeps_drain)

lemma keeps_assign: "keeps (Evbuffer_assign p owned)"
  unfolding Evbuffer_assign_def by (simp add: keeps_throw keeps_ret)

lemmas keeps_wrappers =
  keeps_andthen keeps_ret keeps_raise keeps_diverge keeps_gets keeps_throw keeps_bev_get keeps_setcb
  keeps_once keeps_peek keeps_drain keeps_remove keeps_readln keeps_assign keeps_lib_check
  keeps_bev_lib_check reg_same

lemma keeps_bev_methods:
  "keeps (bev_write L x h)" "keeps (enable L what h)" "keeps (disable L what h)"
  "keeps (set_timeouts L rt wt h)" "keeps (socket_connect L sa len h)"
  "keeps (get_input L h)" "keeps (get_output L h)"
  unfolding bev_write_def enable_def disable_def set_timeouts_def socket_connect_def
    get_input_def get_output_def
  by (intro keeps_wrappers)+

text \<open>A new object is one that no timer will delete, and nobody referred to its handle before.\<close>

lemma socket_new_result:
  assumes "safe s" and "socket_new L base fd flags s = (Return h, t)"
  shows "safe t \<and> keeps_objects s t \<and> \<not> doomed h t"
proof -
  obtain p v where p: "bufferevent_socket_new L (base_ptr base) fd flags (world s) = (p, v)"
    by fastforce
  let ?u = "s\<lparr>world := bufferevent_setcb L p (Some h) v, bevs := (bevs s)(h \<mapsto> new_bufev base p),
    next_bev := Suc h\<rparr>"
  from assms(2) p have t: "p \<noteq> nullptr" "h = next_bev s" "t = ?u"
    by (auto simp: socket_new_def alloc_bev_def prog_simps split: if_splits)
  have reg: "registered (world t) = (registered (world s))(p := Some h)"
    using reg_setcb [OF t(1)] reg_socket_new [OF p] by (simp add: t(3))
  have new: "bevs s h = None" using assms(1) t(2) by (auto intro: memory_safeD(5))
  then have fresh: "\<not> doomed h s" "\<not> alive h s"
    using memory_safeD(2) [OF assms(1), of h] by (auto simp: alive_def)
  have doomed: "doomed g t = doomed g s" and alive: "alive g t \<longleftrightarrow> alive g s \<or> g = h" for g
    using new by (auto simp: t(3) doomed_def alive_def new_bufev_def)
  note sD = memory_safeD [OF assms(1)]
  have "safe t"
  proof (rule memory_safeI, goal_cases)
    case (1 q g)
    then show ?case
      using sD(1) [of q g] new by (cases "q = p") (auto simp: reg, auto simp: t(3) new_bufev_def)
  next
    case (2 g)
    then show ?case using sD(2) [of g] by (simp add: doomed alive) (simp add: t(3) unique_frame)
  next
    case (3 g q)
    then show ?case using sD(3) [of g q] fresh(1) by (auto simp: doomed reg)
  qed (use sD(4,5,6) in \<open>simp_all add: t(2,3)\<close>)
  with fresh show ?thesis
    by (simp add: keeps_objects_def doomed alive) (simp add: t(3))
qed

section \<open>The C callbacks keep memory safe\<close>

lemma safe_ignored:
  assumes "safe s" and "alive h s" and "unique h s" and "\<not> doomed h s"
    and "\<And>p. registered (world s) p = Some h \<Longrightarrow> \<exists>b. bevs s h = Some b \<and> bevp b = p"
    and "is_ignored_by_cxx L h s = (Return (), t)"
  shows "safe t \<and> doomed h t"
proof -
  obtain b where b: "bevs s h = Some b" using assms(2) by (auto simp: alive_def)
  define w where "w = (if bevp b = nullptr then world s else
    snd (bufferevent_disable L (bevp b) (EV_READ L OR EV_WRITE L) (bufferevent_setcb L (bevp b) None (world s))))"
  let ?u = "s\<lparr>world := w\<rparr>"
  have reg: "registered w = (if bevp b = nullptr then registered (world s) else (registered (world s))(bevp b := None))"
    by (simp add: w_def reg_same reg_setcb)
  have "is_ignored_by_cxx L h s = EventBase_once L (bev_base b) (- 1) (EV_TIMEOUT L) (DeleteVarp h)
      (Some \<lparr>tv_sec = 0, tv_usec = 0\<rparr>) ?u"
    using b by (simp add: is_ignored_by_cxx_def prog_simps w_def split: prod.splits)
  with assms(6) have t: "t = ?u\<lparr>onces := (onces ?u)(next_once ?u \<mapsto> DeleteVarp h), next_once := Suc (next_once ?u)\<rparr>
      \<lparr>world := snd (event_base_once L (base_ptr (bev_base b)) (- 1) (EV_TIMEOUT L) (next_once s)
        (Some \<lparr>tv_sec = 0, tv_usec = 0\<rparr>) w)\<rparr>"
    by (auto simp: EventBase_once_def alloc_once_def lib_check_def delete_once_def prog_simps
        split: prod.splits if_splits)
  note sD = memory_safeD [OF assms(1)]
  have "safe ?u"
    by (rule memory_safeI) (use sD in \<open>auto simp: reg doomed_def alive_def unique_frame split: if_splits\<close>)
  moreover have "registered w p \<noteq> Some h" for p
    using assms(5) [of p] b reg_null by (auto simp: reg split: if_splits)
  ultimately have "safe (?u\<lparr>onces := (onces ?u)(next_once ?u \<mapsto> DeleteVarp h), next_once := Suc (next_once ?u)\<rparr>)"
    using assms(2-4) by (intro safe_alloc_once) (auto simp: unique_frame alive_def doomed_def)
  then have "safe t" unfolding t by (subst safe_world) (simp_all add: reg_same)
  then show ?thesis by (auto simp: t doomed_def intro: exI [of _ "next_once s"])
qed

lemma safe_bev_callback:
  assumes "safe s" and "registered (world s) p = Some h" and "\<And>k. keeps (run k)"
    and "bev_callback L unique member run h s = (Return (), t)"
  shows "safe t"
proof -
  obtain b where b: "bevs s h = Some b" "varp b" using memory_safeD(1) [OF assms(1,2)] by blast
  have "\<exists>u. safe u \<and> keeps_objects s u \<and> (if unique h u then is_ignored_by_cxx L h u = (Return (), t) else u = t)"
  proof (cases "\<not> unique h s \<and> member b \<noteq> None")
    case True
    then obtain k where k: "member b = Some k" "\<not> unique h s" by auto
    with b assms(4) obtain u where u: "run k s = (Return (), u)"
      "(if unique h u then is_ignored_by_cxx L h else ret ()) u = (Return (), t)"
      by (auto simp: bev_callback_def prog_simps func_bool_def func_call_Some split: prod.splits outcome.splits)
    with keepsD [OF assms(3,1) u(1)] show ?thesis by (auto simp: ret_run split: if_splits)
  next
    case False
    with b assms(1,4) show ?thesis
      by (intro exI [of _ s]) (auto simp: bev_callback_def prog_simps func_bool_def split: if_splits)
  qed
  then obtain u where u: "safe u" "keeps_objects s u"
    "if unique h u then is_ignored_by_cxx L h u = (Return (), t) else u = t" by blast
  have "alive h u" using u(2) b by (auto simp: keeps_objects_def alive_def)
  moreover have "\<not> doomed h u"
    using memory_safeD(3) [OF assms(1), of h p] assms(2) keeps_objects_doomed [OF u(2)] by auto
  moreover have "\<exists>b. bevs u h = Some b \<and> bevp b = q" if "registered (world u) q = Some h" for q
    using memory_safeD(1) [OF u(1) that] by blast
  ultimately show "safe t" using u safe_ignored [OF u(1)] by (auto split: if_splits)
qed

lemma safe_delete_once:
  assumes "safe s"
  shows "safe (s\<lparr>onces := (onces s)(i := None)\<rparr>)" (is "safe ?t")
proof -
  have doomed: "doomed g ?t \<Longrightarrow> doomed g s" for g by (auto simp: doomed_def split: if_splits)
  have alive: "alive g ?t = alive g s" for g by (simp add: alive_def)
  note sD = memory_safeD [OF assms]
  show ?thesis
  proof (rule memory_safeI, goal_cases)
    case (2 g)
    then show ?case using sD(2) doomed by (simp add: alive unique_frame)
  next
    case (3 g q)
    then show ?case using sD(3) doomed by simp
  next
    case (4 j j' g)
    then show ?case using sD(4) [of j g j'] by (simp split: if_splits)
  qed (use sD(1,5,6) in simp_all)
qed

text \<open>A timer that deletes an object deletes it completely.\<close>

lemma delete_varp_result:
  assumes "safe s" and "onces s i = Some (DeleteVarp h)"
  shows "\<exists>b w. bevs s h = Some b \<and>
    w = (if bevp b = nullptr then world s else bufferevent_free L (bevp b) (world s)) \<and>
    delete_varp L unique h s = (Return (), s\<lparr>world := w, bevs := (bevs s)(h := None)\<rparr>)"
proof -
  have "doomed h s" using assms(2) by (auto simp: doomed_def)
  then obtain b where b: "bevs s h = Some b" "varp b" "unique h s"
    using memory_safeD(2) [OF assms(1)] by (auto simp: alive_def)
  then show ?thesis
    by (simp add: delete_varp_def bufev_deleter_def bev_put_def prog_simps)
qed

lemma safe_timer:
  assumes "safe s" and "onces s i = Some c" and "\<And>k what. keeps (run k what)"
    and "mk_libevent_event_cb L unique run what i s = (Return (), t)"
  shows "safe t"
proof -
  obtain u where u: "run_once_clo L unique run c what s = (Return (), u)"
    "t = u\<lparr>onces := (onces u)(i := None)\<rparr>"
    using assms(2,4) by (auto simp: mk_libevent_event_cb_def delete_once_def prog_simps
        split: prod.splits outcome.splits)
  show ?thesis
  proof (cases c)
    case (Once k)
    then have "safe u" using u(1) keepsD [OF assms(3,1)] by (simp add: run_once_clo_def)
    then show ?thesis unfolding u(2) by (rule safe_delete_once)
  next
    case (DeleteVarp h)
    then obtain b w where b: "bevs s h = Some b"
      "w = (if bevp b = nullptr then world s else bufferevent_free L (bevp b) (world s))"
      "u = s\<lparr>world := w, bevs := (bevs s)(h := None)\<rparr>"
      using delete_varp_result [OF assms(1), of i h] assms(2) u(1)
      by (auto simp: run_once_clo_def simp del: split_paired_Ex)
    have reg: "registered w q = Some g \<Longrightarrow> registered (world s) q = Some g" for q g
      by (auto simp: b(2) reg_free split: if_splits)
    have dead: "onces s i = Some (DeleteVarp h)" using assms(2) DeleteVarp by simp
    note sD = memory_safeD [OF assms(1)]
    have only: "onces s j = Some (DeleteVarp h) \<Longrightarrow> j = i" for j
      using sD(4) [of j h i] dead by simp
    have "doomed g t \<longleftrightarrow> (\<exists>j. j \<noteq> i \<and> onces s j = Some (DeleteVarp g))" for g
      by (auto simp: u(2) b(3) doomed_def split: if_splits)
    then have doomed: "doomed g t \<longleftrightarrow> doomed g s \<and> g \<noteq> h" for g
      unfolding doomed_def using only dead by (metis once_clo.inject(2) option.inject)
    have unreg: "registered (world s) q \<noteq> Some h" for q
      using sD(3) [of h q] dead by (auto simp: doomed_def)
    have t: "world t = w" "bevs t = (bevs s)(h := None)" "next_bev t = next_bev s"
      "next_once t = next_once s" "onces t = (onces s)(i := None)" "unique g t = unique g s" for g
      by (simp_all add: u(2) b(3) unique_frame)
    show ?thesis
    proof (rule memory_safeI, goal_cases)
      case (1 q g)
      then show ?case using sD(1) [of q g] unreg [of q] reg [of q g] by (auto simp: t)
    next
      case (2 g)
      then show ?case using sD(2) [of g] by (auto simp: doomed t alive_def)
    next
      case (3 g q)
      then show ?case using sD(3) [of g q] reg [of q g] by (auto simp: doomed t)
    next
      case (4 j j' g)
      then show ?case using sD(4) [of j g j'] by (auto simp: t split: if_splits)
    qed (use sD(5,6) in \<open>simp_all add: t\<close>)
  qed
qed

text \<open>Only client code can make a callback end in an exception.\<close>

lemma once_returns:
  "\<exists>w. EventBase_once L base sock what c timeo s = (Return (), s\<lparr>world := w,
     onces := (onces s)(next_once s \<mapsto> c), next_once := Suc (next_once s)\<rparr>) \<and> registered w = registered (world s)"
proof -
  obtain w where w: "event_base_once L (base_ptr base) sock what (next_once s) timeo (world s) = (0, w)"
    using bev_once by blast
  with reg_same(10) [of "base_ptr base" sock what "next_once s" timeo "world s"]
  show ?thesis
    by (intro exI [of _ w]) (simp add: EventBase_once_def alloc_once_def lib_check_def prog_simps)
qed

lemma is_ignored_returns:
  assumes "bevs s h = Some b"
  shows "\<exists>t. is_ignored_by_cxx L h s = (Return (), t) \<and> bevs t = bevs s \<and>
    onces t = (onces s)(next_once s \<mapsto> DeleteVarp h) \<and> next_once t = Suc (next_once s)"
proof -
  define w where "w = (if bevp b = nullptr then world s else
    snd (bufferevent_disable L (bevp b) (EV_READ L OR EV_WRITE L) (bufferevent_setcb L (bevp b) None (world s))))"
  have "is_ignored_by_cxx L h s = EventBase_once L (bev_base b) (- 1) (EV_TIMEOUT L) (DeleteVarp h)
      (Some \<lparr>tv_sec = 0, tv_usec = 0\<rparr>) (s\<lparr>world := w\<rparr>)"
    using assms by (simp add: is_ignored_by_cxx_def prog_simps w_def split: prod.splits)
  with once_returns [of "bev_base b" "- 1" "EV_TIMEOUT L" "DeleteVarp h" "Some \<lparr>tv_sec = 0, tv_usec = 0\<rparr>"
      "s\<lparr>world := w\<rparr>"]
  show ?thesis by auto
qed

lemma bev_callback_failure:
  assumes "safe s" and "registered (world s) p = Some h" and "\<And>k. keeps (run k)"
  shows "fails_only_by run (Option.bind (bevs s h) member) (bev_callback L unique member run h) s"
proof (rule ccontr)
  assume none: "\<not> ?thesis"
  obtain b where b: "bevs s h = Some b" "varp b" using memory_safeD(1) [OF assms(1,2)] by blast
  have "\<exists>u. bevs u h \<noteq> None \<and> bev_callback L unique member run h s =
      (if unique h u then is_ignored_by_cxx L h u else (Return (), u))"
  proof (cases "\<not> unique h s \<and> member b \<noteq> None")
    case True
    then obtain k where k: "member b = Some k" "\<not> unique h s" by auto
    have cb: "bev_callback L unique member run h s = andthen (run k)
        (\<lambda>_. andthen (gets (unique h)) (\<lambda>u'. if u' then is_ignored_by_cxx L h else ret ())) s"
      using b k by (simp add: bev_callback_def prog_simps func_bool_def func_call_Some)
    obtain r u where r: "run k s = (r, u)" by fastforce
    have "fst (run k s) \<noteq> fst (bev_callback L unique member run h s)"
      using none b k by (auto simp: fails_only_by_def)
    with r cb have "r = Return ()" by (cases r) (auto simp: andthen_def)
    then have "bevs u h \<noteq> None"
      using keepsD [OF assms(3,1)] r b by (fastforce simp: keeps_objects_def alive_def)
    with \<open>r = Return ()\<close> r cb show ?thesis by (intro exI [of _ u]) (simp add: prog_simps)
  next
    case False
    with b show ?thesis
      by (intro exI [of _ s]) (auto simp: bev_callback_def prog_simps func_bool_def)
  qed
  then obtain u b' where "bevs u h = Some b'" "bev_callback L unique member run h s =
      (if unique h u then is_ignored_by_cxx L h u else (Return (), u))" by auto
  with none is_ignored_returns [of u h b'] show False by (auto simp: fails_only_by_def split: if_splits)
qed

lemma timer_failure:
  assumes "safe s" and "onces s i = Some c"
  shows "fails_only_by (\<lambda>k. run k what) (client_timer c) (mk_libevent_event_cb L unique run what i) s"
proof (cases c)
  case (Once k)
  with assms(2) show ?thesis
    by (cases "run k what s"; cases "fst (run k what s)")
      (auto simp: fails_only_by_def mk_libevent_event_cb_def run_once_clo_def delete_once_def prog_simps)
next
  case (DeleteVarp h)
  with assms(2) delete_varp_result [OF assms(1), of i h] have "\<exists>u. delete_varp L unique h s = (Return (), u)"
    by blast
  with assms(2) DeleteVarp show ?thesis
    by (auto simp: fails_only_by_def mk_libevent_event_cb_def run_once_clo_def delete_once_def prog_simps)
qed

text \<open>
  An object nobody refers to: the next callback sets the timer, and the timer deletes it.
\<close>

lemma runs_ignored_freed:
  assumes "safe s" and "registered (world s) p = Some h" and "unique h s"
  shows "runs (followed_by (bev_callback L unique member run h)
      (andthen (gets (\<lambda>s. next_once s - 1)) (mk_libevent_event_cb L unique run_event what))) s
    (\<lambda>_ t. safe t \<and> bevs t h = None \<and> \<not> doomed h t \<and> (\<forall>q. registered (world t) q \<noteq> Some h))"
proof -
  obtain b where b: "bevs s h = Some b" "varp b" using memory_safeD(1) [OF assms(1,2)] by blast
  then have cb: "bev_callback L unique member run h s = is_ignored_by_cxx L h s"
    using assms(3) by (simp add: bev_callback_def prog_simps)
  obtain t where t: "is_ignored_by_cxx L h s = (Return (), t)"
    "onces t = (onces s)(next_once s \<mapsto> DeleteVarp h)" "next_once t = Suc (next_once s)"
    using is_ignored_returns [OF b(1)] by blast
  have "\<not> doomed h s" using memory_safeD(3) [OF assms(1), of h p] assms(2) by blast
  then have safe: "safe t" "doomed h t"
    using safe_ignored [OF assms(1) _ assms(3) _ _ t(1)] b memory_safeD(1) [OF assms(1), of _ h]
    by (fastforce simp: alive_def)+
  let ?i = "next_once s"
  have i: "onces t ?i = Some (DeleteVarp h)" using t(2) by simp
  have same: "mk_libevent_event_cb L unique run_event what ?i t =
      mk_libevent_event_cb L unique (\<lambda>_ _. raise OutOfRange) what ?i t"
    using i by (simp add: mk_libevent_event_cb_def run_once_clo_def prog_simps)
  have del: "mk_libevent_event_cb L unique run_event what ?i t = (Return (), u) \<Longrightarrow> safe u" for u
    unfolding same by (rule safe_timer [OF safe(1) i keeps_raise])
  obtain b' w where "bevs t h = Some b'" and
    w: "w = (if bevp b' = nullptr then world t else bufferevent_free L (bevp b') (world t))"
    and d: "delete_varp L unique h t = (Return (), t\<lparr>world := w, bevs := (bevs t)(h := None)\<rparr>)"
    using delete_varp_result [OF safe(1) i] by blast
  let ?u = "t\<lparr>world := w, bevs := (bevs t)(h := None), onces := (onces t)(?i := None)\<rparr>"
  have run: "mk_libevent_event_cb L unique run_event what ?i t = (Return (), ?u)"
    using i d by (simp add: mk_libevent_event_cb_def run_once_clo_def delete_once_def prog_simps)
  have "safe ?u" by (rule del [OF run])
  then have "alive h ?u" if "doomed h ?u" using memory_safeD(2) that by blast
  then have "\<not> doomed h ?u" by (auto simp: alive_def)
  moreover have "registered w q \<noteq> Some h" for q
    using memory_safeD(1) [OF \<open>safe ?u\<close>, of q h] by auto
  ultimately show ?thesis
    using run \<open>safe ?u\<close> by (simp add: runs_def prog_simps cb t)
qed

end

section \<open>All steps together\<close>

locale lifecycle = object_life L content registered unique
  for L :: "'w libevent" and content :: "'w \<Rightarrow> cptr \<Rightarrow> string"
    and registered :: "'w \<Rightarrow> cptr \<Rightarrow> nat option"
    and unique :: "nat \<Rightarrow> ('c, 'w, 'z) evst_scheme \<Rightarrow> bool" +
  fixes run :: "'c \<Rightarrow> ('c, 'w, 'z, unit) ev_prog"
    and run_event :: "'c \<Rightarrow> u16 \<Rightarrow> ('c, 'w, 'z, unit) ev_prog"
    and code :: "('c, 'w, 'z, unit) ev_prog \<Rightarrow> bool"
  assumes run_keeps: "keeps (run k)" and run_event_keeps: "keeps (run_event k what)"
    and code_keeps: "code m \<Longrightarrow> keeps m"
begin

lemma step_safe: "life_step L registered unique run run_event code s t \<Longrightarrow> safe s \<Longrightarrow> safe t"
proof (erule life_stepE, goal_cases)
  case (1 p h)
  then show ?case
    using safe_bev_callback run_keeps unfolding mk_libevent_bev_read_def by blast
next
  case (2 p h)
  then show ?case
    using safe_bev_callback run_keeps unfolding mk_libevent_bev_write_def by blast
next
  case (3 p h what)
  then show ?case
    using safe_bev_callback [where run = "\<lambda>c. run_event c what"] run_event_keeps
    unfolding mk_libevent_bev_event_def by blast
next
  case (4 i c what)
  then show ?case using safe_timer run_event_keeps by blast
next
  case (5 m)
  then show ?case using keepsD [OF code_keeps] by blast
next
  case (6 w)
  then show ?case by (simp add: safe_world)
qed

lemma reach_safe: "life_reach L registered unique run run_event code s t \<Longrightarrow> safe s \<Longrightarrow> safe t"
  by (induction rule: rtranclp_induct) (auto intro: step_safe)

end

end
