(* ===== verification/Lifecycle_Props.thy ===== *)
theory Lifecycle_Props
  imports Lifecycle Poller_Props
begin

text \<open>
  \<open>OnionCtrl\<close> and \<open>OnionPoller\<close> as users of bufferevents: their code keeps the invariant of
  \<open>Lifecycle\<close>, so memory is safe in every state the event loop can reach.
\<close>

section \<open>The code of the controller\<close>

text \<open>
  The functions of \<open>OnionCtrl\<close> a program can call.  The last reference to a controller can also go:
  its destructor releases the reference to the bufferevent.
\<close>

definition release :: "nat \<Rightarrow> ('k, 'w, 'z, unit) oc_prog" where
  "release c = modify (\<lambda>s. s\<lparr>ctrls := (ctrls s)(c := None)\<rparr>)"

inductive ctrl_code ::
  "'w libevent \<Rightarrow> ('k, 'w, 'z) oc_client \<Rightarrow> ('k, 'w, 'z, unit) oc_prog \<Rightarrow> bool" for L client where
  "ctrl_code L client (andthen (create base) (\<lambda>_. ret ()))"
| "ctrl_code L client (release c)"
| "ctrl_code L client (close c)"
| "ctrl_code L client (connect_and_authenticate L client c k token port address timeout)"
| "ctrl_code L client (connect_and_authenticate_sa L client c sa len k token timeout)"
| "ctrl_code L client (send L c command (UserSent k))"
| "ctrl_code L client (recv L c (UserLine k))"
| "ctrl_code L client (sendrecv L c command (UserLine k))"
| "ctrl_code L client (getinfo_status_bootstrap_phase_as_string L c (UserString k))"
| "ctrl_code L client (getinfo_status_bootstrap_phase_as_int L c k)"
| "ctrl_code L client (getconf_socks_port L c k)"
| "ctrl_code L client (getconf_disable_network L c k)"
| "ctrl_code L client (signal_shutdown L c k)"
| "ctrl_code L client (setconf_disable_network L c v k)"
| "ctrl_code L client (setevents_client_status L c k)"

lemma ctrl_unique_frame:
  "ctrl_unique h (s\<lparr>world := w\<rparr>) = ctrl_unique h s" "ctrl_unique h (s\<lparr>onces := os\<rparr>) = ctrl_unique h s"
  "ctrl_unique h (s\<lparr>next_once := n\<rparr>) = ctrl_unique h s" "ctrl_unique h (s\<lparr>bevs := bs\<rparr>) = ctrl_unique h s"
  "ctrl_unique h (s\<lparr>next_bev := n\<rparr>) = ctrl_unique h s" "ctrl_unique h (s\<lparr>results := rs\<rparr>) = ctrl_unique h s"
  "ctrl_unique h (s\<lparr>next_result := n\<rparr>) = ctrl_unique h s" "ctrl_unique h (s\<lparr>expecteds := es\<rparr>) = ctrl_unique h s"
  "ctrl_unique h (s\<lparr>next_expected := n\<rparr>) = ctrl_unique h s" "ctrl_unique h (ocst.more_update f s) = ctrl_unique h s"
  by (simp_all add: ctrl_unique_def)

locale ctrl_objects = object_life L content registered "ctrl_unique :: nat \<Rightarrow> ('k, 'w, 'z) ocst_scheme \<Rightarrow> bool"
  for L :: "'w libevent" and content :: "'w \<Rightarrow> cptr \<Rightarrow> string"
    and registered :: "'w \<Rightarrow> cptr \<Rightarrow> nat option" +
  fixes client :: "('k, 'w, 'z) oc_client"
begin

lemma keeps_modify:
  assumes "\<And>s. world (f s) = world s" "\<And>s. bevs (f s) = bevs s" "\<And>s. next_bev (f s) = next_bev s"
    "\<And>s. onces (f s) = onces s" "\<And>s. next_once (f s) = next_once s"
    and "\<And>h s. ctrl_unique h s \<Longrightarrow> ctrl_unique h (f s)"
  shows "keeps (modify f)"
proof (rule keepsI)
  fix s t and x :: unit
  assume s: "safe s" and "modify f s = (Return x, t)"
  then have t: "t = f s" by (simp add: modify_def)
  have doomed: "doomed h t = doomed h s" and alive: "alive h t = alive h s" for h
    by (simp_all add: doomed_def alive_def t assms)
  have "safe t"
    using s assms(6) unfolding memory_safe_def doomed alive by (simp add: t assms(1-5))
  then show "safe t \<and> keeps_objects s t"
    by (simp add: keeps_objects_def alive) (simp add: t assms)
qed

lemma keeps_bev_of: "keeps (bev_of c)"
  unfolding bev_of_def ctrl_get_def var_arrow_def
  by (intro keeps_andthen keeps_gets) (auto simp: keeps_raise keeps_ret split: option.split)

lemma keeps_create: "keeps (create base)"
  unfolding create_def
  by (intro keeps_wrappers keeps_modify) (auto simp: ctrl_unique_def split: option.splits)

lemma keeps_release: "keeps (release c)"
  unfolding release_def
  by (intro keeps_modify) (auto simp: ctrl_unique_def split: option.splits)

lemma keeps_cells: "keeps new_result" "keeps new_expected"
  unfolding new_result_def new_expected_def
  by (intro keeps_wrappers keeps_modify, simp_all add: ctrl_unique_frame)+

lemma keeps_close: "keeps (close c)" and keeps_send: "keeps (send L c x cb)"
  and keeps_recv: "keeps (recv L c cb')" and keeps_sendrecv: "keeps (sendrecv L c x cb')"
  unfolding close_def send_def recv_def sendrecv_def
  by (intro keeps_wrappers keeps_bev_of keeps_bev_methods)+

end

text \<open>The client must keep objects too.\<close>

locale ctrl_life = ctrl_objects L content registered client
  for L :: "'w libevent" and content :: "'w \<Rightarrow> cptr \<Rightarrow> string"
    and registered :: "'w \<Rightarrow> cptr \<Rightarrow> nat option"
    and client :: "('k, 'w, 'z) oc_client" +
  assumes client_keeps: "keeps (client k r)"
begin

lemma keeps_string_clo: "keeps (run_string_clo client f st x)"
  unfolding run_string_clo_def
  by (auto simp: parse_bootstrap_progress_eq andthen_ret client_keeps Let_def
      split: string_clo.split prod.split)

lemma keeps_line_clo: "keeps (run_line_clo client cb st ty x)"
  unfolding run_line_clo_def
  by (auto simp: getconf_int_eq do_void_cb_def substr_def client_keeps keeps_string_clo keeps_ret
      keeps_raise ctrl_unique_frame split: line_clo.split prod.split option.split
      intro!: keeps_andthen keeps_gets keeps_modify)

lemma keeps_sent_clo: "keeps (run_sent_clo L client f st)"
  unfolding run_sent_clo_def by (auto simp: client_keeps keeps_line_clo keeps_recv split: sent_clo.split)

lemma keeps_void_clo: "keeps (run_void_clo L client f st)"
  unfolding run_void_clo_def by (auto simp: client_keeps keeps_sendrecv split: void_clo.split)

lemma keeps_recv_loop: "keeps (recv_loop L client fuel c cb)"
proof (induction fuel)
  case (Suc fuel)
  show ?case
    unfolding recv_loop.simps
    by (intro keeps_andthen keeps_bev_of keeps_bev_methods keeps_readln)
      (auto simp: substr_def keeps_ret keeps_raise keeps_line_clo Suc split: option.split
        intro!: keeps_andthen)
qed (simp add: keeps_diverge)

lemma keeps_ctrl_clo: "keeps (run_ctrl_clo L client fuel clo)"
  unfolding run_ctrl_clo_def
  by (auto simp: keeps_raise keeps_sent_clo keeps_recv_loop client_keeps split: ctrl_clo.split)

lemma keeps_ctrl_event: "keeps (run_ctrl_event L client clo what)"
  unfolding run_ctrl_event_def
  by (auto simp: keeps_raise keeps_sent_clo keeps_line_clo keeps_void_clo client_keeps
      split: ctrl_clo.split intro!: keeps_andthen keeps_bev_of keeps_setcb)

text \<open>Storing a reference to a new bufferevent.\<close>

lemma keeps_connect: "keeps (connect L client c sa len cb timeout)"
proof -
  have new: "keeps (andthen (socket_new L base fd flags)
      (\<lambda>h. modify (\<lambda>s. s\<lparr>ctrls := (ctrls s)(c \<mapsto> x\<lparr>ctrl_bev := Some h\<rparr>)\<rparr>)))" for base fd flags x
  proof (rule keepsI)
    fix s t :: "('k, 'w, 'z) ocst_scheme" and y
    assume s: "safe s" and r: "andthen (socket_new L base fd flags)
        (\<lambda>h. modify (\<lambda>s. s\<lparr>ctrls := (ctrls s)(c \<mapsto> x\<lparr>ctrl_bev := Some h\<rparr>)\<rparr>)) s = (Return y, t)"
    then obtain h u where u: "socket_new L base fd flags s = (Return h, u)"
      "t = u\<lparr>ctrls := (ctrls u)(c \<mapsto> x\<lparr>ctrl_bev := Some h\<rparr>)\<rparr>"
      by (auto simp: andthen_def modify_def split: prod.splits outcome.splits)
    note new = socket_new_result [OF s u(1)]
    have doomed: "doomed g t = doomed g u" and alive: "alive g t = alive g u" for g
      by (simp_all add: u(2) doomed_def alive_def)
    have "ctrl_unique g t" if "doomed g u" for g
    proof -
      have "ctrl_unique g u" "g \<noteq> h" using memory_safeD(2) [of registered ctrl_unique u g] new that by auto
      then show ?thesis by (auto simp: u(2) ctrl_unique_def split: option.splits)
    qed
    then have "safe t"
      using new unfolding memory_safe_def doomed alive by (simp add: u(2))
    moreover have "keeps_objects u t" by (simp add: keeps_objects_def alive) (simp add: u(2))
    ultimately show "safe t \<and> keeps_objects s t" using new keeps_objects_trans by blast
  qed
  note new' = keeps_andthen [OF new, unfolded andthen_assoc]
  show ?thesis
    unfolding connect_def ctrl_get_def
    by (intro keeps_andthen keeps_gets)
      (auto simp: keeps_raise keeps_ret keeps_void_clo split: option.split
        intro!: new' keeps_andthen keeps_bev_of keeps_setcb keeps_bev_methods)
qed

lemma keeps_connect_and_authenticate:
  "keeps (connect_and_authenticate_sa L client c sa len k token timeout)"
  "keeps (connect_and_authenticate L client c k token port address timeout)"
  unfolding connect_and_authenticate_def connect_and_authenticate_epnt_def connect_and_authenticate_sa_def
  by (auto simp: keeps_connect client_keeps split: prod.split)

lemma keeps_code: "ctrl_code L client m \<Longrightarrow> keeps m"
  by (induction rule: ctrl_code.induct)
    (auto simp: getinfo_status_bootstrap_phase_as_string_def getinfo_status_bootstrap_phase_as_int_def
      getconf_socks_port_def getconf_disable_network_def signal_shutdown_def setconf_disable_network_def
      setevents_client_status_def setevents_client_status_as_string_def
      keeps_close keeps_release keeps_send keeps_recv keeps_sendrecv keeps_connect_and_authenticate keeps_ret
      intro!: keeps_andthen keeps_create keeps_cells)

sublocale lifecycle L content registered ctrl_unique "run_ctrl_clo L client fuel"
  "run_ctrl_event L client" "ctrl_code L client" for fuel
  by unfold_locales (auto intro: keeps_ctrl_clo keeps_ctrl_event keeps_code)

lemmas controllers_stay_safe = reach_safe
lemmas controller_freed = runs_ignored_freed

end

section \<open>The code of the poller\<close>

inductive poller_code ::
  "'w libevent \<Rightarrow> ('u, 'w, 'z) libtor \<Rightarrow> ('u, 'w, 'z) poller_user \<Rightarrow> ('u, 'w, 'z, unit) poller_prog \<Rightarrow> bool"
  for L T user where
  "poller_code L T user (enable_tor L T user poller cb timeout)"
| "poller_code L T user (disable_tor L T user poller cb)"
| "poller_code L T user (release c)"
| "poller_code L T user (break_loop T poller)"
| "poller_code L T user (Onion_Poller.break_soon L poller)"

locale poller_life = ctrl_objects L content registered "poller_client L T user"
  for L :: "'w libevent" and content :: "'w \<Rightarrow> cptr \<Rightarrow> string"
    and registered :: "'w \<Rightarrow> cptr \<Rightarrow> nat option"
    and T :: "('u, 'w, 'z) libtor" and user :: "('u, 'w, 'z) poller_user" +
  assumes user_keeps: "keeps (user cb st)" and break_keeps: "keeps (tor_break_loop T)"
begin

lemma keeps_poller_client: "keeps (poller_client L T user k r)"
proof -
  have wait: "keeps (wait_for_circuit L poller c cb timeout counter)" for poller c cb timeout counter
    unfolding wait_for_circuit_def setconf_disable_network_def
    by (simp add: keeps_sendrecv keeps_once)
  show ?thesis
    unfolding poller_client_def
    by (auto simp: keeps_raise user_keeps break_keeps wait setconf_disable_network_def keeps_close
        keeps_sendrecv getinfo_status_bootstrap_phase_as_int_def
        getinfo_status_bootstrap_phase_as_string_def
        split: poller_cb.split reply.split intro!: keeps_andthen keeps_cells)
qed

sublocale ctrl_life L content registered "poller_client L T user"
  by unfold_locales (rule keeps_poller_client)

lemma keeps_poller_code: "poller_code L T user m \<Longrightarrow> keeps m"
  by (induction rule: poller_code.induct)
    (auto simp: enable_tor_def disable_tor_def break_loop_def Onion_Poller.break_soon_def
      keeps_connect_and_authenticate keeps_release break_keeps keeps_once intro!: keeps_andthen keeps_create)

sublocale poller: lifecycle L content registered ctrl_unique "run_ctrl_clo L (poller_client L T user) fuel"
  "run_ctrl_event L (poller_client L T user)" "poller_code L T user" for fuel
  by unfold_locales (auto intro: keeps_ctrl_clo keeps_ctrl_event keeps_poller_code)

lemmas poller_stays_safe = poller.reach_safe
lemmas poller_callback_failure =
  bev_callback_failure [where run = "run_ctrl_clo L (poller_client L T user) fuel" for fuel,
    OF _ _ keeps_ctrl_clo]
  bev_callback_failure [where run = "\<lambda>k. run_ctrl_event L (poller_client L T user) k what" for what,
    OF _ _ keeps_ctrl_event]
lemmas poller_timer_failure = timer_failure

end

section \<open>The interpretations\<close>

lemma sim_fresh_registered: "sim_fresh w \<le> p \<Longrightarrow> sim_registered w p = None"
proof -
  assume p: "sim_fresh w \<le> p"
  have "k \<le> sum_list (map fst (sim_cbs w))" if "(k, arg) \<in> set (sim_cbs w)" for k arg
    using that by (force intro: member_le_sum_list)
  with p have "map_of (sim_cbs w) p = None"
    by (force simp: map_of_eq_None_iff sim_fresh_def)
  then show ?thesis by (simp add: sim_registered_def)
qed

lemma sim_registered_frame [simp]:
  "sim_registered (w\<lparr>sim_onces := y\<rparr>) = sim_registered w"
  "sim_registered (sim_store b cs w) = sim_registered w"
  "sim_registered (sim_add b x w) = sim_registered w"
  "sim_registered (w\<lparr>sim_layers := z\<rparr>) = sim_registered w"
  "sim_registered (w\<lparr>sim_cbs := (p, arg) # sim_cbs w\<rparr>) = (sim_registered w)(p := if p = 0 then None else arg)"
  by (simp_all add: sim_registered_def sim_store_def sim_add_def fun_eq_iff)

interpretation sim_callbacks: callback_api sim_libevent sim_content sim_registered
proof unfold_locales
  show "sim_registered w 0 = None" for w by (simp add: sim_registered_def)
next
  fix base fd flags w p w'
  assume "bufferevent_socket_new sim_libevent base fd flags w = (p, w')"
  then show "sim_registered w' = sim_registered w \<and> sim_registered w p = None"
    by (auto simp: sim_libevent_def Let_def sim_fresh_registered)
next
  fix base u ssl st opts w p w'
  assume "bufferevent_openssl_filter_new sim_libevent base u ssl st opts w = (p, w')"
  then show "sim_registered w' = (sim_registered w)(u := None) \<and> sim_registered w p = None \<and> p \<noteq> u"
    by (auto simp: sim_libevent_def Let_def sim_fresh_registered)
qed (auto simp: sim_libevent_def)

interpretation sim_objects: object_life sim_libevent sim_content sim_registered
  "ctrl_unique :: nat \<Rightarrow> ('k, simw, 'z) ocst_scheme \<Rightarrow> bool"
  by unfold_locales (simp_all add: ctrl_unique_frame)

interpretation sim_ctrl_objects: ctrl_objects sim_libevent sim_content sim_registered
  "client :: ('k, simw, 'z) oc_client"
  by unfold_locales

interpretation sim_ctrl_life: ctrl_life sim_libevent sim_content sim_registered
  "log_client :: ('k, simw, 'k call list) oc_client"
  by unfold_locales
    (simp add: log_client_def, rule sim_ctrl_objects.keeps_modify, simp_all add: ctrl_unique_frame)

interpretation sim_poller_life: poller_life sim_libevent sim_content sim_registered
  sim_tor poller_recorder
  by unfold_locales
    (auto simp: poller_recorder_def sim_tor_def ctrl_unique_frame split: reply.split
      intro!: sim_objects.keeps_ret sim_ctrl_objects.keeps_modify)

section \<open>Memory safety\<close>

text \<open>
  C6: Whatever a program does with controllers, and in whatever order libevent runs the callbacks of
  bufferevents and timers, the invariant holds: the argument of every callback libevent can run is
  an object that has not been deleted, every object a timer will delete is alive, unreferenced and
  detached from libevent, and no object is deleted twice.
\<close>

theorem memory_safe_invariant:
  assumes "ctrl_life L content registered client"
    and "memory_safe registered ctrl_unique s"
    and "life_reach L registered ctrl_unique (run_ctrl_clo L client fuel) (run_ctrl_event L client)
      (ctrl_code L client) s t"
  shows "memory_safe registered ctrl_unique t"
  using ctrl_life.controllers_stay_safe [OF assms(1,3,2)] .

lemma demo_new_safe: "memory_safe sim_registered ctrl_unique demo_new"
  by (auto simp: memory_safe_def demo_new_def demo_state_def doomed_def sim_registered_def sim_empty_def)

theorem memory_safe_invariant_witness:
  "runs (connect_and_authenticate_sa sim_libevent log_client 0 ''sa'' 2 (7 :: nat) '''' None) demo_new
     (\<lambda>_ t. memory_safe sim_registered ctrl_unique t \<and> sim_registered (world t) 1 = Some 1)"
proof -
  let ?m = "connect_and_authenticate_sa sim_libevent log_client 0 ''sa'' 2 (7 :: nat) '''' None"
  have run: "runs ?m demo_new (\<lambda>_ t. sim_registered (world t) 1 = Some 1)"
    unfolding runs_def by code_simp
  have "memory_safe sim_registered ctrl_unique t" if "?m demo_new = (Return (), t)" for t
    by (rule memory_safe_invariant [OF sim_ctrl_life.ctrl_life_axioms demo_new_safe r_into_rtranclp])
      (rule life_step.Program [where m = ?m, OF _ that], rule ctrl_code.intros)
  with run show ?thesis by (auto simp: runs_def split: prod.splits outcome.splits)
qed

text \<open>
  C19: In every state a program that uses the poller can reach, the callbacks libevent can run for
  reading and for events find their object, and a timer finds its function: if one of them ends abnormally, then because the client's closure
  did, not because of a dangling pointer or a double deletion.
\<close>

theorem callbacks_never_dangle:
  assumes "poller_life L content registered T user" and "memory_safe registered ctrl_unique s"
    and "life_reach L registered ctrl_unique (run_ctrl_clo L (poller_client L T user) fuel)
      (run_ctrl_event L (poller_client L T user)) (poller_code L T user) s t"
  shows "(registered (world t) p = Some h \<longrightarrow>
        fails_only_by (run_ctrl_clo L (poller_client L T user) fuel) (Option.bind (bevs t h) read_cb)
          (mk_libevent_bev_read L ctrl_unique (run_ctrl_clo L (poller_client L T user) fuel) h) t \<and>
        fails_only_by (\<lambda>k. run_ctrl_event L (poller_client L T user) k what) (Option.bind (bevs t h) event_cb)
          (mk_libevent_bev_event L ctrl_unique (run_ctrl_event L (poller_client L T user)) what h) t) \<and>
     (onces t i = Some c \<longrightarrow>
        fails_only_by (\<lambda>k. run_ctrl_event L (poller_client L T user) k what) (client_timer c)
          (mk_libevent_event_cb L ctrl_unique (run_ctrl_event L (poller_client L T user)) what i) t)"
proof -
  note safe = poller_life.poller_stays_safe [OF assms(1,3,2)]
  note failure = poller_life.poller_callback_failure [OF assms(1) safe]
    poller_life.poller_timer_failure [OF assms(1) safe]
  show ?thesis
    using failure unfolding mk_libevent_bev_read_def mk_libevent_bev_event_def by blast
qed

theorem callbacks_never_dangle_witness:
  "runs (Onion_Poller.break_soon sim_libevent demo_base)
     (demo_new :: (nat poller_cb, simw, (nat \<times> onion_status) list) ocst_scheme)
     (\<lambda>_ t. onces t 0 = Some (Once (ClientOnce BreakLoop)) \<and>
       fails_only_by (\<lambda>k. run_ctrl_event sim_libevent (poller_client sim_libevent sim_tor poller_recorder) k 1)
         (Some (ClientOnce BreakLoop))
         (mk_libevent_event_cb sim_libevent ctrl_unique
           (run_ctrl_event sim_libevent (poller_client sim_libevent sim_tor poller_recorder)) 1 0) t)"
proof -
  let ?m = "Onion_Poller.break_soon sim_libevent demo_base"
  have run: "runs ?m (demo_new :: (nat poller_cb, simw, (nat \<times> onion_status) list) ocst_scheme)
      (\<lambda>_ t. onces t 0 = Some (Once (ClientOnce BreakLoop)))"
    by (simp add: Onion_Poller.break_soon_def EventBase_once_def alloc_once_def lib_check_def prog_simps
        demo_new_def demo_state_def sim_libevent_def)
  have "life_reach sim_libevent sim_registered ctrl_unique
      (run_ctrl_clo sim_libevent (poller_client sim_libevent sim_tor poller_recorder) 9)
      (run_ctrl_event sim_libevent (poller_client sim_libevent sim_tor poller_recorder))
      (poller_code sim_libevent sim_tor poller_recorder) demo_new t"
    if "?m demo_new = (Return (), t)" for t
    by (rule r_into_rtranclp, rule life_step.Program [where m = ?m, OF _ that]) (rule poller_code.intros)
  note never = callbacks_never_dangle [where i = 0 and c = "Once (ClientOnce BreakLoop)" and what = 1, OF sim_poller_life.poller_life_axioms demo_new_safe
      this, THEN conjunct2, THEN mp]
  with run show ?thesis
    by (auto simp: runs_def split: prod.splits outcome.splits dest!: never)
qed

text \<open>
  C25: An object the program no longer refers to is freed: the next callback libevent runs with it
  sets a timer, and when the timer fires the object is gone, libevent has no callback with it left,
  and the invariant still holds.
\<close>

theorem unreferenced_object_is_freed:
  assumes "ctrl_life L content registered client"
    and "memory_safe registered ctrl_unique s"
    and "registered (world s) p = Some h" and "ctrl_unique h s"
  shows "runs (followed_by (bev_callback L ctrl_unique member run h)
      (andthen (gets (\<lambda>s. next_once s - 1)) (mk_libevent_event_cb L ctrl_unique (run_ctrl_event L client) what))) s
    (\<lambda>_ t. memory_safe registered ctrl_unique t \<and> bevs t h = None \<and> \<not> doomed h t \<and>
       (\<forall>q. registered (world t) q \<noteq> Some h))"
  by (rule ctrl_life.controller_freed [OF assms])

theorem unreferenced_object_is_freed_witness:
  "runs (followed_by (bev_callback sim_libevent ctrl_unique read_cb (run_ctrl_clo sim_libevent log_client 9) 0)
      (andthen (gets (\<lambda>s. next_once s - 1))
        (mk_libevent_event_cb sim_libevent ctrl_unique (run_ctrl_event sim_libevent log_client) 1)))
    (demo_new \<lparr>world := sim_empty\<lparr>sim_cbs := [(1, Some 0)]\<rparr>\<rparr> :: (nat, simw, nat call list) ocst_scheme)
    (\<lambda>_ t. bevs t 0 = None)"
proof -
  let ?s = "demo_new \<lparr>world := sim_empty\<lparr>sim_cbs := [(1, Some 0)]\<rparr>\<rparr> :: (nat, simw, nat call list) ocst_scheme"
  have "memory_safe sim_registered ctrl_unique ?s"
    by (auto simp: memory_safe_def demo_new_def demo_state_def doomed_def sim_registered_def)
  moreover have "sim_registered (world ?s) 1 = Some 0" and "ctrl_unique 0 ?s"
    by (simp_all add: sim_registered_def ctrl_unique_def demo_new_def)
  ultimately show ?thesis
    by (rule runs_mono [OF unreferenced_object_is_freed [OF sim_ctrl_life.ctrl_life_axioms]]) simp
qed

end
