(* ===== verification/Http_Parser.thy ===== *)
theory Http_Parser
  imports Wrappers
begin

text \<open>
  \<open>src/http/http-parser.hpp\<close>: the class \<open>HttpParser\<close> over the C library http-parser.  The library
  is a parameter: from the state of its parser and the bytes to parse it computes the callbacks it
  runs, in order, each with the state the parser has at that moment, then the number of bytes it has
  parsed and its final state.  What the class adds is the dispatch of the callbacks to closures of
  the client, the exceptions, and the lifetime of the closures.
\<close>

section \<open>The library\<close>

datatype http_parser_type = HTTP_REQUEST | HTTP_RESPONSE | HTTP_BOTH

text \<open>The callbacks of the library with their data.\<close>

datatype http_event =
    Message_begin
  | Url string
  | Status string
  | Header_field string
  | Header_value string
  | Headers_complete
  | Body string
  | Message_complete
  | Chunk_header
  | Chunk_complete

record http_settings =
  on_message_begin :: bool
  on_url :: bool
  on_status :: bool
  on_header_field :: bool
  on_header_value :: bool
  on_headers_complete :: bool
  on_body :: bool
  on_message_complete :: bool
  on_chunk_header :: bool
  on_chunk_complete :: bool

definition http_parser_settings_init :: http_settings where
  "http_parser_settings_init =
     \<lparr>on_message_begin = False, on_url = False, on_status = False, on_header_field = False,
      on_header_value = False, on_headers_complete = False, on_body = False,
      on_message_complete = False, on_chunk_header = False, on_chunk_complete = False\<rparr>"

fun is_set :: "http_settings \<Rightarrow> http_event \<Rightarrow> bool" where
  "is_set s Message_begin = on_message_begin s"
| "is_set s (Url _) = on_url s"
| "is_set s (Status _) = on_status s"
| "is_set s (Header_field _) = on_header_field s"
| "is_set s (Header_value _) = on_header_value s"
| "is_set s Headers_complete = on_headers_complete s"
| "is_set s (Body _) = on_body s"
| "is_set s Message_complete = on_message_complete s"
| "is_set s Chunk_header = on_chunk_header s"
| "is_set s Chunk_complete = on_chunk_complete s"

record 'p http_lib =
  http_parser_init :: "http_parser_type \<Rightarrow> 'p"
  http_parser_run :: "'p \<Rightarrow> string \<Rightarrow> (http_event \<times> 'p) list \<times> nat \<times> 'p"
  http_upgrade :: "'p \<Rightarrow> bool"

section \<open>The object\<close>

text \<open>\<open>parser_data\<close> is the member \<open>data\<close> of the C structure, a pointer to the object.\<close>

record ('k, 'p) http_obj =
  http_struct :: 'p
  parser_data :: "nat option"
  settings :: http_settings
  cb_message_begin :: "'k option"
  cb_status :: "'k option"
  cb_header_field :: "'k option"
  cb_header_value :: "'k option"
  cb_headers_complete :: "'k option"
  cb_body :: "'k option"
  cb_message_complete :: "'k option"

record ('k, 'p) hpst =
  parsers :: "nat \<Rightarrow> ('k, 'p) http_obj option"
  next_parser :: nat

type_synonym ('k, 'p, 'z, 'a) hp_prog = "(('k, 'p, 'z) hpst_scheme, exn, 'a) prog"

type_synonym ('k, 'p, 'z) hp_client = "'k \<Rightarrow> http_event \<Rightarrow> ('k, 'p, 'z, unit) hp_prog"

definition parser_get :: "nat \<Rightarrow> ('k, 'p, 'z, ('k, 'p) http_obj) hp_prog" where
  "parser_get h = andthen (gets (\<lambda>s. parsers s h))
     (\<lambda>r. case r of None \<Rightarrow> raise (UndefinedBehaviour ''dangling HttpParser'') | Some x \<Rightarrow> ret x)"

definition parser_put ::
  "nat \<Rightarrow> (('k, 'p) http_obj \<Rightarrow> ('k, 'p) http_obj) \<Rightarrow> ('k, 'p, 'z, unit) hp_prog" where
  "parser_put h f = andthen (parser_get h)
     (\<lambda>x. modify (\<lambda>s. s\<lparr>parsers := (parsers s)(h \<mapsto> f x)\<rparr>))"

definition create_parser :: "'p http_lib \<Rightarrow> http_parser_type \<Rightarrow> ('k, 'p, 'z, nat) hp_prog" where
  "create_parser L type =
     andthen (gets next_parser)
       (\<lambda>h. followed_by
          (modify (\<lambda>s. s\<lparr>parsers := (parsers s)(h \<mapsto>
             \<lparr>http_struct = http_parser_init L type,
              parser_data = Some h,
              settings = http_parser_settings_init
                \<lparr>on_message_begin := True, on_status := True, on_header_field := True,
                 on_header_value := True, on_headers_complete := True, on_body := True,
                 on_message_complete := True\<rparr>,
              cb_message_begin = None, cb_status = None, cb_header_field = None,
              cb_header_value = None, cb_headers_complete = None, cb_body = None,
              cb_message_complete = None\<rparr>), next_parser := Suc h\<rparr>))
          (ret h))"

definition clear :: "nat option \<Rightarrow> ('k, 'p, 'z, unit) hp_prog" where
  "clear parser = andthen (var_arrow parser)
     (\<lambda>h. followed_by (parser_put h (\<lambda>x. x\<lparr>cb_message_begin := None\<rparr>))
         (followed_by (parser_put h (\<lambda>x. x\<lparr>cb_status := None\<rparr>))
         (followed_by (parser_put h (\<lambda>x. x\<lparr>cb_header_field := None\<rparr>))
         (followed_by (parser_put h (\<lambda>x. x\<lparr>cb_header_value := None\<rparr>))
         (followed_by (parser_put h (\<lambda>x. x\<lparr>cb_headers_complete := None\<rparr>))
         (followed_by (parser_put h (\<lambda>x. x\<lparr>cb_body := None\<rparr>))
           (parser_put h (\<lambda>x. x\<lparr>cb_message_complete := None\<rparr>))))))))"

section \<open>The C callbacks\<close>

text \<open>
  The body of the macros \<open>EVENT_CB\<close> and \<open>EVENT_DATA_CB\<close>; the closure is called with the data of the
  event.  The callbacks return 0, so the library goes on.
\<close>

definition EVENT_CB ::
  "('k, 'p, 'z) hp_client \<Rightarrow> (('k, 'p) http_obj \<Rightarrow> 'k option) \<Rightarrow> nat option \<Rightarrow> http_event \<Rightarrow>
   ('k, 'p, 'z, unit) hp_prog" where
  "EVENT_CB client member p ev =
     (case p of
        None \<Rightarrow> raise (UndefinedBehaviour ''null HttpParser'')
      | Some h \<Rightarrow> andthen (parser_get h)
          (\<lambda>parser. if func_bool (member parser)
             then func_call (\<lambda>s. Option.bind (parsers s h) member) (\<lambda>k. client k ev)
             else ret ()))"

fun mk_http_parser ::
  "('k, 'p, 'z) hp_client \<Rightarrow> nat option \<Rightarrow> http_event \<Rightarrow> ('k, 'p, 'z, unit) hp_prog" where
  "mk_http_parser client p Message_begin = EVENT_CB client cb_message_begin p Message_begin"
| "mk_http_parser client p (Status s) = EVENT_CB client cb_status p (Status s)"
| "mk_http_parser client p (Header_field s) = EVENT_CB client cb_header_field p (Header_field s)"
| "mk_http_parser client p (Header_value s) = EVENT_CB client cb_header_value p (Header_value s)"
| "mk_http_parser client p Headers_complete = EVENT_CB client cb_headers_complete p Headers_complete"
| "mk_http_parser client p (Body s) = EVENT_CB client cb_body p (Body s)"
| "mk_http_parser client p Message_complete = EVENT_CB client cb_message_complete p Message_complete"
| "mk_http_parser client p _ = ret ()"

section \<open>Parsing\<close>

text \<open>What the library does with the object \<open>h\<close>: it runs the callbacks that are set.\<close>

definition http_step ::
  "('k, 'p, 'z) hp_client \<Rightarrow> nat \<Rightarrow> http_event \<times> 'p \<Rightarrow> ('k, 'p, 'z, unit) hp_prog" where
  "http_step client h e =
     followed_by (parser_put h (\<lambda>x. x\<lparr>http_struct := snd e\<rparr>))
       (andthen (parser_get h)
          (\<lambda>x. if is_set (settings x) (fst e) then mk_http_parser client (parser_data x) (fst e)
               else ret ()))"

definition http_parser_execute ::
  "'p http_lib \<Rightarrow> ('k, 'p, 'z) hp_client \<Rightarrow> nat \<Rightarrow> string \<Rightarrow> ('k, 'p, 'z, nat) hp_prog" where
  "http_parser_execute L client h data =
     andthen (parser_get h)
       (\<lambda>x. case http_parser_run L (http_struct x) data of (es, n, p) \<Rightarrow>
          followed_by (run_all (http_step client h) es)
            (followed_by (parser_put h (\<lambda>x. x\<lparr>http_struct := p\<rparr>)) (ret n)))"

definition http_parse ::
  "'p http_lib \<Rightarrow> ('k, 'p, 'z) hp_client \<Rightarrow> nat option \<Rightarrow> string \<Rightarrow> ('k, 'p, 'z, unit) hp_prog" where
  "http_parse L client parser data =
     andthen (var_arrow parser)
       (\<lambda>h. andthen (http_parser_execute L client h data)
          (\<lambda>n. andthen (parser_get h)
             (\<lambda>x. if http_upgrade L (http_struct x)
                then MK_THROW ''src/http/http-parser.hpp'' 102 ''parse'' HttpParserUpgradeError
                else if n \<noteq> length data
                then MK_THROW ''src/http/http-parser.hpp'' 105 ''parse'' HttpParserGenericParseError
                else ret ())))"

definition http_eof ::
  "'p http_lib \<Rightarrow> ('k, 'p, 'z) hp_client \<Rightarrow> nat option \<Rightarrow> ('k, 'p, 'z, unit) hp_prog" where
  "http_eof L client parser = http_parse L client parser ''''"

end
