(* ===== verification/Http_Props.thy ===== *)
theory Http_Props
  imports Http_Parser
begin

text \<open>
  What \<open>HttpParser\<close> adds to the C library: which closures a run of the library calls, with what, what
  is left of the object, and how the call ends.  The client may clear the parser from a closure.
\<close>

section \<open>Specification\<close>

fun handler :: "http_event \<Rightarrow> ('k, 'p) http_obj \<Rightarrow> 'k option" where
  "handler Message_begin x = cb_message_begin x"
| "handler (Status _) x = cb_status x"
| "handler (Header_field _) x = cb_header_field x"
| "handler (Header_value _) x = cb_header_value x"
| "handler Headers_complete x = cb_headers_complete x"
| "handler (Body _) x = cb_body x"
| "handler Message_complete x = cb_message_complete x"
| "handler _ x = None"

definition cleared :: "('k, 'p) http_obj \<Rightarrow> ('k, 'p) http_obj" where
  "cleared x = x\<lparr>cb_message_begin := None, cb_status := None, cb_header_field := None,
     cb_header_value := None, cb_headers_complete := None, cb_body := None, cb_message_complete := None\<rparr>"

text \<open>
  The calls a list of events makes: one for each event that has a closure, until one of the closures
  clears the parser.
\<close>

fun http_calls ::
  "('k \<Rightarrow> bool) \<Rightarrow> ('k, 'p) http_obj \<Rightarrow> http_event list \<Rightarrow> ('k \<times> http_event) list" where
  "http_calls clears x [] = []"
| "http_calls clears x (ev # evs) = (case handler ev x of
      None \<Rightarrow> http_calls clears x evs
    | Some k \<Rightarrow> (k, ev) # (if clears k then [] else http_calls clears x evs))"

text \<open>The object a call of \<open>create\<close> leaves, whatever closures are set later.\<close>

definition wired :: "nat \<Rightarrow> ('k, 'p) http_obj \<Rightarrow> bool" where
  "wired h x \<longleftrightarrow> parser_data x = Some h \<and> on_message_begin (settings x) \<and> on_status (settings x) \<and>
     on_header_field (settings x) \<and> on_header_value (settings x) \<and> on_headers_complete (settings x) \<and>
     on_body (settings x) \<and> on_message_complete (settings x)"

definition parse_outcome :: "'p http_lib \<Rightarrow> 'p \<Rightarrow> nat \<Rightarrow> nat \<Rightarrow> (exn, unit) outcome" where
  "parse_outcome L p n count =
     (if http_upgrade L p
      then Throw (ErrorExn (mk_located ''src/http/http-parser.hpp'' 102 ''parse'' HttpParserUpgradeError))
      else if n \<noteq> count
      then Throw (ErrorExn (mk_located ''src/http/http-parser.hpp'' 105 ''parse'' HttpParserGenericParseError))
      else Return ())"

section \<open>Runs of the library\<close>

lemma handler_cleared [simp]: "handler ev (cleared x) = None"
  by (cases ev) (simp_all add: cleared_def)

lemma handler_struct [simp]: "handler ev (x\<lparr>http_struct := p\<rparr>) = handler ev x"
  by (cases ev) simp_all

lemma cleared_struct [simp]: "cleared (x\<lparr>http_struct := p\<rparr>) = (cleared x)\<lparr>http_struct := p\<rparr>"
  and cleared_cleared [simp]: "cleared (cleared x) = cleared x"
  by (simp_all add: cleared_def)

lemma wired_struct [simp]: "wired h (x\<lparr>http_struct := p\<rparr>) = wired h x"
  and wired_cleared [simp]: "wired h (cleared x) = wired h x"
  by (simp_all add: wired_def cleared_def)

lemma http_calls_struct [simp]: "http_calls clears (x\<lparr>http_struct := p\<rparr>) evs = http_calls clears x evs"
  by (induction evs) (simp_all split: option.split)

lemma http_calls_cleared [simp]: "http_calls clears (cleared x) evs = []"
  by (induction evs) simp_all

lemma runs_parser_get [prog_simps]: "parsers s h = Some x \<Longrightarrow> runs (parser_get h) s P = P x s"
  and runs_parser_put [prog_simps]:
    "parsers s h = Some x \<Longrightarrow> runs (parser_put h f) s Q = Q () (s\<lparr>parsers := (parsers s)(h \<mapsto> f x)\<rparr>)"
  by (simp_all add: parser_get_def parser_put_def prog_simps)

lemma runs_clear:
  assumes "parsers s h = Some x"
  shows "runs (clear (Some h)) s (\<lambda>_ t. t = s\<lparr>parsers := (parsers s)(h \<mapsto> cleared x)\<rparr>)"
  using assms by (simp add: clear_def cleared_def prog_simps)

lemma runs_mk_http_parser:
  assumes "parsers s h = Some x" and "wired h x"
  shows "runs (if is_set (settings x) ev then mk_http_parser client (parser_data x) ev else ret ()) s P =
    (case handler ev x of None \<Rightarrow> P () s | Some k \<Rightarrow> runs (client k ev) s P)"
  using assms
  by (cases ev) (auto simp: wired_def EVENT_CB_def func_bool_def prog_simps runs_func_call split: option.split)

lemma runs_http_step:
  assumes "parsers s h = Some x" and "wired h x"
  shows "runs (http_step client h (ev, p)) s P = (case handler ev x of
      None \<Rightarrow> P () (s\<lparr>parsers := (parsers s)(h \<mapsto> x\<lparr>http_struct := p\<rparr>)\<rparr>)
    | Some k \<Rightarrow> runs (client k ev) (s\<lparr>parsers := (parsers s)(h \<mapsto> x\<lparr>http_struct := p\<rparr>)\<rparr>) P)"
  unfolding http_step_def runs_andthen runs_parser_put [OF assms(1)] fst_conv snd_conv
  by (subst runs_parser_get, simp, subst runs_mk_http_parser [where h = h]) (simp_all add: assms)

locale http_client =
  fixes client :: "('k, 'p, 'z) hp_client" and log_of :: "'z \<Rightarrow> ('k \<times> http_event) list"
    and clears :: "'k \<Rightarrow> bool" and h :: nat
  assumes runs_client: "parsers s h = Some x \<Longrightarrow> runs (client k ev) s (\<lambda>_ t.
      log_of (hpst.more t) = log_of (hpst.more s) @ [(k, ev)] \<and>
      parsers t = (parsers s)(h \<mapsto> if clears k then cleared x else x))"
begin

abbreviation log :: "('k, 'p, 'z) hpst_scheme \<Rightarrow> ('k \<times> http_event) list" where
  "log s \<equiv> log_of (hpst.more s)"

definition after :: "('k, 'p) http_obj \<Rightarrow> http_event list \<Rightarrow> ('k, 'p) http_obj" where
  "after x evs = (if \<exists>c \<in> set (http_calls clears x evs). clears (fst c) then cleared x else x)"

lemma after_Cons: "after x (ev # evs) = (case handler ev x of None \<Rightarrow> after x evs
    | Some k \<Rightarrow> if clears k then cleared x else after x evs)"
  by (simp add: after_def split: option.split)

lemma after_cleared [simp]: "after (cleared x) evs = cleared x"
  by (simp add: after_def)

lemma runs_events:
  assumes "parsers s h = Some x" and "wired h x"
  shows "runs (run_all (http_step client h) es) s (\<lambda>_ t.
    log t = log s @ http_calls clears x (map fst es) \<and>
    (\<exists>p. parsers t = (parsers s)(h \<mapsto> (after x (map fst es))\<lparr>http_struct := p\<rparr>)))"
  using assms
proof (induction es arbitrary: s x)
  case Nil
  have "\<exists>p. parsers s = (parsers s)(h \<mapsto> x\<lparr>http_struct := p\<rparr>)"
    using Nil by (intro exI [of _ "http_struct x"]) (auto simp: fun_eq_iff)
  then show ?case unfolding run_all.simps runs_ret after_def by simp
next
  case (Cons e es)
  obtain ev p where e: "e = (ev, p)" by fastforce
  let ?x = "x\<lparr>http_struct := p\<rparr>" and ?s = "s\<lparr>parsers := (parsers s)(h \<mapsto> x\<lparr>http_struct := p\<rparr>)\<rparr>"
  have s: "parsers ?s h = Some ?x" "wired h ?x" using Cons.prems by simp_all
  have rest: "runs (run_all (http_step client h) es) t (\<lambda>_ u.
      log u = log s @ calls @ http_calls clears y (map fst es) \<and>
      (\<exists>p. parsers u = (parsers s)(h \<mapsto> (after y (map fst es))\<lparr>http_struct := p\<rparr>)))"
    if "parsers t = (parsers s)(h \<mapsto> y)" "wired h y" "log t = log s @ calls" for t y calls
    by (rule runs_mono [OF Cons.IH [of t y]]) (simp_all only: that fun_upd_same fun_upd_upd append_assoc)
  have after: "(after (y\<lparr>http_struct := p\<rparr>) evs)\<lparr>http_struct := q\<rparr> = (after y evs)\<lparr>http_struct := q\<rparr>"
    for y evs q
    by (simp add: after_def)
  show ?case
  proof (cases "handler ev x")
    case None
    with rest [of ?s ?x "[]"] Cons.prems show ?thesis
      by (simp add: e runs_andthen runs_http_step after_Cons after del: fun_upd_apply)
  next
    case (Some k)
    let ?y = "if clears k then cleared ?x else ?x"
    have "runs (client k ev) ?s (\<lambda>_ t. runs (run_all (http_step client h) es) t (\<lambda>_ u.
        log u = log s @ [(k, ev)] @ http_calls clears ?y (map fst es) \<and>
        (\<exists>p. parsers u = (parsers s)(h \<mapsto> (after ?y (map fst es))\<lparr>http_struct := p\<rparr>))))"
      by (rule runs_mono [OF runs_client [OF s(1)]], rule rest) (use Cons.prems in auto)
    with Some Cons.prems show ?thesis
      by (cases "clears k") (simp_all add: e runs_andthen runs_http_step after_Cons after del: fun_upd_apply)
  qed
qed

lemma parse_result:
  assumes "parsers s h = Some x" and "wired h x"
    and "http_parser_run L (http_struct x) data = (es, n, p)"
  shows "\<exists>t. http_parse L client (Some h) data s = (parse_outcome L p n (length data), t) \<and>
    log t = log s @ http_calls clears x (map fst es) \<and>
    parsers t = (parsers s)(h \<mapsto> (after x (map fst es))\<lparr>http_struct := p\<rparr>)"
proof -
  have "runs (http_parser_execute L client h data) s (\<lambda>m t. m = n \<and>
      log t = log s @ http_calls clears x (map fst es) \<and>
      parsers t = (parsers s)(h \<mapsto> (after x (map fst es))\<lparr>http_struct := p\<rparr>))"
    unfolding http_parser_execute_def
    by (simp add: prog_simps assms(1,3), rule runs_mono [OF runs_events [OF assms(1,2)]])
      (auto simp: prog_simps)
  then obtain t where "http_parser_execute L client h data s = (Return n, t)"
    "log t = log s @ http_calls clears x (map fst es)"
    "parsers t = (parsers s)(h \<mapsto> (after x (map fst es))\<lparr>http_struct := p\<rparr>)"
    by (auto simp: runs_iff)
  then show ?thesis
    by (intro exI [of _ t]) (simp add: http_parse_def parser_get_def prog_simps parse_outcome_def)
qed

end

text \<open>A client that records its calls, some of whose closures clear the parser.\<close>

definition log_http_client ::
  "('k \<Rightarrow> bool) \<Rightarrow> nat \<Rightarrow> ('k, 'p, ('k \<times> http_event) list) hp_client" where
  "log_http_client clears h k ev =
     followed_by (modify (hpst.more_update (\<lambda>calls. calls @ [(k, ev)])))
       (if clears k then clear (Some h) else ret ())"

interpretation http_recorder: http_client "log_http_client clears h" "\<lambda>calls. calls" clears h
  for clears :: "'k \<Rightarrow> bool" and h
proof unfold_locales
  fix s :: "('k, 'p, ('k \<times> http_event) list) hpst_scheme" and x k ev
  assume x: "parsers s h = Some x"
  let ?s = "hpst.more_update (\<lambda>calls. calls @ [(k, ev)]) s"
  have "runs (clear (Some h)) ?s (\<lambda>_ t. t = ?s\<lparr>parsers := (parsers s)(h \<mapsto> cleared x)\<rparr>)"
    using runs_clear [of ?s h x] x by simp
  then show "runs (log_http_client clears h k ev) s (\<lambda>_ t.
      hpst.more t = hpst.more s @ [(k, ev)] \<and>
      parsers t = (parsers s)(h \<mapsto> if clears k then cleared x else x))"
    using x by (auto simp: log_http_client_def runs_andthen runs_modify runs_ret fun_upd_idem elim!: runs_mono)
qed

section \<open>Parsing\<close>

lemma handler_None:
  "cb_message_begin x = None \<Longrightarrow> cb_status x = None \<Longrightarrow> cb_header_field x = None \<Longrightarrow>
   cb_header_value x = None \<Longrightarrow> cb_headers_complete x = None \<Longrightarrow> cb_body x = None \<Longrightarrow>
   cb_message_complete x = None \<Longrightarrow> handler ev x = None"
  by (cases ev) simp_all

lemma runs_create_parser:
  "runs (create_parser L type) s (\<lambda>h t. h = next_parser s \<and> hpst.more t = hpst.more s \<and>
     (\<exists>x. parsers t h = Some x \<and> wired h x \<and> http_struct x = http_parser_init L type \<and>
       (\<forall>ev. handler ev x = None)))"
  by (auto simp: create_parser_def runs_andthen runs_gets runs_modify runs_ret wired_def handler_None
      http_parser_settings_init_def)

text \<open>
  C11: \<open>parse\<close> calls the closure set for each event the library reports, in order, with the data of the
  event, and no other; when a closure clears the parser, it is the last one called.  The state of the
  library is kept for the next call.  A connection that is upgraded is reported before a parse error,
  and a parse error is that fewer bytes were parsed than given.
\<close>

theorem parse_dispatches:
  assumes "http_client client log_of clears h" and "parsers s h = Some x" and "wired h x"
    and "http_parser_run L (http_struct x) data = (es, n, p)"
  shows "\<exists>t. http_parse L client (Some h) data s = (parse_outcome L p n (length data), t) \<and>
    log_of (hpst.more t) = log_of (hpst.more s) @ http_calls clears x (map fst es) \<and>
    parsers t = (parsers s)(h \<mapsto>
      (if list_ex (\<lambda>c. clears (fst c)) (http_calls clears x (map fst es)) then cleared x else x)\<lparr>http_struct := p\<rparr>)"
  using http_client.parse_result [OF assms] unfolding http_client.after_def [OF assms(1)] list_ex_iff .

text \<open>A library that reports a status and a body for whatever it is given.\<close>

definition demo_http_lib :: "nat http_lib" where
  "demo_http_lib = \<lparr>http_parser_init = (\<lambda>_. 0),
     http_parser_run = (\<lambda>p data. ([(Message_begin, p), (Status ''OK'', p), (Body data, p), (Message_complete, p)],
       length data, p + 1)),
     http_upgrade = (\<lambda>_. False)\<rparr>"

definition demo_parser :: "(nat, nat) http_obj" where
  "demo_parser = \<lparr>http_struct = 0, parser_data = Some 0,
     settings = http_parser_settings_init
       \<lparr>on_message_begin := True, on_status := True, on_header_field := True, on_header_value := True,
        on_headers_complete := True, on_body := True, on_message_complete := True\<rparr>,
     cb_message_begin = None, cb_status = Some 1, cb_header_field = None, cb_header_value = None,
     cb_headers_complete = None, cb_body = Some 2, cb_message_complete = Some 3\<rparr>"

lemma wired_demo_parser: "wired 0 demo_parser"
  by (simp add: wired_def demo_parser_def)

theorem parse_dispatches_witness:
  "\<exists>t. http_parse demo_http_lib (log_http_client (\<lambda>k. k = 2) 0) (Some 0) ''hi''
       \<lparr>parsers = [0 \<mapsto> demo_parser], next_parser = 1, \<dots> = []\<rparr> = (Return (), t) \<and>
     hpst.more t = [(1, Status ''OK''), (2, Body ''hi'')]"
proof -
  have "parsers \<lparr>parsers = [0 \<mapsto> demo_parser], next_parser = 1, \<dots> = []\<rparr> 0 = Some demo_parser" by simp
  note parse = parse_dispatches [OF http_recorder.http_client_axioms this wired_demo_parser,
      where L = demo_http_lib and data = "''hi''" and clears = "\<lambda>k. k = 2"]
  show ?thesis
    using parse by (simp add: demo_http_lib_def parse_outcome_def demo_parser_def del: fun_upd_apply) blast
qed

text \<open>
  After \<open>clear\<close> the object refers to no closure, and nothing that is parsed makes a call.
\<close>

theorem clear_silences:
  assumes "http_client client log_of clears h" and "parsers s h = Some x" and "wired h x"
  shows "runs (clear (Some h)) s (\<lambda>_ t. hpst.more t = hpst.more s \<and>
    parsers t h = Some (cleared x) \<and>
    log_of (hpst.more (snd (http_parse L client (Some h) data t))) = log_of (hpst.more t) \<and>
    log_of (hpst.more (snd (http_eof L client (Some h) t))) = log_of (hpst.more t))"
proof (rule runs_mono [OF runs_clear [OF assms(2)]])
  fix y :: unit and t
  assume t: "t = s\<lparr>parsers := (parsers s)(h \<mapsto> cleared x)\<rparr>"
  then have h: "parsers t h = Some (cleared x)" and w: "wired h (cleared x)" using assms(3) by simp_all
  have silent: "log_of (hpst.more (snd (http_parse L client (Some h) d t))) = log_of (hpst.more t)" for d
  proof -
    obtain es n p where "http_parser_run L (http_struct (cleared x)) d = (es, n, p)"
      using prod_cases3 by blast
    from http_client.parse_result [OF assms(1) h w this] show ?thesis by auto
  qed
  with h t show "hpst.more t = hpst.more s \<and> parsers t h = Some (cleared x) \<and>
    log_of (hpst.more (snd (http_parse L client (Some h) data t))) = log_of (hpst.more t) \<and>
    log_of (hpst.more (snd (http_eof L client (Some h) t))) = log_of (hpst.more t)"
    by (simp add: http_eof_def)
qed

theorem clear_silences_witness:
  "runs (clear (Some 0)) (\<lparr>parsers = [0 \<mapsto> demo_parser], next_parser = 1, \<dots> = [(9, Url ''/'')]\<rparr>)
    (\<lambda>_ t. hpst.more (snd (http_parse demo_http_lib (log_http_client (\<lambda>_. False) 0) (Some 0) ''hi'' t)) =
       [(9, Url ''/'')])"
  by (rule runs_mono [OF clear_silences [OF http_recorder.http_client_axioms _ wired_demo_parser,
          where clears = "\<lambda>_. False" and L = demo_http_lib and data = "''hi''"]]) auto

end
