(* ===== verification/Evhelpers.thy ===== *)
theory Evhelpers
  imports Helper_State
begin

text \<open>
  \<open>src/common/evhelpers.hpp\<close>: helpers that connect, over TCP or TLS, send a request and collect the
  reply or echo it, and accept one connection.  OpenSSL and the socket calls of POSIX are parameters,
  a record of functions on the state of the world.  What is written to the standard error by \<open>warn\<close>
  and \<open>warnx\<close> is not modelled.

  As in \<open>Socks\<close>, \<open>clo\<close> makes the closures of this file closures of the program.
\<close>

section \<open>OpenSSL and POSIX\<close>

record 'w sys =
  SSLv23_client_ctx_new :: "'w \<Rightarrow> cptr \<times> 'w"
  SSL_new :: "cptr \<Rightarrow> 'w \<Rightarrow> cptr \<times> 'w"
  ERR_error_string :: "nat \<Rightarrow> string"
  strerror_errno :: "'w \<Rightarrow> string"
  sys_socket :: "'w \<Rightarrow> int \<times> 'w"
  sys_bind :: "int \<Rightarrow> string \<Rightarrow> int \<Rightarrow> 'w \<Rightarrow> int \<times> 'w"
  sys_listen :: "int \<Rightarrow> int \<Rightarrow> 'w \<Rightarrow> int \<times> 'w"
  sys_accept :: "int \<Rightarrow> 'w \<Rightarrow> int \<times> 'w"
  sys_close :: "int \<Rightarrow> 'w \<Rightarrow> int \<times> 'w"

section \<open>State and closures\<close>

text \<open>
  A \<open>std::function\<close> that takes a bufferevent is the caller's, or the one \<open>ssl_connect\<close> gives to
  \<open>connect\<close>.  The pointers \<open>output\<close> and \<open>isconnected\<close> are addresses of strings and booleans, or null.
\<close>

datatype 'k bev_fun =
    UserBev 'k
  | SslConnected 'k cptr evbase "nat option"

datatype 'k eh_clo =
    ConnectEvent nat "'k bev_fun" evbase "nat option"
  | SendrecvRead nat bool "nat option"
  | SendrecvWrite
  | SendrecvEvent nat 'k "nat option"
  | FlushWrite nat 'k
  | FlushEvent nat 'k
  | SslEvent 'k evbase nat "nat option"
  | BreakLoop evbase
  | AcceptOnce evbase 'k int

datatype eh_arg = NoArg | BevArg nat | ConnArg evbase int

type_synonym ('c, 'w, 'z, 'a) eh_prog = "(('c, 'w, 'z) ehst_scheme, exn, 'a) prog"

type_synonym ('k, 'c, 'w, 'z) eh_client = "'k \<Rightarrow> eh_arg \<Rightarrow> ('c, 'w, 'z, unit) eh_prog"

definition eh_flags :: "'w libevent \<Rightarrow> int" where
  "eh_flags L = BEV_OPT_CLOSE_ON_FREE L"

definition print_clog :: "string \<Rightarrow> ('c, 'w, 'z, unit) eh_prog" where
  "print_clog x = modify (\<lambda>s. s\<lparr>clog := clog s @ x\<rparr>)"

definition append_output :: "nat option \<Rightarrow> string \<Rightarrow> ('c, 'w, 'z, unit) eh_prog" where
  "append_output output x = (case output of
      None \<Rightarrow> raise (UndefinedBehaviour ''null output'')
    | Some a \<Rightarrow> modify (\<lambda>s. s\<lparr>strings := (strings s)(a := strings s a @ x)\<rparr>))"

definition set_flag :: "nat option \<Rightarrow> ('c, 'w, 'z, unit) eh_prog" where
  "set_flag p = (case p of
      None \<Rightarrow> ret ()
    | Some a \<Rightarrow> modify (\<lambda>s. s\<lparr>flags := (flags s)(a := True)\<rparr>))"

text \<open>The destructor of a local object runs however the block ends.\<close>

definition scoped :: "('s, exn, 'a) prog \<Rightarrow> ('s, exn, unit) prog \<Rightarrow> ('s, exn, 'a) prog" where
  "scoped m destructor = (\<lambda>s. case m s of (r, t) \<Rightarrow> (r, snd (destructor t)))"

section \<open>Printing errors\<close>

text \<open>
  The loop empties OpenSSL's queue of errors.  Nothing in the code bounds its length: the loop has
  fuel, and running out of it is the outcome \<open>Diverge\<close>.
\<close>

fun print_ssl_errors :: "'w libevent \<Rightarrow> 'w sys \<Rightarrow> nat \<Rightarrow> nat \<Rightarrow> ('c, 'w, 'z, unit) eh_prog" where
  "print_ssl_errors L S 0 bev = diverge"
| "print_ssl_errors L S (Suc fuel) bev =
     andthen (get_openssl_error L bev)
       (\<lambda>error. if error = 0 then ret ()
          else followed_by
            (andthen (gets verbose)
              (\<lambda>v. if v then print_clog (''ssl: '' @ ERR_error_string S error @ [CHR 0x0A]) else ret ()))
            (print_ssl_errors L S fuel bev))"

definition possibly_print_error ::
  "'w libevent \<Rightarrow> 'w sys \<Rightarrow> nat \<Rightarrow> u16 \<Rightarrow> nat \<Rightarrow> ('c, 'w, 'z, unit) eh_prog" where
  "possibly_print_error L S fuel what bev =
     (let descr = event_string L what
      in andthen (gets verbose)
        (\<lambda>v. followed_by (if v then print_clog (''tcp: '' @ descr @ [CHR 0x0A]) else ret ())
          (followed_by
            (if what AND BEV_EVENT_ERROR L \<noteq> 0 \<and> v
             then andthen (gets (\<lambda>s. strerror_errno S (world s)))
               (\<lambda>e. print_clog (''errno: '' @ e @ [CHR 0x0A]))
             else ret ())
            (print_ssl_errors L S fuel bev))))"

section \<open>Leaving the loop\<close>

definition break_soon :: "'w libevent \<Rightarrow> ('k eh_clo \<Rightarrow> 'c) \<Rightarrow> evbase \<Rightarrow> ('c, 'w, 'z, unit) eh_prog" where
  "break_soon L clo evbase =
     EventBase_once L evbase (- 1) (EV_TIMEOUT L) (Once (clo (BreakLoop evbase)))
       (Some \<lparr>tv_sec = 2, tv_usec = 2\<rparr>)"

section \<open>Connecting\<close>

definition sizeof_sockaddr_in :: int where
  "sizeof_sockaddr_in = 16"

definition connect ::
  "'w libevent \<Rightarrow> ('k eh_clo \<Rightarrow> 'c) \<Rightarrow> evbase \<Rightarrow> string \<Rightarrow> 'k bev_fun \<Rightarrow> nat option \<Rightarrow> ('c, 'w, 'z, unit) eh_prog" where
  "connect L clo evbase endpoint callback isconnected =
     andthen (socket_new L evbase (- 1) (eh_flags L))
       (\<lambda>bev. case parse_sockaddr_port L endpoint sizeof_sockaddr_in of (err, sa, len) \<Rightarrow>
          if error_neq_int err 0
          then followed_by (print_clog (''Cannot parse sockaddr_port'' @ [CHR 0x0A])) (break_soon L clo evbase)
          else followed_by (socket_connect L sa len bev)
            (let timeo = \<lparr>tv_sec = 3, tv_usec = 3\<rparr>
             in followed_by (set_timeouts L (Some timeo) (Some timeo) bev)
               (setcb None None (Some (clo (ConnectEvent bev callback evbase isconnected))) bev)))"

definition ssl_connect ::
  "'w libevent \<Rightarrow> ('k eh_clo \<Rightarrow> 'c) \<Rightarrow> evbase \<Rightarrow> string \<Rightarrow> cptr \<Rightarrow> 'k \<Rightarrow> nat option \<Rightarrow> nat option \<Rightarrow>
   ('c, 'w, 'z, unit) eh_prog" where
  "ssl_connect L clo evbase endpoint context callback isconnected ssl_isconnected =
     connect L clo evbase endpoint (SslConnected callback context evbase ssl_isconnected) isconnected"

definition call_bev_fun ::
  "'w libevent \<Rightarrow> ('k eh_clo \<Rightarrow> 'c) \<Rightarrow> 'w sys \<Rightarrow> ('k, 'c, 'w, 'z) eh_client \<Rightarrow> 'k bev_fun \<Rightarrow> nat \<Rightarrow> ('c, 'w, 'z, unit) eh_prog"
where
  "call_bev_fun L clo S client f bev = (case f of
      UserBev k \<Rightarrow> client k (BevArg bev)
    | SslConnected callback context evbase ssl_isconnected \<Rightarrow>
        andthen (lib (SSL_new S context))
          (\<lambda>secure. if secure = nullptr then raise StdException
             else andthen (openssl_filter_new L evbase bev secure (BUFFEREVENT_SSL_CONNECTING L) (eh_flags L))
               (\<lambda>ssl_bev. setcb None None
                  (Some (clo (SslEvent callback evbase ssl_bev ssl_isconnected))) ssl_bev)))"

text \<open>The static object of \<open>SslContext::get\<close> is made by the first call that succeeds.\<close>

definition SslContext_new :: "'w sys \<Rightarrow> ('c, 'w, 'z, cptr) eh_prog" where
  "SslContext_new S =
     andthen (lib (SSLv23_client_ctx_new S)) (\<lambda>ctx. if ctx = nullptr then raise StdException else ret ctx)"

definition SslContext_get :: "'w sys \<Rightarrow> ('c, 'w, 'z, cptr) eh_prog" where
  "SslContext_get S = andthen (gets ssl_singleton)
     (\<lambda>r. case r of
        Some ctx \<Rightarrow> ret ctx
      | None \<Rightarrow> andthen (SslContext_new S)
          (\<lambda>ctx. followed_by (modify (\<lambda>s. s\<lparr>ssl_singleton := Some ctx\<rparr>)) (ret ctx)))"

section \<open>Sending and receiving\<close>

definition sendrecv ::
  "'w libevent \<Rightarrow> ('k eh_clo \<Rightarrow> 'c) \<Rightarrow> nat \<Rightarrow> string \<Rightarrow> 'k \<Rightarrow> nat option \<Rightarrow> timeval option \<Rightarrow> bool \<Rightarrow>
   ('c, 'w, 'z, unit) eh_prog" where
  "sendrecv L clo bev request cb output timeout must_echo =
     followed_by (if request \<noteq> '''' then bev_write L request bev else ret ())
       (followed_by (if timeout \<noteq> None then set_timeouts L timeout timeout bev else ret ())
         (followed_by (enable L (EV_READ L) bev)
           (setcb (Some (clo (SendrecvRead bev must_echo output))) (Some (clo SendrecvWrite))
             (Some (clo (SendrecvEvent bev cb output))) bev)))"

definition sendrecv_read :: "'w libevent \<Rightarrow> nat \<Rightarrow> bool \<Rightarrow> nat option \<Rightarrow> ('c, 'w, 'z, unit) eh_prog" where
  "sendrecv_read L bev must_echo output =
     andthen (Evbuffer_create L)
       (\<lambda>evbuf. scoped
          (followed_by (read_buffer L evbuf bev)
            (if output \<noteq> None
             then andthen (Evbuffer_get_length L evbuf)
               (\<lambda>n. andthen (Evbuffer_remove L n evbuf) (append_output output))
             else if must_echo then write_buffer L evbuf bev
             else ret ()))
          (Evbuffer_deleter L evbuf))"

definition clear_and_call ::
  "('k, 'c, 'w, 'z) eh_client \<Rightarrow> nat \<Rightarrow> 'k \<Rightarrow> ('c, 'w, 'z, unit) eh_prog" where
  "clear_and_call client bev cb = followed_by (setcb None None None bev) (client cb NoArg)"

definition sendrecv_event ::
  "'w libevent \<Rightarrow> ('k eh_clo \<Rightarrow> 'c) \<Rightarrow> 'w sys \<Rightarrow> ('k, 'c, 'w, 'z) eh_client \<Rightarrow> nat \<Rightarrow> nat \<Rightarrow> 'k \<Rightarrow> nat option \<Rightarrow> u16 \<Rightarrow>
   ('c, 'w, 'z, unit) eh_prog" where
  "sendrecv_event L clo S client fuel bev cb output what =
     followed_by (possibly_print_error L S fuel what bev)
       (andthen (get_input L bev)
         (\<lambda>input. andthen (Evbuffer_get_length L input)
         (\<lambda>n. followed_by
            (if 0 < n then andthen (Evbuffer_get_length L input)
               (\<lambda>m. andthen (Evbuffer_remove L m input) (append_output output)) else ret ())
            (andthen (get_output L bev)
              (\<lambda>out. andthen (Evbuffer_get_length L out)
                (\<lambda>m. if 0 < m
                   then setcb None (Some (clo (FlushWrite bev cb))) (Some (clo (FlushEvent bev cb))) bev
                   else clear_and_call client bev cb))))))"

definition flush_write ::
  "'w libevent \<Rightarrow> ('k, 'c, 'w, 'z) eh_client \<Rightarrow> nat \<Rightarrow> 'k \<Rightarrow> ('c, 'w, 'z, unit) eh_prog" where
  "flush_write L client bev cb =
     andthen (get_output L bev)
       (\<lambda>out. andthen (Evbuffer_get_length L out)
          (\<lambda>n. if 0 < n then ret () else clear_and_call client bev cb))"

section \<open>Accepting one connection\<close>

text \<open>\<open>dispatch\<close> is the event loop: \<open>EventBase::dispatch\<close> together with the callbacks it runs.\<close>

definition listen_once_and_dispatch ::
  "'w libevent \<Rightarrow> ('k eh_clo \<Rightarrow> 'c) \<Rightarrow> 'w sys \<Rightarrow> (evbase \<Rightarrow> ('c, 'w, 'z, int) eh_prog) \<Rightarrow> 'k \<Rightarrow> ('c, 'w, 'z, unit) eh_prog"
where
  "listen_once_and_dispatch L clo S dispatch callback =
     andthen (lib (sys_socket S))
       (\<lambda>sock. if sock < 0 then raise (ProcessExit 1)
        else followed_by (make_listen_socket_reuseable L sock)
          (case parse_sockaddr_port L ''0.0.0.0:54321'' sizeof_sockaddr_in of (err, sa, len) \<Rightarrow>
             if error_neq_int err 0 then raise (ProcessExit 1)
             else andthen (lib (sys_bind S sock sa len))
               (\<lambda>rc. if rc \<noteq> 0 then raise (ProcessExit 1)
                else andthen (lib (sys_listen S sock 17))
                  (\<lambda>rc. if rc \<noteq> 0 then raise (ProcessExit 1)
                   else followed_by (make_socket_nonblocking L sock)
                     (andthen (EventBase_create L)
                       (\<lambda>base. followed_by
                          (EventBase_once L base sock (EV_READ L) (Once (clo (AcceptOnce base callback sock))) None)
                          (followed_by (dispatch base)
                            (andthen (lib (sys_close S sock)) (\<lambda>_. ret ())))))))))"

definition accept_once ::
  "'w libevent \<Rightarrow> 'w sys \<Rightarrow> ('k, 'c, 'w, 'z) eh_client \<Rightarrow> evbase \<Rightarrow> 'k \<Rightarrow> int \<Rightarrow> ('c, 'w, 'z, unit) eh_prog"
where
  "accept_once L S client base callback sock =
     andthen (lib (sys_accept S sock))
       (\<lambda>conn. if conn < 0 then ret ()
          else followed_by (make_socket_nonblocking L conn) (client callback (ConnArg base conn)))"

section \<open>Running the closures\<close>

definition run_eh_clo ::
  "'w libevent \<Rightarrow> ('k, 'c, 'w, 'z) eh_client \<Rightarrow> 'k eh_clo \<Rightarrow> ('c, 'w, 'z, unit) eh_prog" where
  "run_eh_clo L client c = (case c of
      SendrecvRead bev must_echo output \<Rightarrow> sendrecv_read L bev must_echo output
    | SendrecvWrite \<Rightarrow> ret ()
    | FlushWrite bev cb \<Rightarrow> flush_write L client bev cb
    | _ \<Rightarrow> raise (UndefinedBehaviour ''not a void() closure''))"

definition run_eh_event ::
  "'w libevent \<Rightarrow> ('k eh_clo \<Rightarrow> 'c) \<Rightarrow> 'w sys \<Rightarrow> ('k, 'c, 'w, 'z) eh_client \<Rightarrow> nat \<Rightarrow> 'k eh_clo \<Rightarrow> u16 \<Rightarrow>
   ('c, 'w, 'z, unit) eh_prog" where
  "run_eh_event L clo S client fuel c what = (case c of
      ConnectEvent bev callback evbase isconnected \<Rightarrow>
        if what \<noteq> BEV_EVENT_CONNECTED L
        then followed_by (possibly_print_error L S fuel what bev)
          (followed_by (setcb None None None bev) (break_soon L clo evbase))
        else followed_by (set_flag isconnected) (call_bev_fun L clo S client callback bev)
    | SendrecvEvent bev cb output \<Rightarrow> sendrecv_event L clo S client fuel bev cb output what
    | FlushEvent bev cb \<Rightarrow>
        followed_by (possibly_print_error L S fuel what bev) (clear_and_call client bev cb)
    | SslEvent callback evbase ssl_bev ssl_isconnected \<Rightarrow>
        if what \<noteq> BEV_EVENT_CONNECTED L
        then followed_by (possibly_print_error L S fuel what ssl_bev)
          (followed_by (setcb None None None ssl_bev) (break_soon L clo evbase))
        else followed_by (set_flag ssl_isconnected) (client callback (BevArg ssl_bev))
    | BreakLoop evbase \<Rightarrow> EventBase_loopbreak L evbase
    | AcceptOnce base callback sock \<Rightarrow> accept_once L S client base callback sock
    | _ \<Rightarrow> raise (UndefinedBehaviour ''not a void(short) closure''))"

end
