(* ===== verification/Evhelpers_Session.thy ===== *)
theory Evhelpers_Session
  imports Evhelpers Events
begin

text \<open>
  A transfer, from \<open>sendrecv\<close> to the call of its callback, as an automaton on bytes, and the proof that
  the closures of \<open>evhelpers.hpp\<close> implement it.
\<close>

section \<open>The automaton\<close>

text \<open>
  A transfer is open; when the connection ends while bytes are still to be sent it waits for them to
  go; then it is closed.  \<open>xf_str\<close> is what has been collected.
\<close>

datatype xphase = Open | Flushing | Closed

record xf =
  xf_phase :: xphase
  xf_in :: string
  xf_out :: string
  xf_str :: string

fun xf_step :: "bool \<Rightarrow> bool \<Rightarrow> event \<Rightarrow> xf \<Rightarrow> xf" where
  "xf_step collect echo (Readable x) a =
     (if xf_phase a \<noteq> Open then a\<lparr>xf_in := xf_in a @ x\<rparr>
      else if collect then a\<lparr>xf_in := '''', xf_str := xf_str a @ xf_in a @ x\<rparr>
      else if echo then a\<lparr>xf_in := '''', xf_out := xf_out a @ xf_in a @ x\<rparr>
      else a\<lparr>xf_in := ''''\<rparr>)"
| "xf_step collect echo Writable a =
     a\<lparr>xf_out := '''', xf_phase := (if xf_phase a = Open then Open else Closed)\<rparr>"
| "xf_step collect echo (Event what) a = (case xf_phase a of
      Open \<Rightarrow> a\<lparr>xf_in := '''', xf_str := xf_str a @ xf_in a,
        xf_phase := (if xf_out a = '''' then Closed else Flushing)\<rparr>
    | _ \<Rightarrow> a\<lparr>xf_phase := Closed\<rparr>)"

fun xf_run :: "bool \<Rightarrow> bool \<Rightarrow> event list \<Rightarrow> xf \<Rightarrow> xf" where
  "xf_run collect echo [] a = a"
| "xf_run collect echo (e # es) a = xf_run collect echo es (xf_step collect echo e a)"

lemma xf_run_append: "xf_run collect echo (es @ fs) a = xf_run collect echo fs (xf_run collect echo es a)"
  by (induction es arbitrary: a) simp_all

lemma xf_step_closed: "xf_phase a = Closed \<Longrightarrow> xf_phase (xf_step collect echo e a) = Closed"
  by (cases e) simp_all

lemma xf_run_closed: "xf_phase a = Closed \<Longrightarrow> xf_phase (xf_run collect echo es a) = Closed"
  by (induction es arbitrary: a) (simp_all add: xf_step_closed)

text \<open>The input is empty while the transfer is open, when all bytes come through the read callback.\<close>

definition xf_drained :: "xf \<Rightarrow> bool" where
  "xf_drained a \<longleftrightarrow> (xf_phase a = Open \<longrightarrow> xf_in a = '''')"

lemma xf_step_drained: "xf_drained a \<Longrightarrow> xf_drained (xf_step collect echo e a)"
  by (cases e) (auto simp: xf_drained_def split: xphase.splits)

text \<open>The one call of the client, when the transfer closes.\<close>

definition xf_calls :: "'k \<Rightarrow> xphase \<Rightarrow> xphase \<Rightarrow> ('k \<times> eh_arg) list" where
  "xf_calls k before after = (if before \<noteq> Closed \<and> after = Closed then [(k, NoArg)] else [])"

lemma xf_calls_trans:
  "xf_calls k (xf_phase a) (xf_phase (xf_step collect echo e a)) @
     xf_calls k (xf_phase (xf_step collect echo e a)) (xf_phase (xf_run collect echo es (xf_step collect echo e a))) =
   xf_calls k (xf_phase a) (xf_phase (xf_run collect echo es (xf_step collect echo e a)))"
  using xf_run_closed [of "xf_step collect echo e a"] xf_step_closed [of a]
  by (auto simp: xf_calls_def)

lemma xf_run_collects:
  "xf_run True echo (map Readable xs) a =
     (if xf_phase a \<noteq> Open then a\<lparr>xf_in := xf_in a @ concat xs\<rparr>
      else if xs = [] then a else a\<lparr>xf_in := '''', xf_str := xf_str a @ xf_in a @ concat xs\<rparr>)"
  by (induction xs arbitrary: a) auto

section \<open>The closures implement it\<close>

text \<open>What the closures leave alone.\<close>

abbreviation same_rest :: "('c, 'w, 'z) ehst_scheme \<Rightarrow> ('c, 'w, 'z) ehst_scheme \<Rightarrow> bool" where
  "same_rest s t \<equiv> ehst.more t = ehst.more s \<and> next_bev t = next_bev s"

fun xphase_cbs ::
  "('k eh_clo \<Rightarrow> 'c) \<Rightarrow> nat \<Rightarrow> 'k \<Rightarrow> nat option \<Rightarrow> bool \<Rightarrow> xphase \<Rightarrow> 'c option \<times> 'c option \<times> 'c option"
where
  "xphase_cbs clo h k out echo Open =
     (Some (clo (SendrecvRead h echo out)), Some (clo SendrecvWrite), Some (clo (SendrecvEvent h k out)))"
| "xphase_cbs clo h k out echo Flushing = (None, Some (clo (FlushWrite h k)), Some (clo (FlushEvent h k)))"
| "xphase_cbs clo h k out echo Closed = (None, None, None)"

definition eh_callbacks ::
  "nat \<Rightarrow> cptr \<Rightarrow> 'c option \<times> 'c option \<times> 'c option \<Rightarrow> ('c, 'w, 'z) ehst_scheme \<Rightarrow> bool"
where
  "eh_callbacks h p cbs s \<longleftrightarrow> p \<noteq> nullptr \<and>
     (\<exists>b. bevs s h = Some b \<and> varp b \<and> bevp b = p \<and> (read_cb b, write_cb b, event_cb b) = cbs)"

lemma eh_callbacks_frame [simp]:
  "eh_callbacks h p cbs (s\<lparr>world := w\<rparr>) = eh_callbacks h p cbs s"
  "eh_callbacks h p cbs (s\<lparr>onces := os\<rparr>) = eh_callbacks h p cbs s"
  "eh_callbacks h p cbs (s\<lparr>next_once := n\<rparr>) = eh_callbacks h p cbs s"
  "eh_callbacks h p cbs (s\<lparr>strings := ss\<rparr>) = eh_callbacks h p cbs s"
  "eh_callbacks h p cbs (s\<lparr>flags := fs\<rparr>) = eh_callbacks h p cbs s"
  "eh_callbacks h p cbs (s\<lparr>clog := l\<rparr>) = eh_callbacks h p cbs s"
  by (simp_all add: eh_callbacks_def)

text \<open>
  The contract of a session, beyond that of bufferevents: evbuffers that are created are empty and
  not those of a bufferevent, bytes can be moved between them, and OpenSSL's queue of errors is
  finite, shorter than the fuel of the loop that empties it.  The client notes its calls.
\<close>

locale transfer_api = event_env L content arrive flush
  for L :: "'w libevent" and content :: "'w \<Rightarrow> cptr \<Rightarrow> string"
    and arrive :: "cptr \<Rightarrow> string \<Rightarrow> 'w \<Rightarrow> 'w" and flush :: "cptr \<Rightarrow> 'w \<Rightarrow> 'w" +
  fixes ssl_pending :: "'w \<Rightarrow> cptr \<Rightarrow> nat list" and fuel :: nat
  assumes buf_new: "\<exists>b w'. evbuffer_new L w = (b, w') \<and> b \<noteq> nullptr \<and> content w' = (content w)(b := '''') \<and>
        (\<forall>p. p \<noteq> nullptr \<longrightarrow> b \<noteq> bufferevent_get_input L p \<and> b \<noteq> bufferevent_get_output L p)"
    and buf_free: "c \<noteq> b \<Longrightarrow> content (evbuffer_free L b w) c = content w c"
    and bev_read_buffer: "b \<noteq> bufferevent_get_input L p \<Longrightarrow> \<exists>w'. bufferevent_read_buffer L p b w = (0, w') \<and>
        content w' = (content w)(b := content w b @ content w (bufferevent_get_input L p),
          bufferevent_get_input L p := '''')"
    and bev_write_buffer: "b \<noteq> bufferevent_get_output L p \<Longrightarrow> \<exists>w'. bufferevent_write_buffer L p b w = (0, w') \<and>
        content w' = (content w)(bufferevent_get_output L p := content w (bufferevent_get_output L p) @ content w b,
          b := '''')"
    and no_ssl_error: "ssl_pending w p = [] \<Longrightarrow> bufferevent_get_openssl_error L p w = (0, w)"
    and ssl_error: "ssl_pending w p = e # es \<Longrightarrow> \<exists>w'. bufferevent_get_openssl_error L p w = (e, w') \<and>
        e \<noteq> 0 \<and> ssl_pending w' p = es \<and> content w' = content w"
    and ssl_bounded: "length (ssl_pending w p) < fuel"
begin

text \<open>What printing errors leaves alone.\<close>

definition quiet :: "('c, 'w, 'z) ehst_scheme \<Rightarrow> ('c, 'w, 'z) ehst_scheme \<Rightarrow> bool" where
  "quiet s t \<longleftrightarrow> (\<exists>w l. content w = content (world s) \<and> t = s\<lparr>world := w, clog := l\<rparr>)"

lemma quiet_refl: "quiet s s"
  unfolding quiet_def by (intro exI [of _ "world s"] exI [of _ "clog s"]) simp

lemma quiet_print: "quiet (s\<lparr>clog := l\<rparr>) t \<Longrightarrow> quiet s t"
  by (auto simp: quiet_def)

lemma quiet_world: "content w = content (world s) \<Longrightarrow> quiet (s\<lparr>world := w\<rparr>) t \<Longrightarrow> quiet s t"
  by (auto simp: quiet_def)

lemma runs_print_clog: "runs (print_clog x) s P = P () (s\<lparr>clog := clog s @ x\<rparr>)"
  by (simp add: print_clog_def runs_modify)

lemma runs_print_ssl_errors:
  fixes s :: "('c, 'w, 'z) ehst_scheme"
  assumes "bevs s h = Some b" and "length (ssl_pending (world s) (bevp b)) < n"
    and "\<And>t. quiet s t \<Longrightarrow> P () t"
  shows "runs (print_ssl_errors L S n h) s P"
  using assms
proof (induction n arbitrary: s)
  case (Suc n)
  show ?case
  proof (cases "ssl_pending (world s) (bevp b)")
    case Nil
    with Suc.prems(1) Suc.prems(3) [OF quiet_refl] no_ssl_error [OF Nil] show ?thesis
      by (simp add: get_openssl_error_def runs_andthen runs_ret runs_bev_get runs_lib)
  next
    case (Cons e es)
    from ssl_error [OF Cons] obtain w where w: "bufferevent_get_openssl_error L (bevp b) (world s) = (e, w)"
      "e \<noteq> 0" "ssl_pending w (bevp b) = es" "content w = content (world s)" by blast
    have "runs (print_ssl_errors L S n h) (s\<lparr>world := w\<rparr>) P"
      by (rule Suc.IH) (use Suc.prems Cons w in \<open>auto dest: quiet_world [OF w(4)]\<close>)
    moreover have "runs (print_ssl_errors L S n h) (s\<lparr>world := w, clog := l\<rparr>) P" for l
      by (rule Suc.IH) (use Suc.prems Cons w in \<open>auto dest!: quiet_print quiet_world [OF w(4)]\<close>)
    ultimately show ?thesis
      using Suc.prems(1) w(1,2)
      by (simp add: get_openssl_error_def runs_andthen runs_gets runs_ret runs_bev_get runs_lib runs_print_clog)
  qed
qed simp

lemma runs_possibly_print_error:
  assumes "bevs s h = Some b" and "\<And>t. quiet s t \<Longrightarrow> P () t"
  shows "runs (possibly_print_error L S fuel what h) s P"
proof -
  have "runs (print_ssl_errors L S fuel h) (s\<lparr>clog := l\<rparr>) P" for l
    by (rule runs_print_ssl_errors) (use assms ssl_bounded in \<open>auto dest: quiet_print\<close>)
  moreover have "runs (print_ssl_errors L S fuel h) s P"
    by (rule runs_print_ssl_errors) (use assms ssl_bounded in auto)
  ultimately show ?thesis
    by (auto simp: possibly_print_error_def Let_def runs_andthen runs_gets runs_ret runs_print_clog)
qed

end

lemma runs_scoped: "runs (scoped m d) s P = runs m s (\<lambda>x t. P x (snd (d t)))"
  by (auto simp: runs_def scoped_def split: prod.splits outcome.splits)

text \<open>
  Any client.  The lemmas follow the closures up to the call of the client; what that call does is
  their hypothesis.
\<close>

locale eh_calls =
  transfer_api L content arrive flush ssl_pending fuel +
  dispatching L content arrive flush run run_event unique
  for L :: "'w libevent" and content :: "'w \<Rightarrow> cptr \<Rightarrow> string"
    and arrive :: "cptr \<Rightarrow> string \<Rightarrow> 'w \<Rightarrow> 'w" and flush :: "cptr \<Rightarrow> 'w \<Rightarrow> 'w"
    and ssl_pending :: "'w \<Rightarrow> cptr \<Rightarrow> nat list" and fuel :: nat
    and run :: "'c \<Rightarrow> ('c, 'w, 'z, unit) eh_prog" and run_event :: "'c \<Rightarrow> u16 \<Rightarrow> ('c, 'w, 'z, unit) eh_prog"
    and unique :: "nat \<Rightarrow> ('c, 'w, 'z) ehst_scheme \<Rightarrow> bool" +
  fixes clo :: "'k eh_clo \<Rightarrow> 'c" and S :: "'w sys" and client :: "('k, 'c, 'w, 'z) eh_client"
  assumes run_clo: "run (clo c) = run_eh_clo L client c"
    and run_event_clo: "run_event (clo c) = run_eh_event L clo S client fuel c"
begin

text \<open>What the automaton sees of a state.\<close>

definition matches ::
  "nat \<Rightarrow> cptr \<Rightarrow> 'k \<Rightarrow> nat option \<Rightarrow> bool \<Rightarrow> xf \<Rightarrow> ('c, 'w, 'z) ehst_scheme \<Rightarrow> bool" where
  "matches h p k out echo a s \<longleftrightarrow>
     eh_callbacks h p (xphase_cbs clo h k out echo (xf_phase a)) s \<and> inbuf p s = xf_in a \<and> outbuf p s = xf_out a \<and>
     (\<forall>x. out = Some x \<longrightarrow> strings s x = xf_str a)"

lemma runs_sendrecv_read:
  assumes "bevs s h = Some b" and "bevp b = p" and "p \<noteq> nullptr"
    and "\<And>t. eh_callbacks h p cbs t = eh_callbacks h p cbs s \<Longrightarrow> bevs t = bevs s \<Longrightarrow>
      same_rest s t \<Longrightarrow> inbuf p t = '''' \<Longrightarrow>
      outbuf p t = outbuf p s @ (if out = None \<and> echo then inbuf p s else '''') \<Longrightarrow>
      strings t = (case out of None \<Rightarrow> strings s | Some x \<Rightarrow> (strings s)(x := strings s x @ inbuf p s)) \<Longrightarrow>
      P () t"
  shows "runs (sendrecv_read L h echo out) s P"
proof -
  obtain e w where new: "evbuffer_new L (world s) = (e, w)" "e \<noteq> nullptr" "content w = (content (world s))(e := '''')"
    "e \<noteq> bufferevent_get_input L p" "e \<noteq> bufferevent_get_output L p"
    using buf_new [of "world s"] assms(3) by blast
  obtain v where v: "bufferevent_read_buffer L p e w = (0, v)"
    "content v = (content w)(e := content w e @ content w (bufferevent_get_input L p), bufferevent_get_input L p := '''')"
    using bev_read_buffer [OF new(4), of w] by blast
  define buf where "buf = \<lparr>buf_ptr = e, buf_owned = True\<rparr>"
  have io: "bufferevent_get_input L p \<noteq> bufferevent_get_output L p"
    using input_not_output [OF assms(3) assms(3)] .
  have c: "content v e = inbuf p s" "content v (bufferevent_get_input L p) = ''''"
    "content v (bufferevent_get_output L p) = outbuf p s"
    using new v(2) io by auto
  have fin: "P () (snd (Evbuffer_deleter L buf (s\<lparr>world := u, strings := ss\<rparr>)))"
    if "content u (bufferevent_get_input L p) = ''''"
      "content u (bufferevent_get_output L p) = outbuf p s @ (if out = None \<and> echo then inbuf p s else '''')"
      "ss = (case out of None \<Rightarrow> strings s | Some x \<Rightarrow> (strings s)(x := strings s x @ inbuf p s))" for u ss
  proof -
    have "Evbuffer_deleter L buf (s\<lparr>world := u, strings := ss\<rparr>) =
        (Return (), s\<lparr>world := evbuffer_free L e u, strings := ss\<rparr>)"
      using new(2) by (simp add: Evbuffer_deleter_def buf_def prog_simps)
    moreover have "P () (s\<lparr>world := evbuffer_free L e u, strings := ss\<rparr>)"
      by (rule assms(4)) (use that new(4,5) buf_free [of _ e] in \<open>simp_all add: eh_callbacks_def\<close>)
    ultimately show ?thesis by simp
  qed
  have "runs (if out \<noteq> None then andthen (Evbuffer_get_length L buf)
        (\<lambda>n. andthen (Evbuffer_remove L n buf) (append_output out))
      else if echo then write_buffer L buf h else ret ()) (s\<lparr>world := v\<rparr>)
    (\<lambda>x t. P x (snd (Evbuffer_deleter L buf t)))"
  proof (cases out)
    case (Some x)
    show ?thesis
      unfolding Some by (simp add: runs_andthen, rule runs_get_length, rule runs_remove,
        simp add: append_output_def runs_modify)
        (use fin [of _ "(strings s)(x := strings s x @ inbuf p s)"] c new(4,5) Some in \<open>simp add: buf_def\<close>)
  next
    case None
    obtain u where u: "bufferevent_write_buffer L p e v = (0, u)" "content u = (content v)
        (bufferevent_get_output L p := content v (bufferevent_get_output L p) @ content v e, e := '''')"
      using bev_write_buffer [OF new(5), of v] by blast
    show ?thesis
      using fin [of u "strings s"] fin [of v "strings s"] c new(4,5) io None u assms(1,2)
      by (auto simp: runs_ret write_buffer_def runs_bev_lib_check runs_lib_check buf_def)
  qed
  then show ?thesis
    using assms(1,2) new v
    by (simp add: sendrecv_read_def Evbuffer_create_def Evbuffer_assign_def runs_andthen runs_lib runs_ret
        runs_scoped read_buffer_def runs_bev_lib_check runs_lib_check buf_def [symmetric] split del: if_split)
      (simp add: buf_def)
qed

text \<open>The callback of the transfer is called when its callbacks have been cleared.\<close>

lemma runs_clear_and_call:
  assumes "eh_callbacks h p cbs s"
    and "\<And>t. eh_callbacks h p (None, None, None) t \<Longrightarrow> same_rest s t \<Longrightarrow> world t = world s \<Longrightarrow>
      strings t = strings s \<Longrightarrow> runs (client k NoArg) t P"
  shows "runs (clear_and_call client h k) s P"
proof -
  from assms(1) obtain b where "bevs s h = Some b" "varp b" "bevp b = p" "p \<noteq> nullptr"
    by (auto simp: eh_callbacks_def)
  then show ?thesis
    by (simp add: clear_and_call_def runs_andthen runs_setcb, intro assms(2))
      (auto simp: eh_callbacks_def)
qed

lemma quiet_facts:
  "quiet s t \<Longrightarrow> eh_callbacks h p cbs t = eh_callbacks h p cbs s \<and> bevs t = bevs s \<and>
     content (world t) = content (world s) \<and> strings t = strings s \<and> same_rest s t"
  by (auto simp: quiet_def)

lemma runs_sendrecv_event:
  assumes "eh_callbacks h p cbs s" and "out \<noteq> None \<or> inbuf p s = ''''"
    and "\<And>t. inbuf p t = '''' \<Longrightarrow> outbuf p t = outbuf p s \<Longrightarrow>
      strings t = (case out of None \<Rightarrow> strings s | Some x \<Rightarrow> (strings s)(x := strings s x @ inbuf p s)) \<Longrightarrow>
      same_rest s t \<Longrightarrow>
      (if outbuf p s = '''' then eh_callbacks h p (None, None, None) t
       else eh_callbacks h p (xphase_cbs clo h k out echo Flushing) t) \<Longrightarrow>
      (if outbuf p s = '''' then runs (client k NoArg) t P else P () t)"
  shows "runs (sendrecv_event L clo S client fuel h k out what) s P"
proof -
  from assms(1) obtain b where b: "bevs s h = Some b" "varp b" "bevp b = p" "p \<noteq> nullptr"
    by (auto simp: eh_callbacks_def)
  let ?i = "\<lparr>buf_ptr = bufferevent_get_input L p, buf_owned = False\<rparr>"
  let ?ss = "case out of None \<Rightarrow> strings s | Some x \<Rightarrow> (strings s)(x := strings s x @ inbuf p s)"
  have io: "bufferevent_get_input L p \<noteq> bufferevent_get_output L p"
    using input_not_output [OF b(4) b(4)] .
  have rest: "runs (andthen (get_output L h)
      (\<lambda>o'. andthen (Evbuffer_get_length L o')
        (\<lambda>m. if 0 < m then setcb None (Some (clo (FlushWrite h k))) (Some (clo (FlushEvent h k))) h
           else clear_and_call client h k))) t P"
    if t: "bevs t = bevs s" "same_rest s t" "inbuf p t = ''''" "outbuf p t = outbuf p s" "strings t = ?ss" for t
  proof -
    have cbs: "eh_callbacks h p cbs t" using assms(1) t(1) by (simp add: eh_callbacks_def)
    have tb: "bevs t h = Some b" using t(1) b by simp
    have "runs (clear_and_call client h k) t P" if "outbuf p t = ''''"
    proof (rule runs_clear_and_call [OF cbs])
      fix u :: "('c, 'w, 'z) ehst_scheme"
      assume "eh_callbacks h p (None, None, None) u" "same_rest t u" "world u = world t" "strings u = strings t"
      with assms(3) [of u] t that show "runs (client k NoArg) u P" by simp
    qed
    moreover have "runs (setcb None (Some (clo (FlushWrite h k))) (Some (clo (FlushEvent h k))) h) t P" if out: "outbuf p t \<noteq> ''''"
    proof (subst runs_setcb [OF tb])
      let ?u = "t\<lparr>bevs := (bevs t)(h \<mapsto> b\<lparr>event_cb := Some (clo (FlushEvent h k)), read_cb := None,
        write_cb := Some (clo (FlushWrite h k))\<rparr>)\<rparr>"
      have "eh_callbacks h p (xphase_cbs clo h k out echo Flushing) ?u" using b by (simp add: eh_callbacks_def)
      with assms(3) [of ?u] t out show "P () ?u" by simp
    qed
    ultimately show ?thesis
      by (subst runs_andthen, intro runs_get_output [OF tb]) (auto simp: runs_andthen b intro!: runs_get_length)
  qed
  have "runs (andthen (get_input L h)
         (\<lambda>input. andthen (Evbuffer_get_length L input)
         (\<lambda>n. followed_by
            (if 0 < n then andthen (Evbuffer_get_length L input)
               (\<lambda>m. andthen (Evbuffer_remove L m input) (append_output out)) else ret ())
            (andthen (get_output L h)
              (\<lambda>o'. andthen (Evbuffer_get_length L o')
                (\<lambda>m. if 0 < m then setcb None (Some (clo (FlushWrite h k))) (Some (clo (FlushEvent h k))) h
                   else clear_and_call client h k)))))) t P" if q: "quiet s t" for t
  proof -
    note q' = quiet_facts [OF q]
    have tb: "bevs t h = Some b" using q' b by simp
    have "runs (if 0 < length (content (world t) (buf_ptr ?i)) then andthen (Evbuffer_get_length L ?i)
        (\<lambda>m. andthen (Evbuffer_remove L m ?i) (append_output out)) else ret ()) t
      (\<lambda>_ u. bevs u = bevs s \<and> same_rest s u \<and> inbuf p u = '''' \<and> outbuf p u = outbuf p s \<and> strings u = ?ss)"
    proof (cases "inbuf p s = ''''")
      case True
      with q' show ?thesis by (auto simp: runs_ret split: option.split)
    next
      case False
      with assms(2) obtain x where "out = Some x" by auto
      with False q' io show ?thesis
        by (simp add: runs_andthen, intro runs_get_length runs_remove)
          (simp add: append_output_def runs_modify)
    qed
    then have collected: "runs (if 0 < length (content (world t) (buf_ptr ?i)) then andthen (Evbuffer_get_length L ?i)
        (\<lambda>m. andthen (Evbuffer_remove L m ?i) (append_output out)) else ret ()) t
      (\<lambda>_ u. runs (andthen (get_output L h)
        (\<lambda>o'. andthen (Evbuffer_get_length L o')
          (\<lambda>m. if 0 < m then setcb None (Some (clo (FlushWrite h k))) (Some (clo (FlushEvent h k))) h
             else clear_and_call client h k))) u P)"
      by (rule runs_mono) (rule rest, simp_all)
    show ?thesis
      by (subst runs_andthen, rule runs_get_input [OF tb], use b in simp, unfold b(3), subst runs_andthen,
          rule runs_get_length, subst runs_andthen, rule collected)
  qed
  then show ?thesis
    unfolding sendrecv_event_def by (subst runs_andthen, intro runs_possibly_print_error [OF b(1)])
qed

lemma eh_callbacks_ignored: "ignored h s t \<Longrightarrow> eh_callbacks h p cbs t = eh_callbacks h p cbs s"
  and matches_ignored: "ignored h s t \<Longrightarrow> matches h p k out echo a t = matches h p k out echo a s"
  and more_ignored: "ignored h s t \<Longrightarrow> same_rest s t"
  by (auto simp: ignored_def matches_def split: option.splits)

lemma matches_cbs:
  assumes "matches h p k out echo a s"
  obtains b where "bevs s h = Some b" "varp b" "bevp b = p" "p \<noteq> nullptr"
    "(read_cb b, write_cb b, event_cb b) = xphase_cbs clo h k out echo (xf_phase a)"
  using assms by (auto simp: matches_def eh_callbacks_def)

text \<open>The step makes the call of the transfer.\<close>

definition to_call :: "xf \<Rightarrow> xf \<Rightarrow> bool" where
  "to_call a a' \<longleftrightarrow> xf_phase a \<noteq> Closed \<and> xf_phase a' = Closed"

text \<open>
  Each event takes the state as the automaton goes, up to the call of the client in the step that makes
  it.
\<close>

lemma runs_readable_then:
  assumes "matches h p k out echo a s"
    and step: "\<And>t. matches h p k out echo (xf_step (out \<noteq> None) echo (Readable x) a) t \<Longrightarrow>
      same_rest s t \<Longrightarrow> Q t"
    and stable: "\<And>t u. Q t \<Longrightarrow> ignored h t u \<Longrightarrow> Q u" "\<And>t. Q t \<Longrightarrow> bevs t h \<noteq> None"
  shows "runs (handle h (Readable x)) s (\<lambda>_. Q)"
proof -
  obtain b where b: "bevs s h = Some b" "varp b" "bevp b = p" "p \<noteq> nullptr"
    "(read_cb b, write_cb b, event_cb b) = xphase_cbs clo h k out echo (xf_phase a)"
    using matches_cbs [OF assms(1)] .
  let ?s = "s\<lparr>world := arrive p x (world s)\<rparr>" and ?a = "a\<lparr>xf_in := xf_in a @ x\<rparr>"
  have io: "bufferevent_get_input L p \<noteq> bufferevent_get_output L p"
    using input_not_output [OF b(4) b(4)] .
  have s: "matches h p k out echo ?a ?s"
    using assms(1) io by (auto simp: matches_def arrives split: option.splits)
  have "event_cb b \<noteq> None \<or> read_cb b = None" using b(5) by (cases "xf_phase a") auto
  moreover have "Q ?s" if "read_cb b = None"
    by (rule step) (use s b(5) that in \<open>cases "xf_phase a"; simp\<close>)+
  moreover have "runs (run c) ?s (\<lambda>_. Q)" if c: "read_cb b = Some c" for c
  proof -
    have a: "xf_phase a = Open" "c = clo (SendrecvRead h echo out)" using b(5) c by (cases "xf_phase a"; simp)+
    show ?thesis
      unfolding a run_clo run_eh_clo_def eh_clo.case
      by (rule runs_sendrecv_read [where p = p and b = b and cbs = "xphase_cbs clo h k out echo Open"])
        (use b s a in \<open>auto simp: matches_def arrives intro!: step split: option.splits\<close>)
  qed
  ultimately show ?thesis
    unfolding b(3) [symmetric] by (intro runs_readable [OF b(1,2) _ _ stable]) (simp_all split: option.split)
qed

lemma runs_writable_then:
  assumes "matches h p k out echo a s"
    and step: "\<And>t. matches h p k out echo (xf_step (out \<noteq> None) echo Writable a) t \<Longrightarrow> same_rest s t \<Longrightarrow>
      if xf_phase a = Flushing then runs (client k NoArg) t (\<lambda>_. Q) else Q t"
    and stable: "\<And>t u. Q t \<Longrightarrow> ignored h t u \<Longrightarrow> Q u" "\<And>t. Q t \<Longrightarrow> bevs t h \<noteq> None"
  shows "runs (handle h Writable) s (\<lambda>_. Q)"
proof -
  obtain b where b: "bevs s h = Some b" "varp b" "bevp b = p" "p \<noteq> nullptr"
    "(read_cb b, write_cb b, event_cb b) = xphase_cbs clo h k out echo (xf_phase a)"
    using matches_cbs [OF assms(1)] .
  let ?s = "s\<lparr>world := flush p (world s)\<rparr>" and ?a = "a\<lparr>xf_out := ''''\<rparr>"
  have io: "bufferevent_get_input L p \<noteq> bufferevent_get_output L p"
    using input_not_output [OF b(4) b(4)] .
  have s: "matches h p k out echo ?a ?s"
    using assms(1) io by (auto simp: matches_def flushes split: option.splits)
  have idle: "Q ?s" if "xf_phase a \<noteq> Flushing"
    using step [of ?s] s that by (cases "xf_phase a") (auto simp: matches_def)
  have "event_cb b \<noteq> None \<or> write_cb b = None" using b(5) by (cases "xf_phase a") auto
  moreover have "Q ?s" if "write_cb b = None" by (rule idle) (use that b(5) in auto)
  moreover have "runs (run c) ?s (\<lambda>_. Q)" if c: "write_cb b = Some c" for c
  proof (cases "xf_phase a = Flushing")
    case False
    with b(5) c have "c = clo SendrecvWrite" by (cases "xf_phase a") auto
    with idle [OF False] show ?thesis by (simp add: run_clo run_eh_clo_def runs_ret)
  next
    case True
    with b(5) c have "c = clo (FlushWrite h k)" by simp
    moreover have "runs (clear_and_call client h k) ?s (\<lambda>_. Q)"
    proof (rule runs_clear_and_call [where p = p and cbs = "xphase_cbs clo h k out echo Flushing"])
      show "eh_callbacks h p (xphase_cbs clo h k out echo Flushing) ?s" using s True by (simp add: matches_def)
      fix t :: "('c, 'w, 'z) ehst_scheme"
      assume "eh_callbacks h p (None, None, None) t" "same_rest ?s t" "world t = world ?s"
        "strings t = strings ?s"
      with step [of t] s True show "runs (client k NoArg) t (\<lambda>_. Q)" by (auto simp: matches_def)
    qed
    then have "runs (flush_write L client h k) ?s (\<lambda>_. Q)"
      using b by (auto simp: flush_write_def runs_andthen flushes intro!: runs_get_output runs_get_length)
    ultimately show ?thesis by (simp add: run_clo run_eh_clo_def)
  qed
  ultimately show ?thesis
    unfolding b(3) [symmetric] by (intro runs_writable [OF b(1,2) _ _ stable]) (simp_all split: option.split)
qed

lemma runs_event_then:
  assumes "matches h p k out echo a s" and "out \<noteq> None \<or> xf_drained a"
    and step: "\<And>t. matches h p k out echo (xf_step (out \<noteq> None) echo (Event what) a) t \<Longrightarrow> same_rest s t \<Longrightarrow>
      if to_call a (xf_step (out \<noteq> None) echo (Event what) a) then runs (client k NoArg) t (\<lambda>_. Q) else Q t"
    and stable: "\<And>t u. Q t \<Longrightarrow> ignored h t u \<Longrightarrow> Q u" "\<And>t. Q t \<Longrightarrow> bevs t h \<noteq> None"
  shows "runs (handle h (Event what)) s (\<lambda>_. Q)"
proof -
  obtain b where b: "bevs s h = Some b" "varp b" "bevp b = p" "p \<noteq> nullptr"
    "(read_cb b, write_cb b, event_cb b) = xphase_cbs clo h k out echo (xf_phase a)"
    using matches_cbs [OF assms(1)] .
  have "Q s" if "event_cb b = None"
  proof -
    have closed: "xf_phase a = Closed" using that b(5) by (cases "xf_phase a") auto
    then have "xf_step (out \<noteq> None) echo (Event what) a = a" by (cases a) simp
    then show ?thesis using step [of s] assms(1) closed by (simp add: to_call_def matches_def)
  qed
  moreover have "runs (run_event c what) s (\<lambda>_. Q)" if c: "event_cb b = Some c" for c
  proof (cases "xf_phase a")
    case Open
    have "runs (sendrecv_event L clo S client fuel h k out what) s (\<lambda>_. Q)"
    proof (rule runs_sendrecv_event [where p = p and cbs = "xphase_cbs clo h k out echo Open" and echo = echo])
      show "eh_callbacks h p (xphase_cbs clo h k out echo Open) s" and "out \<noteq> None \<or> inbuf p s = ''''"
        using assms(1,2) Open by (auto simp: matches_def xf_drained_def)
      fix t
      assume t: "inbuf p t = ''''" "outbuf p t = outbuf p s"
        "strings t = (case out of None \<Rightarrow> strings s | Some x \<Rightarrow> (strings s)(x := strings s x @ inbuf p s))"
        "same_rest s t"
        "if outbuf p s = '''' then eh_callbacks h p (None, None, None) t
         else eh_callbacks h p (xphase_cbs clo h k out echo Flushing) t"
      have "matches h p k out echo (xf_step (out \<noteq> None) echo (Event what) a) t"
        using t assms(1,2) Open by (auto simp: matches_def xf_drained_def split: option.splits)
      from step [OF this t(4)] show "if outbuf p s = '''' then runs (client k NoArg) t (\<lambda>_. Q) else Q t"
        using assms(1) Open by (auto simp: to_call_def matches_def)
    qed
    moreover have "c = clo (SendrecvEvent h k out)" using Open b(5) c by simp
    ultimately show ?thesis by (simp add: run_event_clo run_eh_event_def)
  next
    case Flushing
    have "runs (clear_and_call client h k) t (\<lambda>_. Q)" if q: "quiet s t" for t
    proof (rule runs_clear_and_call [where p = p and cbs = "xphase_cbs clo h k out echo Flushing"])
      note q' = quiet_facts [OF q]
      show "eh_callbacks h p (xphase_cbs clo h k out echo Flushing) t"
        using assms(1) Flushing q' by (simp add: matches_def)
      fix u :: "('c, 'w, 'z) ehst_scheme"
      assume "eh_callbacks h p (None, None, None) u" "same_rest t u" "world u = world t"
        "strings u = strings t"
      with step [of u] assms(1) Flushing q' show "runs (client k NoArg) u (\<lambda>_. Q)"
        by (auto simp: matches_def to_call_def)
    qed
    then have "runs (followed_by (possibly_print_error L S fuel what h) (clear_and_call client h k)) s (\<lambda>_. Q)"
      by (subst runs_andthen, intro runs_possibly_print_error [OF b(1)])
    moreover have "c = clo (FlushEvent h k)" using Flushing b(5) c by simp
    ultimately show ?thesis by (simp add: run_event_clo run_eh_event_def)
  next
    case Closed
    with b(5) c show ?thesis by simp
  qed
  ultimately show ?thesis by (intro runs_event [OF b(1,2) _ stable]) (simp split: option.split)
qed

lemma runs_handle_then:
  assumes "matches h p k out echo a s" and "out \<noteq> None \<or> xf_drained a"
    and step: "\<And>t. matches h p k out echo (xf_step (out \<noteq> None) echo e a) t \<Longrightarrow> same_rest s t \<Longrightarrow>
      if to_call a (xf_step (out \<noteq> None) echo e a) then runs (client k NoArg) t (\<lambda>_. Q) else Q t"
    and stable: "\<And>t u. Q t \<Longrightarrow> ignored h t u \<Longrightarrow> Q u" "\<And>t. Q t \<Longrightarrow> bevs t h \<noteq> None"
  shows "runs (handle h e) s (\<lambda>_. Q)"
proof (cases e)
  case (Readable x)
  show ?thesis
    unfolding Readable using step unfolding Readable
    by (intro runs_readable_then [OF assms(1) _ stable]) (auto simp: to_call_def split: if_splits)
next
  case Writable
  show ?thesis
    unfolding Writable using step unfolding Writable
    by (intro runs_writable_then [OF assms(1) _ stable]) (cases "xf_phase a"; auto simp: to_call_def)
next
  case (Event what)
  show ?thesis
    using step unfolding Event by (rule runs_event_then [OF assms(1,2) _ stable])
qed

lemma matches_bev: "matches h p k out echo a s \<Longrightarrow> bevs s h \<noteq> None"
  by (auto simp: matches_def eh_callbacks_def)

text \<open>Bytes come in and go out while the transfer is open.\<close>

lemma runs_transfers:
  assumes "matches h p k out echo a s" and "out \<noteq> None \<or> xf_drained a" and "xf_phase a = Open"
    and "\<forall>e \<in> set es. \<forall>what. e \<noteq> Event what"
  shows "runs (run_all (handle h) es) s (\<lambda>_ t. matches h p k out echo (xf_run (out \<noteq> None) echo es a) t \<and>
    same_rest s t)"
  using assms
proof (induction es arbitrary: a s)
  case Nil
  then show ?case by (simp add: runs_ret)
next
  case (Cons e es)
  let ?a = "xf_step (out \<noteq> None) echo e a"
  have open': "xf_phase ?a = Open" using Cons.prems(3,4) by (cases e) auto
  have "runs (handle h e) s (\<lambda>_ t. matches h p k out echo ?a t \<and> same_rest s t)"
    by (rule runs_handle_then [OF Cons.prems(1,2)])
      (use open' Cons.prems(3) in \<open>auto simp: to_call_def matches_ignored more_ignored dest: matches_bev simp del: not_None_eq\<close>)
  then show ?case
    unfolding run_all.simps runs_andthen
  proof (rule runs_mono)
    fix t
    assume "matches h p k out echo ?a t \<and> same_rest s t"
    then have t: "matches h p k out echo ?a t" "same_rest s t" by simp_all
    show "runs (run_all (handle h) es) t (\<lambda>_ t. matches h p k out echo (xf_run (out \<noteq> None) echo (e # es) a) t \<and>
        same_rest s t)"
      using Cons.IH [OF t(1) _ open'] Cons.prems(2,4) xf_step_drained [of a] t(2) by (auto elim: runs_mono)
  qed
qed

section \<open>Starting a transfer\<close>

lemma runs_sendrecv:
  assumes "bevs s h = Some b" and "varp b" and "bevp b = p" and "p \<noteq> nullptr"
    and "\<And>t. eh_callbacks h p (xphase_cbs clo h k out echo Open) t \<Longrightarrow>
      content (world t) = (content (world s))(bufferevent_get_output L p := outbuf p s @ request) \<Longrightarrow>
      strings t = strings s \<Longrightarrow> same_rest s t \<Longrightarrow> P () t"
  shows "runs (sendrecv L clo h request k out timeout echo) s P"
proof -
  define c where "c = (content (world s))(bufferevent_get_output L p := outbuf p s @ request)"
  have 3: "runs (followed_by (enable L (EV_READ L) h)
      (setcb (Some (clo (SendrecvRead h echo out))) (Some (clo SendrecvWrite)) (Some (clo (SendrecvEvent h k out))) h)) (s\<lparr>world := w\<rparr>) P"
    if "content w = c" for w
    by (subst runs_andthen, rule runs_enable) (use assms that in \<open>auto simp: runs_setcb eh_callbacks_def c_def\<close>)
  have 2: "runs (followed_by (if timeout \<noteq> None then set_timeouts L timeout timeout h else ret ())
      (followed_by (enable L (EV_READ L) h)
        (setcb (Some (clo (SendrecvRead h echo out))) (Some (clo SendrecvWrite)) (Some (clo (SendrecvEvent h k out))) h))) (s\<lparr>world := w\<rparr>) P"
    if "content w = c" for w
  proof (cases timeout)
    case None
    with 3 [OF that] show ?thesis by (simp add: andthen_ret)
  next
    case (Some tv)
    have "runs (set_timeouts L timeout timeout h) (s\<lparr>world := w\<rparr>) (\<lambda>_ t. runs (followed_by (enable L (EV_READ L) h)
        (setcb (Some (clo (SendrecvRead h echo out))) (Some (clo SendrecvWrite)) (Some (clo (SendrecvEvent h k out))) h)) t P)"
      by (rule runs_set_timeouts) (use assms(1) that 3 in auto)
    with Some show ?thesis by (simp add: runs_andthen [of "set_timeouts _ _ _ _"])
  qed
  show ?thesis
  proof (cases "request = ''''")
    case True
    then have "content (world s) = c" by (auto simp: c_def)
    from 2 [OF this] True show ?thesis by (simp add: sendrecv_def andthen_ret)
  next
    case False
    have "runs (bev_write L request h) s (\<lambda>_ t. runs (followed_by (if timeout \<noteq> None then set_timeouts L timeout timeout h else ret ())
      (followed_by (enable L (EV_READ L) h)
        (setcb (Some (clo (SendrecvRead h echo out))) (Some (clo SendrecvWrite)) (Some (clo (SendrecvEvent h k out))) h))) t P)"
      by (rule runs_write [OF assms(1)], rule 2) (simp add: assms(3) c_def)
    with False show ?thesis
      unfolding sendrecv_def by (simp add: runs_andthen [of "bev_write _ _ _"])
  qed
qed

section \<open>Connecting\<close>

lemma runs_break_soon:
  assumes "\<And>w. content w = content (world s) \<Longrightarrow> P () (s\<lparr>onces := (onces s)(next_once s \<mapsto> Once (clo (BreakLoop base))),
      next_once := Suc (next_once s), world := w\<rparr>)"
  shows "runs (break_soon L clo base) s P"
  unfolding break_soon_def by (rule runs_once) (use assms in simp)

lemma runs_connect:
  assumes "parse_sockaddr_port L endpoint sizeof_sockaddr_in = (err, sa, len)"
    and "\<And>t p. p \<noteq> nullptr \<Longrightarrow> ehst.more t = ehst.more s \<Longrightarrow> flags t = flags s \<Longrightarrow> strings t = strings s \<Longrightarrow>
      next_bev t = Suc (next_bev s) \<Longrightarrow> ssl_singleton t = ssl_singleton s \<Longrightarrow> inbuf p t = '''' \<Longrightarrow> outbuf p t = '''' \<Longrightarrow>
      eh_callbacks (next_bev s) p (None, None, if error_neq_int err 0 then None
        else Some (clo (ConnectEvent (next_bev s) callback base isconnected))) t \<Longrightarrow>
      (error_neq_int err 0 \<Longrightarrow> onces t = (onces s)(next_once s \<mapsto> Once (clo (BreakLoop base))) \<and>
        clog t = clog s @ ''Cannot parse sockaddr_port'' @ [CHR 0x0A]) \<Longrightarrow> P () t"
  shows "runs (connect L clo base endpoint callback isconnected) s P"
  unfolding connect_def
proof (subst runs_andthen, rule runs_socket_new)
  fix p w
  let ?h = "next_bev s"
  let ?s = "s\<lparr>bevs := (bevs s)(?h \<mapsto> new_bufev base p), next_bev := Suc ?h, world := w\<rparr>"
  assume p: "p \<noteq> nullptr" "content w = content (world s)" "inbuf p s = ''''" "outbuf p s = ''''"
  have h: "bevs (?s\<lparr>world := v\<rparr>) ?h = Some (new_bufev base p)" for v by simp
  show "runs (case parse_sockaddr_port L endpoint sizeof_sockaddr_in of (err, sa, len) \<Rightarrow>
          if error_neq_int err 0
          then followed_by (print_clog (''Cannot parse sockaddr_port'' @ [CHR 0x0A])) (break_soon L clo base)
          else followed_by (socket_connect L sa len ?h)
            (let timeo = \<lparr>tv_sec = 3, tv_usec = 3\<rparr>
             in followed_by (set_timeouts L (Some timeo) (Some timeo) ?h)
               (setcb None None (Some (clo (ConnectEvent ?h callback base isconnected))) ?h))) ?s P"
  proof (cases "error_neq_int err 0")
    case True
    with assms p show ?thesis
      by (auto simp: runs_andthen runs_print_clog eh_callbacks_def new_bufev_def intro!: runs_break_soon)
  next
    case False
    have "runs (setcb None None (Some (clo (ConnectEvent ?h callback base isconnected))) ?h) (?s\<lparr>world := v\<rparr>) P"
      if "content v = content w" for v
      by (subst runs_setcb [OF h], rule assms(2)) (use False p that in \<open>auto simp: eh_callbacks_def new_bufev_def\<close>)
    with False assms(1) show ?thesis
      by (auto simp: runs_andthen Let_def intro!: runs_socket_connect runs_set_timeouts)
  qed
qed

text \<open>
  The event of a connection, over TCP or TLS: the closure goes on with \<open>m\<close> when the connection is made,
  and otherwise clears itself and makes the loop end.
\<close>

lemma runs_made_or_failed:
  assumes "eh_callbacks h p (None, None, Some (clo c)) s"
    and c: "run_eh_event L clo S client fuel c what = (if what \<noteq> BEV_EVENT_CONNECTED L
      then followed_by (possibly_print_error L S fuel what h) (followed_by (setcb None None None h) (break_soon L clo base))
      else followed_by (set_flag isconnected) m)"
    and made: "what = BEV_EVENT_CONNECTED L \<Longrightarrow>
      runs m (case isconnected of None \<Rightarrow> s | Some i \<Rightarrow> s\<lparr>flags := (flags s)(i := True)\<rparr>) (\<lambda>_. Q)"
    and failed: "\<And>t. what \<noteq> BEV_EVENT_CONNECTED L \<Longrightarrow> eh_callbacks h p (None, None, None) t \<Longrightarrow>
      same_rest s t \<Longrightarrow> flags t = flags s \<Longrightarrow> next_once s < next_once t \<Longrightarrow>
      onces t (next_once s) = Some (Once (clo (BreakLoop base))) \<Longrightarrow> Q t"
    and stable: "\<And>t u. Q t \<Longrightarrow> ignored h t u \<Longrightarrow> Q u" "\<And>t. Q t \<Longrightarrow> bevs t h \<noteq> None"
  shows "runs (handle h (Event what)) s (\<lambda>_. Q)"
proof -
  from assms(1) obtain b where b: "bevs s h = Some b" "varp b" "bevp b = p" "p \<noteq> nullptr"
    "event_cb b = Some (clo c)"
    by (auto simp: eh_callbacks_def)
  have "runs (run_eh_event L clo S client fuel c what) s (\<lambda>_. Q)"
  proof (cases "what = BEV_EVENT_CONNECTED L")
    case True
    with made show ?thesis
      unfolding c by (cases isconnected) (simp_all add: runs_andthen set_flag_def runs_ret runs_modify)
  next
    case False
    have "runs (followed_by (setcb None None None h) (break_soon L clo base)) t (\<lambda>_. Q)" if q: "quiet s t" for t
    proof -
      have "bevs t h = Some b" "same_rest s t" "flags t = flags s" "next_once t = next_once s"
        using q b by (auto simp: quiet_def)
      with b False show ?thesis
        by (auto simp: runs_andthen runs_setcb eh_callbacks_def intro!: runs_break_soon failed)
    qed
    with False b show ?thesis
      unfolding c by simp (subst runs_andthen, rule runs_possibly_print_error, auto)
  qed
  then show ?thesis by (intro runs_event [OF b(1,2) _ stable]) (simp_all add: b(5) run_event_clo)
qed

section \<open>A null pointer\<close>

lemma event_null_output:
  assumes "eh_callbacks h p (xphase_cbs clo h k None echo Open) s" and "inbuf p s \<noteq> ''''"
  shows "\<exists>t. handle h (Event what) s = (Throw (UndefinedBehaviour ''null output''), t) \<and> ehst.more t = ehst.more s"
proof -
  from assms(1) obtain b where b: "bevs s h = Some b" "varp b" "bevp b = p" "p \<noteq> nullptr"
    "event_cb b = Some (clo (SendrecvEvent h k None))"
    by (auto simp: eh_callbacks_def)
  have "runs (possibly_print_error L S fuel what h) s (\<lambda>_ t. quiet s t)"
    by (rule runs_possibly_print_error [OF b(1)])
  then obtain t where t: "possibly_print_error L S fuel what h s = (Return (), t)" "quiet s t"
    by (auto simp: runs_iff)
  note q = quiet_facts [OF t(2)]
  let ?i = "\<lparr>buf_ptr = bufferevent_get_input L p, buf_owned = False\<rparr>"
  have "runs (Evbuffer_remove L (length (inbuf p s)) ?i) t (\<lambda>_ u. ehst.more u = ehst.more s)"
    by (rule runs_remove) (use q in simp)
  then obtain d u where u: "Evbuffer_remove L (length (inbuf p s)) ?i t = (Return d, u)" "ehst.more u = ehst.more s"
    by (auto simp: runs_iff)
  have "get_input L h t = (Return ?i, t)"
    using b q input_nonnull [OF b(4)] by (simp add: get_input_def Evbuffer_assign_def prog_simps)
  moreover have "Evbuffer_get_length L ?i t = (Return (length (inbuf p s)), t)"
    using q by (simp add: Evbuffer_get_length_def get_length prog_simps)
  ultimately have "sendrecv_event L clo S client fuel h k None what s = (Throw (UndefinedBehaviour ''null output''), u)"
    using t(1) u(1) assms(2) by (simp add: sendrecv_event_def andthen_run append_output_def raise_run)
  with b refs [OF b(1)] u(2) show ?thesis
    by (simp add: deliver_def mk_libevent_bev_event_def bev_callback_def andthen_run bev_get_run gets_run
        func_bool_def func_call_def run_event_clo run_eh_event_def)
qed

end

section \<open>A client that takes note\<close>

type_synonym 'k eh_call = "'k \<times> eh_arg"

locale eh_session = eh_calls L content arrive flush ssl_pending fuel run run_event unique clo S client
  for L :: "'w libevent" and content :: "'w \<Rightarrow> cptr \<Rightarrow> string"
    and arrive :: "cptr \<Rightarrow> string \<Rightarrow> 'w \<Rightarrow> 'w" and flush :: "cptr \<Rightarrow> 'w \<Rightarrow> 'w"
    and ssl_pending :: "'w \<Rightarrow> cptr \<Rightarrow> nat list" and fuel :: nat
    and run :: "'c \<Rightarrow> ('c, 'w, 'z, unit) eh_prog" and run_event :: "'c \<Rightarrow> u16 \<Rightarrow> ('c, 'w, 'z, unit) eh_prog"
    and unique :: "nat \<Rightarrow> ('c, 'w, 'z) ehst_scheme \<Rightarrow> bool"
    and clo :: "'k eh_clo \<Rightarrow> 'c" and S :: "'w sys" and client :: "('k, 'c, 'w, 'z) eh_client" +
  fixes log_of :: "'z \<Rightarrow> 'k eh_call list"
  assumes takes_note: "runs (client k a) s
      (\<lambda>_ t. content (world t) = content (world s) \<and> bevs t = bevs s \<and> strings t = strings s \<and>
         flags t = flags s \<and> log_of (ehst.more t) = log_of (ehst.more s) @ [(k, a)])"
begin

abbreviation log :: "('c, 'w, 'z) ehst_scheme \<Rightarrow> 'k eh_call list" where
  "log s \<equiv> log_of (ehst.more s)"

definition steps_to ::
  "nat \<Rightarrow> cptr \<Rightarrow> 'k \<Rightarrow> nat option \<Rightarrow> bool \<Rightarrow> xf \<Rightarrow> xf \<Rightarrow> ('c, 'w, 'z) ehst_scheme \<Rightarrow>
   ('c, 'w, 'z) ehst_scheme \<Rightarrow> bool" where
  "steps_to h p k out echo a a' s t \<longleftrightarrow> matches h p k out echo a' t \<and>
     log t = log s @ xf_calls k (xf_phase a) (xf_phase a')"

lemma steps_to_ignored: "steps_to h p k out echo a a' s t \<Longrightarrow> ignored h t u \<Longrightarrow> steps_to h p k out echo a a' s u"
  by (simp add: steps_to_def matches_ignored more_ignored)

lemma steps_to_matches: "steps_to h p k out echo a a' s t \<Longrightarrow> matches h p k out echo a' t"
  by (simp add: steps_to_def)

lemma matches_noted:
  "matches h p k out echo a s \<Longrightarrow> content (world t) = content (world s) \<Longrightarrow> bevs t = bevs s \<Longrightarrow> strings t = strings s \<Longrightarrow>
   matches h p k out echo a t"
  by (simp add: matches_def eh_callbacks_def)

lemma runs_steps_to:
  assumes "matches h p k out echo a s" and "out \<noteq> None \<or> xf_drained a"
  shows "runs (handle h e) s (\<lambda>_ t. steps_to h p k out echo a (xf_step (out \<noteq> None) echo e a) s t)"
proof (rule runs_handle_then [OF assms])
  let ?a = "xf_step (out \<noteq> None) echo e a"
  fix t
  assume t: "matches h p k out echo ?a t" "same_rest s t"
  have "runs (client k NoArg) t (\<lambda>_ u. matches h p k out echo ?a u \<and> log u = log s @ [(k, NoArg)])"
    by (rule runs_mono [OF takes_note], elim conjE, intro conjI, rule matches_noted [OF t(1)]) (use t(2) in simp_all)
  with t show "if to_call a ?a then runs (client k NoArg) t (\<lambda>_ t. steps_to h p k out echo a ?a s t)
      else steps_to h p k out echo a ?a s t"
    by (auto simp: steps_to_def xf_calls_def to_call_def elim: runs_mono)
qed (auto dest: steps_to_ignored steps_to_matches matches_bev)

lemma runs_events:
  assumes "matches h p k out echo a s" and "out \<noteq> None \<or> xf_drained a"
  shows "runs (run_all (handle h) es) s
    (\<lambda>_ t. steps_to h p k out echo a (xf_run (out \<noteq> None) echo es a) s t)"
  using assms
proof (induction es arbitrary: a s)
  case Nil
  then show ?case by (simp add: runs_ret steps_to_def xf_calls_def)
next
  case (Cons e es)
  let ?a = "xf_step (out \<noteq> None) echo e a"
  show ?case
    unfolding run_all.simps runs_andthen
  proof (rule runs_mono [OF runs_steps_to [OF Cons.prems]])
    fix y :: unit and t
    assume t: "steps_to h p k out echo a ?a s t"
    have "runs (run_all (handle h) es) t (\<lambda>_ u. steps_to h p k out echo ?a (xf_run (out \<noteq> None) echo es ?a) t u)"
      using steps_to_matches [OF t] Cons.prems(2) xf_step_drained by (intro Cons.IH) auto
    then show "runs (run_all (handle h) es) t (\<lambda>_ u. steps_to h p k out echo a (xf_run (out \<noteq> None) echo (e # es) a) s u)"
      by (rule runs_mono) (use t xf_calls_trans [of k a "out \<noteq> None" echo e es] in \<open>simp add: steps_to_def\<close>)
  qed
qed

text \<open>The state after a connection event: the client was called, or the loop is going to end.\<close>

definition connect_ended ::
  "nat \<Rightarrow> cptr \<Rightarrow> 'k \<Rightarrow> evbase \<Rightarrow> nat option \<Rightarrow> u16 \<Rightarrow> ('c, 'w, 'z) ehst_scheme \<Rightarrow>
   ('c, 'w, 'z) ehst_scheme \<Rightarrow> bool" where
  "connect_ended h p k base isconnected what s t \<longleftrightarrow>
     (if what = BEV_EVENT_CONNECTED L
      then log t = log s @ [(k, BevArg h)] \<and>
        flags t = (case isconnected of None \<Rightarrow> flags s | Some i \<Rightarrow> (flags s)(i := True))
      else log t = log s \<and> flags t = flags s \<and> eh_callbacks h p (None, None, None) t \<and>
        next_once s < next_once t \<and> onces t (next_once s) = Some (Once (clo (BreakLoop base))))"

lemma connect_ended_ignored:
  assumes "connect_ended h p k base isconnected what s t" and "ignored h t u"
  shows "connect_ended h p k base isconnected what s u"
proof -
  have "onces u (next_once s) = onces t (next_once s) \<and> next_once s < next_once u" if "next_once s < next_once t"
    using that assms(2) by (auto simp: ignored_def)
  moreover have "log u = log t" "flags u = flags t" using assms(2) by (auto simp: ignored_def)
  ultimately show ?thesis
    using assms(1) eh_callbacks_ignored [OF assms(2)] unfolding connect_ended_def by (auto split: if_splits)
qed

lemma runs_connect_event:
  assumes "eh_callbacks h p (None, None, Some (clo (ConnectEvent h (UserBev k) base isconnected))) s"
  shows "runs (handle h (Event what)) s
    (\<lambda>_ t. bevs t h \<noteq> None \<and> connect_ended h p k base isconnected what s t)"
proof (rule runs_made_or_failed [where m = "call_bev_fun L clo S client (UserBev k) h", OF assms])
  from assms obtain b where b: "bevs s h = Some b" by (auto simp: eh_callbacks_def)
  let ?t = "case isconnected of None \<Rightarrow> s | Some i \<Rightarrow> s\<lparr>flags := (flags s)(i := True)\<rparr>"
  assume what: "what = BEV_EVENT_CONNECTED L"
  have "bevs ?t = bevs s" "log ?t = log s"
    "flags ?t = (case isconnected of None \<Rightarrow> flags s | Some i \<Rightarrow> (flags s)(i := True))"
    by (simp_all split: option.split)
  with what b show "runs (call_bev_fun L clo S client (UserBev k) h) ?t
      (\<lambda>_ t. bevs t h \<noteq> None \<and> connect_ended h p k base isconnected what s t)"
    unfolding call_bev_fun_def bev_fun.case by (intro runs_mono [OF takes_note]) (simp add: connect_ended_def)
next
  fix t u
  assume "bevs t h \<noteq> None \<and> connect_ended h p k base isconnected what s t" "ignored h t u"
  then show "bevs u h \<noteq> None \<and> connect_ended h p k base isconnected what s u"
    using connect_ended_ignored [of h p k base isconnected what s t u] by (auto simp: ignored_def)
qed (auto simp: run_eh_event_def connect_ended_def eh_callbacks_def)

end

end
