(* ===== verification/Evhelpers_Props.thy ===== *)
theory Evhelpers_Props
  imports Evhelpers_Session
begin

text \<open>
  The properties of \<open>evhelpers.hpp\<close>: a transfer implements the automaton, collects everything that
  arrives and calls its callback once; a connection is reported or ends the loop; and where the code
  dereferences a null pointer.
\<close>

section \<open>A client and a world\<close>

definition log_eh_client :: "('k, 'c, 'w, 'k eh_call list) eh_client" where
  "log_eh_client k a = modify (ehst.more_update (\<lambda>calls. calls @ [(k, a)]))"

text \<open>The references to a bufferevent are in its own closures.\<close>

definition eh_unique :: "nat \<Rightarrow> ('c, 'w, 'z) ehst_scheme \<Rightarrow> bool" where
  "eh_unique h s = (case bevs s h of None \<Rightarrow> True | Some b \<Rightarrow> event_cb b = None)"

definition demo_sys :: "'w sys" where
  "demo_sys = \<lparr>SSLv23_client_ctx_new = (\<lambda>w. (1, w)), SSL_new = (\<lambda>_ w. (1, w)), ERR_error_string = (\<lambda>_. ''''),
     strerror_errno = (\<lambda>_. ''Success''), sys_socket = (\<lambda>w. (3, w)), sys_bind = (\<lambda>_ _ _ w. (0, w)),
     sys_listen = (\<lambda>_ _ w. (0, w)), sys_accept = (\<lambda>_ w. (4, w)), sys_close = (\<lambda>_ w. (0, w))\<rparr>"

lemma sim_transfer_api:
  assumes "0 < fuel"
  shows "transfer_api sim_libevent sim_content sim_arrive sim_flush (\<lambda>_ _. []) fuel"
proof unfold_locales
  fix w
  have "3 * sim_fresh w + 2 \<noteq> 3 * p" "3 * sim_fresh w + 2 \<noteq> 3 * p + 1" for p :: nat by presburger+
  then show "\<exists>b w'. evbuffer_new sim_libevent w = (b, w') \<and> b \<noteq> nullptr \<and>
      sim_content w' = (sim_content w)(b := '''') \<and>
      (\<forall>p. p \<noteq> nullptr \<longrightarrow> b \<noteq> bufferevent_get_input sim_libevent p \<and> b \<noteq> bufferevent_get_output sim_libevent p)"
    by (simp add: sim_libevent_def)
qed (use assms in \<open>auto simp: sim_libevent_def fun_upd_twist\<close>)

interpretation sim_transfer: transfer_api sim_libevent sim_content sim_arrive sim_flush "\<lambda>_ _. []" 1
  by (rule sim_transfer_api) simp

interpretation sim_eh: eh_session sim_libevent sim_content sim_arrive sim_flush "\<lambda>_ _. []" 1
  "run_eh_clo sim_libevent log_eh_client" "run_eh_event sim_libevent id demo_sys log_eh_client 1" eh_unique
  id demo_sys log_eh_client "\<lambda>calls. calls"
  by unfold_locales (auto simp: log_eh_client_def runs_modify eh_unique_def)

definition demo_eh :: "(nat eh_clo, simw, nat eh_call list) ehst_scheme" where
  "demo_eh =
     \<lparr>world = sim_empty,
      bevs = [0 \<mapsto> \<lparr>event_cb = None, read_cb = None, write_cb = None, bevp = 1,
        bev_base = \<lparr>base_ptr = 1, base_owned = True\<rparr>, varp = True\<rparr>],
      next_bev = 1, onces = Map.empty, next_once = 0,
      strings = (\<lambda>_. ''''), flags = (\<lambda>_. False), verbose = True, clog = '''', ssl_singleton = None, \<dots> = []\<rparr>"

lemma demo_eh_simps [simp]:
  "bevs demo_eh 0 = Some \<lparr>event_cb = None, read_cb = None, write_cb = None, bevp = 1,
     bev_base = \<lparr>base_ptr = 1, base_owned = True\<rparr>, varp = True\<rparr>"
  "sim_content (world demo_eh) b = ''''" "strings demo_eh a = ''''" "ehst.more demo_eh = []"
  by (simp_all add: demo_eh_def sim_empty_def sim_content_def sim_chain_def)

section \<open>Transfers\<close>

text \<open>
  C10: A transfer implements its automaton, for every sequence of events: what has been collected, what
  is still in the two buffers, and the call of the callback, made once, when the transfer closes.
\<close>

theorem transfer_refines:
  assumes "eh_session L content arrive flush ssl_pending fuel run run_event unique clo S client log_of"
    and "eh_callbacks h p (xphase_cbs clo h k out echo (xf_phase a)) s"
    and "content (world s) (bufferevent_get_input L p) = xf_in a"
    and "content (world s) (bufferevent_get_output L p) = xf_out a"
    and "out = Some x \<and> strings s x = xf_str a \<or> out = None \<and> xf_drained a"
  shows "runs (run_all (deliver L arrive flush unique run run_event h) es) s
    (\<lambda>_ t. let a' = xf_run (out \<noteq> None) echo es a in
       eh_callbacks h p (xphase_cbs clo h k out echo (xf_phase a')) t \<and>
       content (world t) (bufferevent_get_input L p) = xf_in a' \<and>
       content (world t) (bufferevent_get_output L p) = xf_out a' \<and>
       (case out of None \<Rightarrow> True | Some y \<Rightarrow> strings t y = xf_str a') \<and>
       log_of (ehst.more t) = log_of (ehst.more s) @ xf_calls k (xf_phase a) (xf_phase a'))"
proof -
  note calls = eh_session.axioms(1) [OF assms(1)]
  have "eh_calls.matches L content clo h p k out echo a s" and "out \<noteq> None \<or> xf_drained a"
    using assms(2-5) by (auto simp: eh_calls.matches_def [OF calls])
  from eh_session.runs_events [OF assms(1) this] show ?thesis
    by (rule runs_mono) (auto simp: eh_session.steps_to_def [OF assms(1)] eh_calls.matches_def [OF calls]
        Let_def split: option.split)
qed

text \<open>
  \<open>sendrecv\<close> with a string to collect in: the request is sent, and when the connection ends after
  any number of reads, the string has everything that arrived, in order, however it was cut, the
  callback has been called exactly once, and no closure is left.
\<close>

theorem sendrecv_collects:
  fixes s :: "('c, 'w, 'z) ehst_scheme"
  assumes "eh_session L content arrive flush ssl_pending fuel run run_event unique clo S client log_of"
    and "eh_callbacks h p cbs s" and "content (world s) (bufferevent_get_input L p) = ''''"
  shows "runs (followed_by (sendrecv L clo h request k (Some x) timeout echo)
      (run_all (deliver L arrive flush unique run run_event h)
        (Writable # map Readable pieces @ [Event what]))) s
    (\<lambda>_ t. strings t x = strings s x @ concat pieces \<and>
       log_of (ehst.more t) = log_of (ehst.more s) @ [(k, NoArg)] \<and>
       eh_callbacks h p (None, None, None) t)"
proof -
  obtain b where b: "bevs s h = Some b" "varp b" "bevp b = p" "p \<noteq> nullptr"
    using assms(2) by (auto simp: eh_callbacks_def)
  note calls = eh_session.axioms(1) [OF assms(1)]
  note api = eh_calls.axioms(1) [OF calls]
  have io: "bufferevent_get_input L p \<noteq> bufferevent_get_output L p"
    using bufferevent_api.input_not_output [OF event_env.axioms(1) [OF transfer_api.axioms(1) [OF api]] b(4) b(4)] .
  show ?thesis
    unfolding runs_andthen [of "sendrecv _ _ _ _ _ _ _ _"]
  proof (rule eh_calls.runs_sendrecv [OF calls b])
    fix t :: "('c, 'w, 'z) ehst_scheme"
    let ?a = "\<lparr>xf_phase = Open, xf_in = '''', xf_out = content (world t) (bufferevent_get_output L p),
      xf_str = strings t x\<rparr>"
    assume t: "eh_callbacks h p (xphase_cbs clo h k (Some x) echo Open) t"
      "content (world t) = (content (world s))(bufferevent_get_output L p :=
         content (world s) (bufferevent_get_output L p) @ request)"
      "strings t = strings s" "ehst.more t = ehst.more s \<and> next_bev t = next_bev s"
    have "eh_calls.matches L content clo h p k (Some x) echo ?a t"
      using t assms(3) io by (auto simp: eh_calls.matches_def [OF calls])
    note run = eh_session.runs_events [OF assms(1) this disjI1, where es = "Writable # map Readable pieces @ [Event what]"]
    show "runs (run_all (deliver L arrive flush unique run run_event h)
        (Writable # map Readable pieces @ [Event what])) t
      (\<lambda>_ t. strings t x = strings s x @ concat pieces \<and>
       log_of (ehst.more t) = log_of (ehst.more s) @ [(k, NoArg)] \<and> eh_callbacks h p (None, None, None) t)"
      by (rule runs_mono [OF run], simp)
        (use t in \<open>auto simp: eh_session.steps_to_def [OF assms(1)] eh_calls.matches_def [OF calls]
          xf_run_append xf_run_collects xf_calls_def split: if_splits\<close>)
  qed
qed

theorem sendrecv_collects_witness:
  "runs (followed_by (sendrecv sim_libevent id 0 ''GET /'' (7 :: nat) (Some 3) None False)
      (run_all (deliver sim_libevent sim_arrive sim_flush eh_unique (run_eh_clo sim_libevent log_eh_client)
          (run_eh_event sim_libevent id demo_sys log_eh_client 1) 0)
        (Writable # map Readable [''he'', ''llo''] @ [Event 16]))) demo_eh
    (\<lambda>_ t. strings t 3 = ''hello'' \<and> ehst.more t = [(7, NoArg)])"
proof -
  have "eh_callbacks 0 1 (None, None, None) demo_eh" by (simp add: eh_callbacks_def)
  note collects = sendrecv_collects [OF sim_eh.eh_session_axioms this,
      where x = 3 and k = 7 and pieces = "[''he'', ''llo'']" and what = 16 and request = "''GET /''"]
  show ?thesis by (rule runs_mono [OF collects]) simp_all
qed

theorem transfer_refines_witness:
  "runs (run_all (deliver sim_libevent sim_arrive sim_flush eh_unique (run_eh_clo sim_libevent log_eh_client)
        (run_eh_event sim_libevent id demo_sys log_eh_client 1) 0)
      [Readable ''ping'', Event 16, Writable])
    (demo_eh\<lparr>bevs := [0 \<mapsto> \<lparr>event_cb = Some (SendrecvEvent 0 (7 :: nat) None), read_cb = Some (SendrecvRead 0 True None),
       write_cb = Some SendrecvWrite, bevp = 1, bev_base = \<lparr>base_ptr = 1, base_owned = True\<rparr>, varp = True\<rparr>]\<rparr>)
    (\<lambda>_ t. ehst.more t = [(7, NoArg)])"
proof -
  let ?s = "demo_eh\<lparr>bevs := [0 \<mapsto> \<lparr>event_cb = Some (SendrecvEvent 0 (7 :: nat) None), read_cb = Some (SendrecvRead 0 True None),
       write_cb = Some SendrecvWrite, bevp = 1, bev_base = \<lparr>base_ptr = 1, base_owned = True\<rparr>, varp = True\<rparr>]\<rparr>"
  let ?a = "\<lparr>xf_phase = Open, xf_in = '''', xf_out = '''', xf_str = ''''\<rparr>"
  have cbs: "eh_callbacks 0 1 (xphase_cbs id 0 7 None True (xf_phase ?a)) ?s" by (simp add: eh_callbacks_def)
  note refines = transfer_refines [OF sim_eh.eh_session_axioms this,
      where es = "[Readable ''ping'', Event 16, Writable]"]
  show ?thesis
    by (rule runs_mono [OF refines]) (simp_all add: xf_drained_def xf_calls_def)
qed

text \<open>
  C34: \<open>sendrecv\<close> without a string to collect in: when the connection ends while bytes are left in the
  input buffer, the code dereferences the null pointer, and the callback is not called.
\<close>

theorem null_output_dereferenced:
  assumes "eh_session L content arrive flush ssl_pending fuel run run_event unique clo S client log_of"
    and "eh_callbacks h p (xphase_cbs clo h k None echo Open) s"
    and "content (world s) (bufferevent_get_input L p) \<noteq> ''''"
  shows "\<exists>t. deliver L arrive flush unique run run_event h (Event what) s =
      (Throw (UndefinedBehaviour ''null output''), t) \<and> log_of (ehst.more t) = log_of (ehst.more s)"
  using eh_calls.event_null_output [OF eh_session.axioms(1) [OF assms(1)] assms(2,3)] by metis

theorem null_output_dereferenced_witness:
  "\<exists>t. deliver sim_libevent sim_arrive sim_flush eh_unique (run_eh_clo sim_libevent log_eh_client)
      (run_eh_event sim_libevent id demo_sys log_eh_client 1) 0 (Event 16)
      (demo_eh\<lparr>world := sim_arrive 1 ''rest'' sim_empty,
        bevs := [0 \<mapsto> \<lparr>event_cb = Some (SendrecvEvent 0 (7 :: nat) None), read_cb = Some (SendrecvRead 0 True None),
          write_cb = Some SendrecvWrite, bevp = 1, bev_base = \<lparr>base_ptr = 1, base_owned = True\<rparr>, varp = True\<rparr>]\<rparr>) =
      (Throw (UndefinedBehaviour ''null output''), t) \<and> ehst.more t = []"
proof -
  let ?s = "demo_eh\<lparr>world := sim_arrive 1 ''rest'' sim_empty,
        bevs := [0 \<mapsto> \<lparr>event_cb = Some (SendrecvEvent 0 (7 :: nat) None), read_cb = Some (SendrecvRead 0 True None),
          write_cb = Some SendrecvWrite, bevp = 1, bev_base = \<lparr>base_ptr = 1, base_owned = True\<rparr>, varp = True\<rparr>]\<rparr>"
  have cbs: "eh_callbacks 0 1 (xphase_cbs id 0 7 None True Open) ?s" by (simp add: eh_callbacks_def)
  have "sim_content (world ?s) (bufferevent_get_input sim_libevent 1) \<noteq> ''''"
    by (simp add: sim_arrive_def)
  from null_output_dereferenced [OF sim_eh.eh_session_axioms cbs this, where what = 16] show ?thesis by simp
qed

section \<open>Connections\<close>

text \<open>
  C26: \<open>connect\<close> to an endpoint that parses, and the event that follows: when the connection is made,
  \<open>isconnected\<close> is set and the callback is called once, with the new bufferevent; on any other
  event the callback is not called, no closure is left, and a timer is set that ends the loop.
\<close>

theorem connect_outcome:
  fixes s :: "('c, 'w, 'z) ehst_scheme"
  assumes "eh_session L content arrive flush ssl_pending fuel run run_event unique clo S client log_of"
    and "parse_sockaddr_port L endpoint sizeof_sockaddr_in = (NoError, sa, len)"
  shows "runs (connect L clo base endpoint (UserBev k) isconnected) s
    (\<lambda>_ t. log_of (ehst.more t) = log_of (ehst.more s) \<and>
      runs (deliver L arrive flush unique run run_event (next_bev s) (Event what)) t
        (\<lambda>_ u. if what = BEV_EVENT_CONNECTED L
           then log_of (ehst.more u) = log_of (ehst.more s) @ [(k, BevArg (next_bev s))] \<and>
             flags u = (case isconnected of None \<Rightarrow> flags s | Some i \<Rightarrow> (flags s)(i := True))
           else log_of (ehst.more u) = log_of (ehst.more s) \<and> flags u = flags s \<and>
             (\<exists>p. eh_callbacks (next_bev s) p (None, None, None) u) \<and>
             onces u (next_once t) = Some (Once (clo (BreakLoop base)))))"
proof (rule eh_calls.runs_connect [OF eh_session.axioms(1) [OF assms(1)] assms(2)])
  fix t :: "('c, 'w, 'z) ehst_scheme" and p
  assume t: "ehst.more t = ehst.more s" "flags t = flags s"
    "eh_callbacks (next_bev s) p (None, None, if error_neq_int NoError 0 then None
       else Some (clo (ConnectEvent (next_bev s) (UserBev k) base isconnected))) t"
  then have "eh_callbacks (next_bev s) p (None, None, Some (clo (ConnectEvent (next_bev s) (UserBev k) base isconnected))) t"
    by (simp add: error_neq_int_def NoError_def declared_error_defs)
  note event = eh_session.runs_connect_event [OF assms(1) this, where what = what,
      unfolded eh_session.connect_ended_def [OF assms(1)]]
  show "log_of (ehst.more t) = log_of (ehst.more s) \<and>
      runs (deliver L arrive flush unique run run_event (next_bev s) (Event what)) t
        (\<lambda>_ u. if what = BEV_EVENT_CONNECTED L
           then log_of (ehst.more u) = log_of (ehst.more s) @ [(k, BevArg (next_bev s))] \<and>
             flags u = (case isconnected of None \<Rightarrow> flags s | Some i \<Rightarrow> (flags s)(i := True))
           else log_of (ehst.more u) = log_of (ehst.more s) \<and> flags u = flags s \<and>
             (\<exists>p. eh_callbacks (next_bev s) p (None, None, None) u) \<and>
             onces u (next_once t) = Some (Once (clo (BreakLoop base))))"
    using t(1) by (simp, intro runs_mono [OF event]) (auto simp: t split: if_splits option.split)
qed

theorem connect_outcome_witness:
  "runs (connect sim_libevent id \<lparr>base_ptr = 1, base_owned = True\<rparr> ''127.0.0.1:80'' (UserBev (7 :: nat)) (Some 2)) demo_eh
    (\<lambda>_ t. runs (deliver sim_libevent sim_arrive sim_flush eh_unique (run_eh_clo sim_libevent log_eh_client)
        (run_eh_event sim_libevent id demo_sys log_eh_client 1) 1 (Event 128)) t
      (\<lambda>_ u. ehst.more u = [(7, BevArg 1)] \<and> flags u 2))"
proof -
  have "parse_sockaddr_port sim_libevent ''127.0.0.1:80'' sizeof_sockaddr_in = (NoError, ''127.0.0.1:80'', 16)"
    by (simp add: parse_sockaddr_port_def sim_libevent_def c_str_def sizeof_sockaddr_in_def)
  note outcome = connect_outcome [OF sim_eh.eh_session_axioms this, where k = 7 and isconnected = "Some 2" and what = 128
      and s = demo_eh and base = "\<lparr>base_ptr = 1, base_owned = True\<rparr>"]
  have "next_bev demo_eh = 1" and "BEV_EVENT_CONNECTED sim_libevent = 128"
    by (simp_all add: demo_eh_def sim_libevent_def)
  then show ?thesis
    by (intro runs_mono [OF outcome]) (auto elim!: runs_mono)
qed

end
