(* ===== verification/Listening.thy ===== *)
theory Listening
  imports Evhelpers
begin

text \<open>
  \<open>listen_once_and_dispatch\<close>: a server that accepts one connection.  The calls of POSIX and of libevent
  that make it listen succeed and leave alone what is observed of the world, \<open>obs\<close>.
\<close>

locale listening =
  fixes L :: "'w libevent" and S :: "'w sys" and obs :: "'w \<Rightarrow> 'o"
  assumes socket: "\<exists>fd w'. sys_socket S w = (fd, w') \<and> 0 \<le> fd \<and> obs w' = obs w"
    and bind: "\<exists>w'. sys_bind S fd sa len w = (0, w') \<and> obs w' = obs w"
    and listens: "\<exists>w'. sys_listen S fd n w = (0, w') \<and> obs w' = obs w"
    and accept: "\<exists>fd' w'. sys_accept S fd w = (fd', w') \<and> 0 \<le> fd' \<and> obs w' = obs w"
    and closes: "\<exists>rc w'. sys_close S fd w = (rc, w') \<and> obs w' = obs w"
    and nonblocking: "\<exists>w'. evutil_make_socket_nonblocking L fd w = (0, w') \<and> obs w' = obs w"
    and reuseable: "\<exists>w'. evutil_make_listen_socket_reuseable L fd w = (0, w') \<and> obs w' = obs w"
    and loop_made: "\<exists>p w'. event_base_new L w = (p, w') \<and> p \<noteq> nullptr \<and> obs w' = obs w"
    and timer_set: "\<exists>w'. event_base_once L base fd what cbp tv w = (0, w') \<and> obs w' = obs w"
begin

lemma runs_socket:
    "(\<And>fd w. 0 \<le> fd \<Longrightarrow> obs w = obs (world s) \<Longrightarrow> P fd (s\<lparr>world := w\<rparr>)) \<Longrightarrow> runs (lib (sys_socket S)) s P"
  and runs_bind:
    "(\<And>w. obs w = obs (world s) \<Longrightarrow> P 0 (s\<lparr>world := w\<rparr>)) \<Longrightarrow> runs (lib (sys_bind S fd sa len)) s P"
  and runs_listen:
    "(\<And>w. obs w = obs (world s) \<Longrightarrow> P 0 (s\<lparr>world := w\<rparr>)) \<Longrightarrow> runs (lib (sys_listen S fd n)) s P"
  and runs_close:
    "(\<And>rc w. obs w = obs (world s) \<Longrightarrow> P rc (s\<lparr>world := w\<rparr>)) \<Longrightarrow> runs (lib (sys_close S fd)) s P"
  and runs_nonblocking:
    "(\<And>w. obs w = obs (world s) \<Longrightarrow> Q () (s\<lparr>world := w\<rparr>)) \<Longrightarrow> runs (make_socket_nonblocking L fd) s Q"
  and runs_reuseable:
    "(\<And>w. obs w = obs (world s) \<Longrightarrow> Q () (s\<lparr>world := w\<rparr>)) \<Longrightarrow> runs (make_listen_socket_reuseable L fd) s Q"
  using socket [of "world s"] bind [of fd sa len "world s"] listens [of fd n "world s"]
    closes [of fd "world s"] nonblocking [of fd "world s"] reuseable [of fd "world s"]
  by (auto simp: runs_lib runs_lib_check make_socket_nonblocking_def make_listen_socket_reuseable_def)

lemma runs_loop_made:
  assumes "\<And>p w. obs w = obs (world s) \<Longrightarrow> P \<lparr>base_ptr = p, base_owned = True\<rparr> (s\<lparr>world := w\<rparr>)"
  shows "runs (EventBase_create L) s P"
  using loop_made [of "world s"] assms
  by (auto simp: EventBase_create_def EventBase_assign_def runs_andthen runs_lib runs_ret)

lemma runs_timer_set:
  assumes "\<And>w. obs w = obs (world s) \<Longrightarrow>
    P () (s\<lparr>onces := (onces s)(next_once s \<mapsto> cb), next_once := Suc (next_once s), world := w\<rparr>)"
  shows "runs (EventBase_once L base sock what cb timeo) s P"
  using timer_set [of "base_ptr base" sock what "next_once s" timeo "world s"] assms
  by (auto simp: EventBase_once_def alloc_once_def prog_simps)

text \<open>The server listens, and the loop starts.\<close>

lemma runs_listens:
  assumes "parse_sockaddr_port L ''0.0.0.0:54321'' sizeof_sockaddr_in = (NoError, sa, len)"
    and "\<And>base sock w. obs w = obs (world s) \<Longrightarrow>
      runs (dispatch base) (s\<lparr>onces := (onces s)(next_once s \<mapsto> Once (clo (AcceptOnce base k sock))),
        next_once := Suc (next_once s), world := w\<rparr>) (\<lambda>_ t. \<forall>w. obs w = obs (world t) \<longrightarrow> P () (t\<lparr>world := w\<rparr>))"
  shows "runs (listen_once_and_dispatch L clo S dispatch k) s P"
proof -
  have ok: "\<not> error_neq_int NoError 0"
    by (simp add: error_neq_int_def NoError_def declared_error_defs)
  show ?thesis
    unfolding listen_once_and_dispatch_def assms(1) prod.case
  proof (subst runs_andthen, rule runs_socket, goal_cases)
    case (1 sock w)
    then have sock: "\<not> sock < 0" by simp
    show ?case
      unfolding if_not_P [OF sock] if_not_P [OF ok]
    proof (subst runs_andthen, rule runs_reuseable, subst runs_andthen, rule runs_bind, goal_cases)
      case (1 w2 w3)
      show ?case
      proof (simp, subst runs_andthen, rule runs_listen, simp, subst runs_andthen, rule runs_nonblocking,
          subst runs_andthen, rule runs_loop_made, subst runs_andthen, rule runs_timer_set, subst runs_andthen, goal_cases)
        case (1 w4 w5 b w6 w7)
        note c = 1 \<open>obs w3 = _\<close> \<open>obs w2 = _\<close> \<open>obs w = _\<close>
        have "obs w7 = obs (world s)" using c by simp
        note run = assms(2) [OF this, of "\<lparr>base_ptr = b, base_owned = True\<rparr>" sock]
        show ?case
          by simp (rule runs_mono [OF run], subst runs_andthen, rule runs_close, simp add: runs_ret)
      qed
    qed
  qed
qed

text \<open>It accepts a connection.\<close>

lemma runs_accept_once:
  assumes "\<And>conn w w'. sys_accept S sock (world s) = (conn, w') \<Longrightarrow> obs w = obs (world s) \<Longrightarrow>
    runs (client k (ConnArg base conn)) (s\<lparr>world := w\<rparr>) P"
  shows "runs (accept_once L S client base k sock) s P"
proof -
  obtain conn w where c: "sys_accept S sock (world s) = (conn, w)" "0 \<le> conn" "obs w = obs (world s)"
    using accept by blast
  have "runs (followed_by (make_socket_nonblocking L conn) (client k (ConnArg base conn))) (s\<lparr>world := w\<rparr>) P"
  proof (subst runs_andthen, rule runs_nonblocking)
    fix v
    assume "obs v = obs (world (s\<lparr>world := w\<rparr>))"
    with assms [OF c(1), of v] c(3) show "runs (client k (ConnArg base conn)) (s\<lparr>world := w, world := v\<rparr>) P" by simp
  qed
  with c show ?thesis by (simp add: accept_once_def runs_andthen runs_lib)
qed

end

end
