(* ===== verification/Echo.thy ===== *)
theory Echo
  imports Listening
begin

text \<open>
  \<open>example/common/evhelpers-event-echo.cpp\<close>: an echo server on the events of a socket, which
  \<open>listen_once_and_dispatch\<close> accepts.  Reading, writing and closing the socket are parameters.
\<close>

section \<open>The program\<close>

record 'w socket_io =
  io_read :: "int \<Rightarrow> nat \<Rightarrow> 'w \<Rightarrow> (int \<times> string) \<times> 'w"
  io_write :: "int \<Rightarrow> string \<Rightarrow> 'w \<Rightarrow> int \<times> 'w"
  io_close :: "int \<Rightarrow> 'w \<Rightarrow> int \<times> 'w"

record echo_context =
  buffered :: string
  have_seen_eof :: bool
  echo_timeout :: timeval

text \<open>
  The callback given to \<open>listen_once_and_dispatch\<close>, and the closures given to \<open>once\<close>: that of the program,
  in which a \<open>Var<Context>\<close> is an address, and that of \<open>evhelpers\<close>.
\<close>

datatype echo_cb = EchoConnection

datatype echo_clo = HandleIo evbase int nat | Listener "echo_cb eh_clo"

record 'w echo_st = "(echo_clo, 'w) ehst" +
  contexts :: "nat \<Rightarrow> echo_context"
  next_context :: nat

type_synonym ('w, 'z, 'a) echo_prog = "(('w, 'z) echo_st_scheme, exn, 'a) prog"

definition new_context :: "('w, 'z, nat) echo_prog" where
  "new_context = andthen (gets next_context)
     (\<lambda>c. followed_by (modify (\<lambda>s. s\<lparr>contexts := (contexts s)
          (c := \<lparr>buffered = '''', have_seen_eof = False, echo_timeout = \<lparr>tv_sec = 7, tv_usec = 7\<rparr>\<rparr>),
          next_context := Suc c\<rparr>))
        (ret c))"

definition put_context :: "nat \<Rightarrow> (echo_context \<Rightarrow> echo_context) \<Rightarrow> ('w, 'z, unit) echo_prog" where
  "put_context ctx f = modify (\<lambda>s. s\<lparr>contexts := (contexts s)(ctx := f (contexts s ctx))\<rparr>)"

text \<open>
  The reading and the writing part of the loop body; the result says whether the body goes on or
  breaks.  \<open>std::string(buff, count)\<close> is the first \<open>count\<close> bytes of the buffer.
\<close>

definition echo_read :: "'w libevent \<Rightarrow> 'w socket_io \<Rightarrow> int \<Rightarrow> nat \<Rightarrow> u16 \<Rightarrow> ('w, 'z, bool) echo_prog" where
  "echo_read L io conn ctx what =
     (if what AND EV_READ L \<noteq> 0
      then andthen (lib (io_read io conn 1024))
        (\<lambda>(count, buff). if count < 0 then ret False
           else followed_by (put_context ctx (\<lambda>c. c\<lparr>have_seen_eof := (count = 0)\<rparr>))
             (followed_by (put_context ctx (\<lambda>c. c\<lparr>buffered := buffered c @ take (nat count) buff\<rparr>))
               (ret True)))
      else ret True)"

definition echo_write :: "'w libevent \<Rightarrow> 'w socket_io \<Rightarrow> int \<Rightarrow> nat \<Rightarrow> u16 \<Rightarrow> ('w, 'z, bool) echo_prog" where
  "echo_write L io conn ctx what =
     (if what AND EV_WRITE L \<noteq> 0
      then andthen (gets (\<lambda>s. buffered (contexts s ctx)))
        (\<lambda>data. andthen (lib (io_write io conn data))
        (\<lambda>count. if count < 0 then ret False
           else andthen (substr data (nat count))
             (\<lambda>rest. followed_by (put_context ctx (\<lambda>c. c\<lparr>buffered := rest\<rparr>)) (ret True))))
      else ret True)"

definition echo_body :: "'w libevent \<Rightarrow> 'w socket_io \<Rightarrow> int \<Rightarrow> nat \<Rightarrow> u16 \<Rightarrow> ('w, 'z, u16) echo_prog" where
  "echo_body L io conn ctx what =
     (if what AND EV_TIMEOUT L \<noteq> 0 then ret 0
      else andthen (echo_read L io conn ctx what)
        (\<lambda>go. if \<not> go then ret 0
         else andthen (gets (\<lambda>s. contexts s ctx))
           (\<lambda>c. let pending = (if length (buffered c) < 1048576 \<and> \<not> have_seen_eof c then EV_READ L else 0)
             in andthen (echo_write L io conn ctx what)
               (\<lambda>go. if \<not> go then ret pending
                else andthen (gets (\<lambda>s. contexts s ctx))
                  (\<lambda>c. ret (if 0 < length (buffered c) then pending OR EV_WRITE L else pending))))))"

definition handle_io ::
  "'w libevent \<Rightarrow> 'w socket_io \<Rightarrow> evbase \<Rightarrow> int \<Rightarrow> nat \<Rightarrow> u16 \<Rightarrow> ('w, 'z, unit) echo_prog" where
  "handle_io L io base conn ctx what =
     andthen (echo_body L io conn ctx what)
       (\<lambda>pending. if pending = 0 then andthen (lib (io_close io conn)) (\<lambda>_. ret ())
          else andthen (gets (\<lambda>s. echo_timeout (contexts s ctx)))
            (\<lambda>timeout. EventBase_once L base conn (pending OR EV_TIMEOUT L) (Once (HandleIo base conn ctx))
               (Some timeout)))"

text \<open>What the program does with an accepted connection.\<close>

definition echo_connection :: "'w libevent \<Rightarrow> 'w socket_io \<Rightarrow> evbase \<Rightarrow> int \<Rightarrow> ('w, 'z, unit) echo_prog" where
  "echo_connection L io base conn = andthen new_context (\<lambda>ctx. handle_io L io base conn ctx 0)"

definition echo_client :: "'w libevent \<Rightarrow> 'w socket_io \<Rightarrow> (echo_cb, echo_clo, 'w, 'z echo_st_ext) eh_client" where
  "echo_client L io k a = (case (k, a) of
      (EchoConnection, ConnArg base conn) \<Rightarrow> echo_connection L io base conn
    | _ \<Rightarrow> raise (UndefinedBehaviour ''closure called at another type''))"

definition run_echo ::
  "'w libevent \<Rightarrow> 'w sys \<Rightarrow> 'w socket_io \<Rightarrow> nat \<Rightarrow> echo_clo \<Rightarrow> u16 \<Rightarrow> ('w, 'z, unit) echo_prog" where
  "run_echo L S io fuel clo what = (case clo of
      HandleIo base conn ctx \<Rightarrow> handle_io L io base conn ctx what
    | Listener c \<Rightarrow> run_eh_event L Listener S (echo_client L io) fuel c what)"

definition event_echo_main ::
  "'w libevent \<Rightarrow> 'w sys \<Rightarrow> (evbase \<Rightarrow> ('w, 'z, int) echo_prog) \<Rightarrow> ('w, 'z, unit) echo_prog" where
  "event_echo_main L S dispatch = listen_once_and_dispatch L Listener S dispatch EchoConnection"

section \<open>The documented behaviour of sockets and events\<close>

text \<open>
  For one connection: \<open>received\<close> is what has been read from it, \<open>sent\<close> what has been written,
  \<open>armed\<close> the events \<open>once\<close> last waited for.
\<close>

locale echo_api =
  fixes L :: "'w libevent" and io :: "'w socket_io" and conn :: int
    and received :: "'w \<Rightarrow> string" and sent :: "'w \<Rightarrow> string" and armed :: "'w \<Rightarrow> u16"
  assumes read: "io_read io conn n w = ((count, buff), w') \<Longrightarrow> count \<le> int n \<and> count \<le> int (length buff) \<and>
        received w' = received w @ (if count < 0 then '''' else take (nat count) buff) \<and>
        sent w' = sent w \<and> armed w' = armed w"
    and "write": "io_write io conn x w = (count, w') \<Longrightarrow> count \<le> int (length x) \<and>
        sent w' = sent w @ (if count < 0 then '''' else take (nat count) x) \<and>
        received w' = received w \<and> armed w' = armed w"
    and close: "io_close io conn w = (rc, w') \<Longrightarrow>
        received w' = received w \<and> sent w' = sent w \<and> armed w' = armed w"
    and once: "event_base_once L base conn what cbp timeo w = (rc, w') \<Longrightarrow>
        rc = 0 \<and> received w' = received w \<and> sent w' = sent w \<and> armed w' = what"
    and bits: "distinct_bits [EV_TIMEOUT L, EV_READ L, EV_WRITE L]"
begin

lemma disjoint: "EV_READ L AND EV_WRITE L = 0" "EV_READ L AND EV_TIMEOUT L = 0" "EV_WRITE L AND EV_READ L = 0"
  "EV_TIMEOUT L AND EV_READ L = 0" "EV_READ L \<noteq> 0" "EV_WRITE L \<noteq> 0"
proof -
  from bits obtain i j k where ijk: "EV_TIMEOUT L = 2 ^ i" "EV_READ L = 2 ^ j" "EV_WRITE L = 2 ^ k"
    "distinct [i, j, k]" "i < 16" "j < 16" "k < 16"
    unfolding distinct_bits_def by (auto simp: Cons_eq_map_conv)
  then show "EV_READ L AND EV_WRITE L = 0" "EV_READ L AND EV_TIMEOUT L = 0" "EV_WRITE L AND EV_READ L = 0"
    "EV_TIMEOUT L AND EV_READ L = 0" "EV_READ L \<noteq> 0" "EV_WRITE L \<noteq> 0"
    by (simp_all add: pow2_and_pow2 pow2_nonzero)
qed

text \<open>
  What has been read is what has been sent and what is buffered; the buffer is bounded, because reading
  is only waited for when less than a mebibyte is buffered.
\<close>

definition faithful :: "nat \<Rightarrow> ('w, 'z) echo_st_scheme \<Rightarrow> bool" where
  "faithful ctx s \<longleftrightarrow> sent (world s) @ buffered (contexts s ctx) = received (world s)"

definition bounded :: "nat \<Rightarrow> ('w, 'z) echo_st_scheme \<Rightarrow> bool" where
  "bounded ctx s \<longleftrightarrow> length (buffered (contexts s ctx)) < 1048576 + 1024"

text \<open>What the body and the handler do to a state that is faithful.\<close>

definition same_timers :: "('w, 'z) echo_st_scheme \<Rightarrow> ('w, 'z) echo_st_scheme \<Rightarrow> bool" where
  "same_timers s t \<longleftrightarrow> onces t = onces s \<and> next_once t = next_once s \<and> armed (world t) = armed (world s)"

lemma runs_echo_read:
  assumes "faithful ctx s" and "bounded ctx s"
    and "what AND EV_READ L \<noteq> 0 \<Longrightarrow> length (buffered (contexts s ctx)) < 1048576"
  shows "runs (echo_read L io conn ctx what) s (\<lambda>_ t. faithful ctx t \<and> bounded ctx t \<and> same_timers s t)"
proof (cases "what AND EV_READ L = 0")
  case True
  with assms show ?thesis by (simp add: echo_read_def runs_ret same_timers_def)
next
  case False
  obtain count buff w where r: "io_read io conn 1024 (world s) = ((count, buff), w)"
    by (metis surj_pair)
  note rd = read [OF this]
  then have "count < 0 \<or> length (take (nat count) buff) \<le> 1024" by (auto simp: min_def)
  with False assms r rd show ?thesis
    by (auto simp: echo_read_def runs_andthen runs_lib runs_ret put_context_def runs_modify same_timers_def
        faithful_def bounded_def append_assoc [symmetric] simp del: append_assoc)
qed

lemma runs_echo_write:
  assumes "faithful ctx s" and "bounded ctx s"
  shows "runs (echo_write L io conn ctx what) s (\<lambda>_ t. faithful ctx t \<and> bounded ctx t \<and> same_timers s t \<and>
    length (buffered (contexts t ctx)) \<le> length (buffered (contexts s ctx)))"
proof (cases "what AND EV_WRITE L = 0")
  case True
  with assms show ?thesis by (simp add: echo_write_def runs_ret same_timers_def)
next
  case False
  obtain count w where r: "io_write io conn (buffered (contexts s ctx)) (world s) = (count, w)"
    by fastforce
  note wr = "write" [OF this]
  then have "count < 0 \<or> nat count \<le> length (buffered (contexts s ctx))" by linarith
  with False assms r wr show ?thesis
    by (auto simp: echo_write_def runs_andthen runs_gets runs_lib runs_ret put_context_def runs_modify same_timers_def
        faithful_def bounded_def substr_in_range)
qed

lemma runs_echo_body:
  fixes s :: "('w, 'z) echo_st_scheme"
  assumes "faithful ctx s" and "bounded ctx s"
    and "what AND EV_READ L \<noteq> 0 \<Longrightarrow> length (buffered (contexts s ctx)) < 1048576"
  shows "runs (echo_body L io conn ctx what) s (\<lambda>pending t. faithful ctx t \<and> bounded ctx t \<and> same_timers s t \<and>
    (pending AND EV_READ L \<noteq> 0 \<longrightarrow> length (buffered (contexts t ctx)) < 1048576))"
proof -
  define p where "p t = (if length (buffered (contexts t ctx)) < 1048576 \<and> \<not> have_seen_eof (contexts t ctx)
      then EV_READ L else 0)" for t :: "('w, 'z) echo_st_scheme"
  have p: "p t AND EV_READ L \<noteq> 0 \<Longrightarrow> length (buffered (contexts t ctx)) < 1048576"
    "(p t OR EV_WRITE L) AND EV_READ L = p t AND EV_READ L" for t
    using disjoint by (auto simp: p_def bit.conj_disj_distrib2 split: if_splits)
  have rest: "runs (andthen (echo_write L io conn ctx what)
      (\<lambda>go. if \<not> go then ret (p t)
         else andthen (gets (\<lambda>s. contexts s ctx))
           (\<lambda>c. ret (if 0 < length (buffered c) then p t OR EV_WRITE L else p t)))) t
      (\<lambda>pending u. faithful ctx u \<and> bounded ctx u \<and> same_timers s u \<and>
        (pending AND EV_READ L \<noteq> 0 \<longrightarrow> length (buffered (contexts u ctx)) < 1048576))"
    if "faithful ctx t" "bounded ctx t" "same_timers s t" for t :: "('w, 'z) echo_st_scheme"
    unfolding runs_andthen [of "echo_write L io conn ctx what"]
    by (rule runs_mono [OF runs_echo_write [OF that(1,2)]])
      (use that(3) p [of t] in \<open>auto simp: runs_andthen runs_gets runs_ret same_timers_def\<close>)
  show ?thesis
  proof (cases "what AND EV_TIMEOUT L = 0")
    case False
    with assms show ?thesis by (simp add: echo_body_def runs_ret same_timers_def)
  next
    case True
    show ?thesis
      unfolding echo_body_def Let_def
      by (simp only: True simp_thms if_False, subst runs_andthen, rule runs_mono [OF runs_echo_read [OF assms]], assumption)
        (elim conjE, rename_tac go t, case_tac go, simp_all only: simp_thms if_True if_False
          runs_ret runs_andthen [of "gets _"] runs_gets rest [unfolded p_def] bit.conj_zero_left)
  qed
qed

text \<open>What the program leaves to the event loop.\<close>

definition waiting :: "evbase \<Rightarrow> nat \<Rightarrow> ('w, 'z) echo_st_scheme \<Rightarrow> bool" where
  "waiting base ctx s \<longleftrightarrow> faithful ctx s \<and> bounded ctx s \<and>
     (\<forall>i. next_once s \<le> i \<longrightarrow> onces s i = None) \<and>
     (onces s = Map.empty \<or> (\<exists>i. onces s = [i \<mapsto> Once (HandleIo base conn ctx)]) \<and>
        (armed (world s) AND EV_READ L \<noteq> 0 \<longrightarrow> length (buffered (contexts s ctx)) < 1048576))"

lemma runs_handle_io:
  assumes "faithful ctx s" and "bounded ctx s" and "\<forall>i. next_once s \<le> i \<longrightarrow> onces s i = None"
    and "what AND EV_READ L \<noteq> 0 \<Longrightarrow> length (buffered (contexts s ctx)) < 1048576"
  shows "runs (handle_io L io base conn ctx what) s (\<lambda>_ t. faithful ctx t \<and> bounded ctx t \<and>
    (onces t = onces s \<and> next_once t = next_once s \<or>
     onces t = (onces s)(next_once s \<mapsto> Once (HandleIo base conn ctx)) \<and> next_once t = Suc (next_once s) \<and>
     (armed (world t) AND EV_READ L \<noteq> 0 \<longrightarrow> length (buffered (contexts t ctx)) < 1048576)))"
  unfolding handle_io_def runs_andthen [of "echo_body L io conn ctx what"]
proof (rule runs_mono [OF runs_echo_body [OF assms(1,2,4)]], assumption, elim conjE)
  fix pending t
  assume t: "faithful ctx t" "bounded ctx t" "same_timers s t"
    "pending AND EV_READ L \<noteq> 0 \<longrightarrow> length (buffered (contexts t ctx)) < 1048576"
  obtain rc w where c: "io_close io conn (world t) = (rc, w)" by fastforce
  have once': "\<exists>w'. event_base_once L (base_ptr base) conn (pending OR EV_TIMEOUT L) (next_once t)
      (Some (echo_timeout (contexts t ctx))) (world t) = (0, w') \<and> received w' = received (world t) \<and>
      sent w' = sent (world t) \<and> armed w' = pending OR EV_TIMEOUT L"
    using once [of "base_ptr base" "pending OR EV_TIMEOUT L" "next_once t"] by (metis surj_pair)
  have mask: "(pending OR EV_TIMEOUT L) AND EV_READ L = pending AND EV_READ L"
    using disjoint by (simp add: bit.conj_disj_distrib2)
  from once' obtain w' where w': "event_base_once L (base_ptr base) conn (pending OR EV_TIMEOUT L) (next_once t)
      (Some (echo_timeout (contexts t ctx))) (world t) = (0, w')" "received w' = received (world t)"
      "sent w' = sent (world t)" "armed w' = pending OR EV_TIMEOUT L" by blast
  show "runs (if pending = 0 then andthen (lib (io_close io conn)) (\<lambda>_. ret ())
          else andthen (gets (\<lambda>s. echo_timeout (contexts s ctx)))
            (\<lambda>timeout. EventBase_once L base conn (pending OR EV_TIMEOUT L) (Once (HandleIo base conn ctx))
               (Some timeout))) t
    (\<lambda>_ t. faithful ctx t \<and> bounded ctx t \<and>
    (onces t = onces s \<and> next_once t = next_once s \<or>
     onces t = (onces s)(next_once s \<mapsto> Once (HandleIo base conn ctx)) \<and> next_once t = Suc (next_once s) \<and>
     (armed (world t) AND EV_READ L \<noteq> 0 \<longrightarrow> length (buffered (contexts t ctx)) < 1048576)))"
  proof (cases "pending = 0")
    case True
    with t close [OF c] c show ?thesis
      by (auto simp: runs_andthen runs_lib runs_ret faithful_def bounded_def same_timers_def)
  next
    case False
    with t w' mask show ?thesis
      by (auto simp: runs_andthen runs_gets EventBase_once_def alloc_once_def runs_modify runs_ret runs_lib_check
          faithful_def bounded_def same_timers_def)
  qed
qed

end

end
