(* ===== verification/Echo_Props.thy ===== *)
theory Echo_Props
  imports Echo Events
begin

text \<open>
  The echo server over time: what the event loop can do to a connection, and what holds in every state.
\<close>

section \<open>The event loop\<close>

text \<open>\<open>Q\<close> holds in every state that steps lead to.\<close>

definition always :: "('s \<Rightarrow> 's \<Rightarrow> bool) \<Rightarrow> ('s \<Rightarrow> bool) \<Rightarrow> 's \<Rightarrow> bool" where
  "always step Q s \<longleftrightarrow> (\<forall>t. step\<^sup>*\<^sup>* s t \<longrightarrow> Q t)"

text \<open>A timer that is set fires, on events that were waited for; the network does something.\<close>

inductive echo_step ::
  "'w libevent \<Rightarrow> 'w sys \<Rightarrow> 'w socket_io \<Rightarrow> nat \<Rightarrow> (nat \<Rightarrow> ('w, 'z) echo_st_scheme \<Rightarrow> bool) \<Rightarrow> ('w \<Rightarrow> string) \<Rightarrow> ('w \<Rightarrow> string) \<Rightarrow>
   ('w \<Rightarrow> u16) \<Rightarrow> ('w, 'z) echo_st_scheme \<Rightarrow> ('w, 'z) echo_st_scheme \<Rightarrow> bool"
  for L S io fuel unique received sent armed where
  Fire: "onces s i \<noteq> None \<Longrightarrow>
    mk_libevent_event_cb L unique (run_echo L S io fuel) (what AND armed (world s)) i s = (Return (), t) \<Longrightarrow>
    echo_step L S io fuel unique received sent armed s t"
| Network: "received w = received (world s) \<Longrightarrow> sent w = sent (world s) \<Longrightarrow> armed w = armed (world s) \<Longrightarrow>
    echo_step L S io fuel unique received sent armed s (s\<lparr>world := w\<rparr>)"

inductive_cases echo_stepE: "echo_step L S io fuel unique received sent armed s t"

context echo_api
begin

lemma runs_fire:
  assumes "waiting base ctx s" and "onces s i \<noteq> None"
  shows "runs (mk_libevent_event_cb L unique (run_echo L S io fuel) (what AND armed (world s)) i) s
    (\<lambda>_ t. waiting base ctx t)"
proof -
  from assms have s: "faithful ctx s" "bounded ctx s" "\<forall>i. next_once s \<le> i \<longrightarrow> onces s i = None"
    and i: "onces s = [i \<mapsto> Once (HandleIo base conn ctx)]"
    and room: "armed (world s) AND EV_READ L \<noteq> 0 \<longrightarrow> length (buffered (contexts s ctx)) < 1048576"
    by (auto simp: waiting_def split: if_splits)
  have "i \<noteq> next_once s" using i s(3) by auto
  have "(what AND armed (world s)) AND EV_READ L \<noteq> 0 \<Longrightarrow> armed (world s) AND EV_READ L \<noteq> 0"
    by (metis and.assoc and_zero_eq)
  with room have room': "(what AND armed (world s)) AND EV_READ L \<noteq> 0 \<Longrightarrow> length (buffered (contexts s ctx)) < 1048576"
    by blast
  have upd: "(onces s)(i := None) = Map.empty"
    "((onces s)(j \<mapsto> c))(i := None) = [j \<mapsto> c]" if "i \<noteq> j" for j c
    using i that by (auto simp: fun_eq_iff)
  have "runs (handle_io L io base conn ctx (what AND armed (world s))) s
      (\<lambda>_ t. waiting base ctx (t\<lparr>onces := (onces t)(i := None)\<rparr>))"
    by (rule runs_mono [OF runs_handle_io [where base = base, OF s room']], assumption)
      (use \<open>i \<noteq> next_once s\<close> upd s(3) in \<open>auto simp: waiting_def faithful_def bounded_def\<close>)
  then show ?thesis
    using i by (simp add: mk_libevent_event_cb_def run_once_clo_def run_echo_def delete_once_def
        runs_andthen runs_gets runs_modify)
qed

lemma step_waiting:
  "echo_step L S io fuel unique received sent armed s t \<Longrightarrow> waiting base ctx s \<Longrightarrow> waiting base ctx t"
proof (erule echo_stepE, goal_cases)
  case (1 i what)
  with runs_fire [of base ctx s i unique S fuel what] show ?case by (auto simp: runs_def)
next
  case (2 w)
  then show ?case by (simp add: waiting_def faithful_def bounded_def)
qed

lemma reach_waiting:
  "(echo_step L S io fuel unique received sent armed)\<^sup>*\<^sup>* s t \<Longrightarrow> waiting base ctx s \<Longrightarrow> waiting base ctx t"
  by (induction rule: rtranclp_induct) (auto intro: step_waiting)

lemma runs_echo_connection:
  assumes "onces s = Map.empty" and "received (world s) = sent (world s)"
  shows "runs (echo_connection L io base conn) s (\<lambda>_ t. waiting base (next_context s) t)"
proof -
  let ?c = "next_context s"
  let ?s = "s\<lparr>contexts := (contexts s)(?c := \<lparr>buffered = '''', have_seen_eof = False,
      echo_timeout = \<lparr>tv_sec = 7, tv_usec = 7\<rparr>\<rparr>), next_context := Suc ?c\<rparr>"
  have "runs (handle_io L io base conn ?c 0) ?s (\<lambda>_ t. waiting base ?c t)"
    by (rule runs_mono [OF runs_handle_io [where base = base]])
      (use assms in \<open>auto simp: faithful_def bounded_def waiting_def\<close>)
  then show ?thesis
    by (simp add: echo_connection_def new_context_def runs_andthen runs_gets runs_modify runs_ret)
qed

end

section \<open>The server, from the start\<close>

text \<open>A server that accepts the connection \<open>conn\<close>.\<close>

locale echo_server =
  echo_api L io conn received sent armed +
  listening L S "\<lambda>w. (received w, sent w)"
  for L :: "'w libevent" and io :: "'w socket_io" and conn :: int
    and received :: "'w \<Rightarrow> string" and sent :: "'w \<Rightarrow> string" and armed :: "'w \<Rightarrow> u16" and S :: "'w sys" +
  assumes accepts_conn: "sys_accept S fd w = (c, w') \<Longrightarrow> c = conn"
begin

text \<open>No connection has been accepted yet.\<close>

definition listening_for :: "nat \<Rightarrow> ('w, 'z) echo_st_scheme \<Rightarrow> bool" where
  "listening_for ctx s \<longleftrightarrow> next_context s = ctx \<and> received (world s) = sent (world s) \<and>
     (\<forall>i. next_once s \<le> i \<longrightarrow> onces s i = None) \<and>
     (onces s = Map.empty \<or> (\<exists>i base sock. onces s = [i \<mapsto> Once (Listener (AcceptOnce base EchoConnection sock))]))"

definition serving :: "nat \<Rightarrow> ('w, 'z) echo_st_scheme \<Rightarrow> bool" where
  "serving ctx s \<longleftrightarrow> listening_for ctx s \<or> (\<exists>base. waiting base ctx s)"

lemma runs_accepts:
  fixes s :: "('w, 'z) echo_st_scheme"
  assumes "listening_for ctx s" and "onces s i \<noteq> None"
  shows "runs (mk_libevent_event_cb L unique (run_echo L S io fuel) what i) s (\<lambda>_ t. \<exists>base. waiting base ctx t)"
proof -
  from assms obtain base sock where i: "onces s = [i \<mapsto> Once (Listener (AcceptOnce base EchoConnection sock))]"
    and s: "next_context s = ctx" "received (world s) = sent (world s)" "\<forall>i. next_once s \<le> i \<longrightarrow> onces s i = None"
    by (auto simp: listening_for_def split: if_splits)
  have "i \<noteq> next_once s" using i s(3) by auto
  have upd: "(onces s)(i := None) = Map.empty" "((onces s)(j \<mapsto> c))(i := None) = [j \<mapsto> c]" if "i \<noteq> j" for j c
    using i that by (auto simp: fun_eq_iff)
  have serve: "runs (echo_connection L io base conn) (s\<lparr>world := w\<rparr>)
      (\<lambda>_ t. waiting base ctx (t\<lparr>onces := (onces t)(i := None)\<rparr>))"
    if w: "received w = received (world s)" "sent w = sent (world s)" for w
  proof -
    let ?s = "s\<lparr>world := w, contexts := (contexts s)(ctx := \<lparr>buffered = '''', have_seen_eof = False,
        echo_timeout = \<lparr>tv_sec = 7, tv_usec = 7\<rparr>\<rparr>), next_context := Suc ctx\<rparr>"
    have "runs (handle_io L io base conn ctx 0) ?s (\<lambda>_ t. waiting base ctx (t\<lparr>onces := (onces t)(i := None)\<rparr>))"
      by (rule runs_mono [OF runs_handle_io [where base = base]])
        (use \<open>i \<noteq> next_once s\<close> upd s w in \<open>auto simp: waiting_def faithful_def bounded_def\<close>)
    then show ?thesis
      using s(1) by (simp add: echo_connection_def new_context_def runs_andthen runs_gets runs_modify runs_ret)
  qed
  have "runs (accept_once L S (echo_client L io) base EchoConnection sock) s
      (\<lambda>_ t. waiting base ctx (t\<lparr>onces := (onces t)(i := None)\<rparr>))"
    by (rule runs_accept_once) (auto simp: echo_client_def dest: accepts_conn intro: serve)
  then show ?thesis
    using i by (simp add: mk_libevent_event_cb_def run_once_clo_def run_echo_def run_eh_event_def delete_once_def
        runs_andthen runs_gets runs_modify) (erule runs_mono, blast)
qed

lemma runs_serving_fire:
  assumes "serving ctx s" and "onces s i \<noteq> None"
  shows "runs (mk_libevent_event_cb L unique (run_echo L S io fuel) (what AND armed (world s)) i) s (\<lambda>_ t. serving ctx t)"
proof (cases "listening_for ctx s")
  case True
  show ?thesis by (rule runs_mono [OF runs_accepts [OF True assms(2)]]) (simp add: serving_def)
next
  case False
  with assms(1) obtain base where "waiting base ctx s" by (auto simp: serving_def)
  from runs_fire [OF this assms(2)] show ?thesis by (rule runs_mono) (auto simp: serving_def)
qed

lemma step_serving: "echo_step L S io fuel unique received sent armed s t \<Longrightarrow> serving ctx s \<Longrightarrow> serving ctx t"
proof (erule echo_stepE, goal_cases)
  case (1 i what)
  with runs_serving_fire [of ctx s i unique fuel what] show ?case by (auto simp: runs_def)
next
  case (2 w)
  then show ?case by (auto simp: serving_def listening_for_def waiting_def faithful_def bounded_def)
qed

lemma reach_serving:
  "(echo_step L S io fuel unique received sent armed)\<^sup>*\<^sup>* s t \<Longrightarrow> serving ctx s \<Longrightarrow> serving ctx t"
  by (induction rule: rtranclp_induct) (auto intro: step_serving)

text \<open>The bytes that are buffered: none, before there is a connection.\<close>

lemma serving_faithful:
  assumes "serving ctx s"
  shows "\<exists>x. (x = '''' \<or> x = buffered (contexts s ctx)) \<and> sent (world s) @ x = received (world s) \<and> length x < 1048576 + 1024"
  using assms by (auto simp: serving_def listening_for_def waiting_def faithful_def bounded_def)

lemma runs_event_echo_main:
  assumes "parse_sockaddr_port L ''0.0.0.0:54321'' sizeof_sockaddr_in = (NoError, sa, len)"
    and "onces s = Map.empty" and "received (world s) = sent (world s)"
    and "\<And>base t. serving (next_context s) t \<Longrightarrow> runs (dispatch base) t (\<lambda>_. Q)"
    and "\<And>t w. Q t \<Longrightarrow> received w = received (world t) \<Longrightarrow> sent w = sent (world t) \<Longrightarrow> Q (t\<lparr>world := w\<rparr>)"
  shows "runs (event_echo_main L S dispatch) s (\<lambda>_. Q)"
  unfolding event_echo_main_def
proof (rule runs_listens [OF assms(1)])
  fix base sock w
  assume w: "(received w, sent w) = (received (world s), sent (world s))"
  let ?s = "s\<lparr>onces := (onces s)(next_once s \<mapsto> Once (Listener (AcceptOnce base EchoConnection sock))),
      next_once := Suc (next_once s), world := w\<rparr>"
  have "serving (next_context s) ?s" using w assms(2,3) by (auto simp: serving_def listening_for_def)
  then have "runs (dispatch base) ?s (\<lambda>_. Q)" by (rule assms(4))
  then show "runs (dispatch base) ?s
      (\<lambda>_ t. \<forall>w. (received w, sent w) = (received (world t), sent (world t)) \<longrightarrow> Q (t\<lparr>world := w\<rparr>))"
    by (rule runs_mono) (use assms(5) in blast)
qed

end

section \<open>A world\<close>

text \<open>The pieces that will be read, what was read and written, and the events waited for.\<close>

record echo_world =
  ew_pieces :: "string list"
  ew_received :: string
  ew_sent :: string
  ew_armed :: u16

definition echo_libevent :: "echo_world libevent" where
  "echo_libevent =
     \<lparr>EV_TIMEOUT = 1, EV_READ = 2, EV_WRITE = 4,
      BEV_EVENT_READING = 1, BEV_EVENT_WRITING = 2, BEV_EVENT_EOF = 16, BEV_EVENT_ERROR = 32,
      BEV_EVENT_TIMEOUT = 64, BEV_EVENT_CONNECTED = 128,
      BEV_OPT_CLOSE_ON_FREE = 1, BUFFEREVENT_SSL_CONNECTING = 1, EVBUFFER_EOL_CRLF = 1,
      evutil_make_socket_nonblocking = (\<lambda>_ w. (0, w)),
      evutil_parse_sockaddr_port = (\<lambda>s n. (0, s, n)),
      evutil_make_listen_socket_reuseable = (\<lambda>_ w. (0, w)),
      event_base_new = (\<lambda>w. (1, w)), event_base_free = (\<lambda>_ w. w), event_base_dispatch = (\<lambda>_ w. (0, w)),
      event_base_loop = (\<lambda>_ _ w. (0, w)), event_base_loopbreak = (\<lambda>_ w. (0, w)),
      event_base_once = (\<lambda>_ _ what _ _ w. (0, w\<lparr>ew_armed := what\<rparr>)),
      evbuffer_new = (\<lambda>w. (0, w)), evbuffer_free = (\<lambda>_ w. w), evbuffer_get_length = (\<lambda>_ _. 0),
      evbuffer_drain = (\<lambda>_ _ w. (-1, w)), evbuffer_add = (\<lambda>_ _ w. (-1, w)),
      evbuffer_add_buffer = (\<lambda>_ _ w. (-1, w)), evbuffer_peek = (\<lambda>_ _ _ _ w. ((-1, []), w)),
      evbuffer_remove_buffer = (\<lambda>_ _ _ w. (-1, w)), evbuffer_search_eol = (\<lambda>_ _ _ w. ((-1, 0), w)),
      bufferevent_socket_new = (\<lambda>_ _ _ w. (0, w)), bufferevent_free = (\<lambda>_ w. w),
      bufferevent_setcb = (\<lambda>_ _ w. w), bufferevent_socket_connect = (\<lambda>_ _ _ w. (-1, w)),
      bufferevent_write = (\<lambda>_ _ w. (-1, w)), bufferevent_write_buffer = (\<lambda>_ _ w. (-1, w)),
      bufferevent_read = (\<lambda>_ _ w. ('''', w)), bufferevent_read_buffer = (\<lambda>_ _ w. (-1, w)),
      bufferevent_enable = (\<lambda>_ _ w. (-1, w)), bufferevent_disable = (\<lambda>_ _ w. (-1, w)),
      bufferevent_set_timeouts = (\<lambda>_ _ _ w. (-1, w)),
      bufferevent_openssl_filter_new = (\<lambda>_ _ _ _ _ w. (0, w)),
      bufferevent_get_openssl_error = (\<lambda>_ w. (0, w)),
      bufferevent_get_input = (\<lambda>p. p), bufferevent_get_output = (\<lambda>p. p)\<rparr>"

definition echo_io :: "echo_world socket_io" where
  "echo_io =
     \<lparr>io_read = (\<lambda>_ n w. case ew_pieces w of
          [] \<Rightarrow> ((0, ''''), w)
        | x # xs \<Rightarrow> ((int (length (take n x)), take n x),
            w\<lparr>ew_pieces := xs, ew_received := ew_received w @ take n x\<rparr>)),
      io_write = (\<lambda>_ x w. (int (length x), w\<lparr>ew_sent := ew_sent w @ x\<rparr>)),
      io_close = (\<lambda>_ w. (0, w))\<rparr>"

definition echo_sys :: "echo_world sys" where
  "echo_sys =
     \<lparr>SSLv23_client_ctx_new = (\<lambda>w. (0, w)), SSL_new = (\<lambda>_ w. (0, w)), ERR_error_string = (\<lambda>_. ''''),
      strerror_errno = (\<lambda>_. ''''), sys_socket = (\<lambda>w. (3, w)), sys_bind = (\<lambda>_ _ _ w. (0, w)), sys_listen = (\<lambda>_ _ w. (0, w)),
      sys_accept = (\<lambda>_ w. (4, w)), sys_close = (\<lambda>_ w. (0, w))\<rparr>"

interpretation sim_echo: echo_api echo_libevent echo_io conn ew_received ew_sent ew_armed for conn
proof unfold_locales
  show "distinct_bits [EV_TIMEOUT echo_libevent, EV_READ echo_libevent, EV_WRITE echo_libevent]"
    unfolding distinct_bits_def echo_libevent_def by (rule exI [of _ "[0, 1, 2]"]) simp
qed (auto simp: echo_libevent_def echo_io_def min_def split: list.splits if_splits)

interpretation sim_echo_server: echo_server echo_libevent echo_io 4 ew_received ew_sent ew_armed echo_sys
  by unfold_locales (auto simp: echo_libevent_def echo_sys_def)

section \<open>The properties\<close>

text \<open>
  In every state of the echo server, whatever the socket does: what was sent, followed by what is
  buffered, is what was received; no more than 1048576 + 1023 bytes are buffered; and the handler of
  an event that was waited for returns, it throws no exception.
\<close>

theorem echo_faithful:
  assumes "echo_api L io conn received sent armed"
    and "onces s = Map.empty" and "received (world s) = sent (world s)"
  shows "runs (echo_connection L io base conn) s (\<lambda>_ t.
    \<forall>u. (echo_step L S io fuel unique received sent armed)\<^sup>*\<^sup>* t u \<longrightarrow>
      sent (world u) @ buffered (contexts u (next_context s)) = received (world u) \<and>
      length (buffered (contexts u (next_context s))) < 1048576 + 1024 \<and>
      (\<forall>i what. onces u i = None \<or>
        runs (mk_libevent_event_cb L unique (run_echo L S io fuel) (what AND armed (world u)) i) u (\<lambda>_ _. True)))"
proof (rule runs_mono [OF echo_api.runs_echo_connection [OF assms]], intro allI impI)
  fix t u
  assume "echo_api.waiting L conn received sent armed base (next_context s) t"
    and "(echo_step L S io fuel unique received sent armed)\<^sup>*\<^sup>* t u"
  then have w: "echo_api.waiting L conn received sent armed base (next_context s) u"
    using echo_api.reach_waiting [OF assms(1)] by blast
  have "runs (mk_libevent_event_cb L unique (run_echo L S io fuel) (what AND armed (world u)) i) u (\<lambda>_ _. True)"
    if "onces u i \<noteq> None" for i what
    using echo_api.runs_fire [OF assms(1) w that] by (rule runs_mono) simp
  with w show "sent (world u) @ buffered (contexts u (next_context s)) = received (world u) \<and>
      length (buffered (contexts u (next_context s))) < 1048576 + 1024 \<and>
      (\<forall>i what. onces u i = None \<or>
        runs (mk_libevent_event_cb L unique (run_echo L S io fuel) (what AND armed (world u)) i) u (\<lambda>_ _. True))"
    by (auto simp: echo_api.waiting_def [OF assms(1)] echo_api.faithful_def [OF assms(1)]
        echo_api.bounded_def [OF assms(1)])
qed

definition demo_echo :: "echo_world echo_st" where
  "demo_echo = \<lparr>world = \<lparr>ew_pieces = [''ping'', ''pong''], ew_received = '''', ew_sent = '''', ew_armed = 0\<rparr>,
     bevs = Map.empty, next_bev = 0, onces = Map.empty, next_once = 0, strings = (\<lambda>_. ''''), flags = (\<lambda>_. False),
     verbose = False, clog = '''', ssl_singleton = None,
     contexts = (\<lambda>_. \<lparr>buffered = '''', have_seen_eof = False, echo_timeout = \<lparr>tv_sec = 0, tv_usec = 0\<rparr>\<rparr>),
     next_context = 0\<rparr>"

theorem echo_faithful_witness:
  "runs (echo_connection echo_libevent echo_io \<lparr>base_ptr = 1, base_owned = True\<rparr> 4) demo_echo
    (\<lambda>_ t. runs (mk_libevent_event_cb echo_libevent (\<lambda>_ _. False) (run_echo echo_libevent echo_sys echo_io 1)
       (2 AND ew_armed (world t)) 0) t (\<lambda>_ _. True) \<and> ew_armed (world t) = 3)"
proof -
  have "onces demo_echo = Map.empty" "ew_received (world demo_echo) = ew_sent (world demo_echo)"
    "next_context demo_echo = 0"
    by (simp_all add: demo_echo_def)
  note faithful = echo_faithful [OF sim_echo.echo_api_axioms this(1,2), where unique = "\<lambda>_ _. False"
      and base = "\<lparr>base_ptr = 1, base_owned = True\<rparr>" and conn = 4]
  have armed: "runs (echo_connection echo_libevent echo_io \<lparr>base_ptr = 1, base_owned = True\<rparr> 4) demo_echo
      (\<lambda>_ t. onces t 0 \<noteq> None \<and> ew_armed (world t) = 3)"
    by (simp add: echo_connection_def new_context_def handle_io_def echo_body_def echo_read_def echo_write_def
        EventBase_once_def alloc_once_def runs_lib_check runs_andthen runs_gets runs_modify runs_ret
        echo_libevent_def demo_echo_def Let_def)
  show ?thesis
    by (rule runs_mono [OF runs_conj [OF faithful armed]], elim conjE, drule spec, drule mp, rule rtranclp.rtrancl_refl,
        elim conjE, drule spec [of _ 0], drule spec [of _ 2], erule disjE, erule notE, assumption)
      (intro conjI)
qed

text \<open>
  What is promised of a state: what was sent, with the bytes that are buffered, is what was received; the
  buffer is bounded; every handler of an event that is waited for returns.
\<close>

definition echo_promise ::
  "'w libevent \<Rightarrow> 'w sys \<Rightarrow> 'w socket_io \<Rightarrow> nat \<Rightarrow> (nat \<Rightarrow> ('w, 'z) echo_st_scheme \<Rightarrow> bool) \<Rightarrow> ('w \<Rightarrow> string) \<Rightarrow>
   ('w \<Rightarrow> string) \<Rightarrow> ('w \<Rightarrow> u16) \<Rightarrow> nat \<Rightarrow> ('w, 'z) echo_st_scheme \<Rightarrow> bool" where
  "echo_promise L S io fuel unique received sent armed ctx u \<longleftrightarrow>
     (\<exists>x. (x = '''' \<or> x = buffered (contexts u ctx)) \<and> sent (world u) @ x = received (world u) \<and>
        length x < 1048576 + 1024) \<and>
     (\<forall>i what. onces u i = None \<or>
        runs (mk_libevent_event_cb L unique (run_echo L S io fuel) (what AND armed (world u)) i) u (\<lambda>_ _. True))"

text \<open>
  C15: The echo server, from \<open>main\<close> on.  It gets to its loop, and in every state the loop can reach from there,
  whatever the network does and in whatever order the events it waits for happen: what was sent,
  followed by what is buffered, is what was received; no more than 1048576 + 1023 bytes are buffered;
  and the handler of an event that was waited for, the first of which accepts the connection, returns.
\<close>

theorem event_echo_program:
  fixes s :: "('w, 'z) echo_st_scheme"
  assumes "echo_server L io conn received sent armed S"
    and "parse_sockaddr_port L ''0.0.0.0:54321'' sizeof_sockaddr_in = (NoError, sa, len)"
    and "onces s = Map.empty" and "received (world s) = sent (world s)"
  shows "runs (event_echo_main L S (\<lambda>_. followed_by
      (expects (always (echo_step L S io fuel unique received sent armed)
        (echo_promise L S io fuel unique received sent armed (next_context s))))
      (ret 1))) s (\<lambda>_ _. True)"
proof (rule echo_server.runs_event_echo_main [OF assms])
  fix base and t :: "('w, 'z) echo_st_scheme"
  let ?ctx = "next_context s" and ?step = "echo_step L S io fuel unique received sent armed"
  assume t: "echo_server.serving L conn received sent armed ?ctx t"
  have "echo_promise L S io fuel unique received sent armed ?ctx u" if "?step\<^sup>*\<^sup>* t u" for u
  proof -
    have u: "echo_server.serving L conn received sent armed ?ctx u"
      by (rule echo_server.reach_serving [OF assms(1) that t])
    have "runs (mk_libevent_event_cb L unique (run_echo L S io fuel) (what AND armed (world u)) i) u (\<lambda>_ _. True)"
      if "onces u i \<noteq> None" for i what
      by (rule runs_mono [OF echo_server.runs_serving_fire [OF assms(1) u that]]) simp
    with echo_server.serving_faithful [OF assms(1) u] show ?thesis unfolding echo_promise_def by blast
  qed
  then show "runs (followed_by
      (expects (always ?step (echo_promise L S io fuel unique received sent armed ?ctx))) (ret 1)) t (\<lambda>_ _. True)"
    by (simp add: runs_andthen runs_expects runs_ret always_def)
qed simp

theorem event_echo_program_witness:
  "runs (event_echo_main echo_libevent echo_sys (\<lambda>_. followed_by
      (expects (always (echo_step echo_libevent echo_sys echo_io 1 (\<lambda>_ _. False) ew_received ew_sent ew_armed)
        (echo_promise echo_libevent echo_sys echo_io 1 (\<lambda>_ _. False) ew_received ew_sent ew_armed 0)))
      (ret 1))) demo_echo (\<lambda>_ _. True)"
proof -
  have "onces demo_echo = Map.empty" "ew_received (world demo_echo) = ew_sent (world demo_echo)"
    and c: "next_context demo_echo = 0"
    by (simp_all add: demo_echo_def)
  moreover have "parse_sockaddr_port echo_libevent ''0.0.0.0:54321'' sizeof_sockaddr_in = (NoError, ''0.0.0.0:54321'', 16)"
    by (simp add: parse_sockaddr_port_def echo_libevent_def c_str_def sizeof_sockaddr_in_def)
  ultimately show ?thesis
    using event_echo_program [OF sim_echo_server.echo_server_axioms, where s = demo_echo and fuel = 1 and unique = "\<lambda>_ _. False"]
    unfolding c by blast
qed

end
