(* ===== verification/Stdout.thy ===== *)
theory Stdout
  imports Onion_Exchange
begin

text \<open>
  The standard output, which the programs under \<open>example/tor\<close> print to: a string in the state, after the
  fields of \<open>OnionCtrl\<close>.
\<close>

record ('k, 'w) main_st = "('k, 'w) ocst" +
  cout :: string

definition print :: "string \<Rightarrow> (('k, 'w, 'z) main_st_scheme, exn, unit) prog" where
  "print x = modify (\<lambda>s. s\<lparr>cout := cout s @ x\<rparr>)"

section \<open>Printing\<close>

lemma callbacks_print [simp]:
  fixes s :: "('k, 'w, 'z) main_st_scheme"
  shows "callbacks c h p r w e (s\<lparr>cout := x\<rparr>) = callbacks c h p r w e s"
    and "attached c h p (s\<lparr>cout := x\<rparr>) = attached c h p s"
  by (simp_all add: callbacks_def attached_def)

lemma runs_print: "runs (print x) s P = P () (s\<lparr>cout := cout s @ x\<rparr>)"
  by (simp add: print_def runs_modify)

lemma print_print: "followed_by (print x) (followed_by (print y) m) = followed_by (print (x @ y)) m"
  by (rule ext) (simp add: print_def andthen_run modify_run)

lemma print_last: "followed_by (print x) (print y) = print (x @ y)"
  by (rule ext) (simp add: print_def andthen_run modify_run)

lemma print_Nil: "followed_by (print '''') m = m"
  by (rule ext) (simp add: print_def andthen_run modify_run)

lemma run_all_print:
  "followed_by (run_all (\<lambda>s. print (s @ '' '')) xs) m = followed_by (print (concat (map (\<lambda>s. s @ '' '') xs))) m"
proof (induction xs)
  case Nil
  then show ?case by (simp add: andthen_ret print_Nil)
next
  case (Cons x xs)
  then show ?case by (simp add: andthen_assoc print_print)
qed

section \<open>What does not print\<close>

lemma cout_more:
  fixes s t :: "('k, 'w, 'z) main_st_scheme"
  shows "ocst.more t = ocst.more s \<Longrightarrow> cout t = cout s"
  by (cases s; cases t) simp

lemma cout_silent:
  fixes s :: "('k, 'w, 'z) main_st_scheme"
  shows "silent s t \<Longrightarrow> cout t = cout s"
  by (rule cout_more) (simp add: silent_def)

lemma cout_steady:
  fixes s :: "('k, 'w, 'z) main_st_scheme"
  shows "steady s t \<Longrightarrow> cout t = cout s"
  by (rule cout_more) (simp add: steady_def)

end
