(* ===== verification/Ctrl_Programs.thy ===== *)
theory Ctrl_Programs
  imports Stdout
begin

text \<open>
  The programs \<open>example/tor/onion-ctrl-*.cpp\<close>, which talk to a running tor over its control port, and
  the \<open>main\<close> they share, \<open>example/tor/onion-ctrl-main.hpp\<close>.  Each is a client of \<open>OnionCtrl\<close>: its
  lambda expressions are the constructors of \<open>app_cb\<close>, and what it prints is added to
  \<open>cout\<close>.
\<close>

section \<open>State\<close>

text \<open>The callback that \<open>main\<close> gives to \<open>run_main_loop\<close>, one for each program.\<close>

datatype ctrl_app =
    Authenticate
  | GetconfSocksPort
  | GetinfoBootstrapPhase
  | SeteventsClientStatus
  | SignalShutdown
  | ToggleDisableNetwork

datatype app_cb =
    MainDone ctrl_app nat
  | PortDone nat
  | PhaseDone nat
  | StatusEvent nat
  | ShutdownDone nat
  | DisabledDone nat
  | ToggleDone nat

type_synonym ('w, 'z, 'a) main_prog = "((app_cb, 'w, 'z) main_st_scheme, exn, 'a) prog"

definition status_line :: "onion_status \<Rightarrow> string" where
  "status_line status = ''status: '' @ show_int (onion_status_value status) @ newline"

text \<open>\<open>ctrl->evbase->loopbreak()\<close>\<close>

definition break_loop_of :: "'w libevent \<Rightarrow> nat \<Rightarrow> ('w, 'z, unit) main_prog" where
  "break_loop_of L c = andthen (ctrl_get c) (\<lambda>x. EventBase_loopbreak L (ctrl_evbase x))"

text \<open>Closing and leaving the loop: what the callbacks of most programs end with.\<close>

definition close_and_break :: "'w libevent \<Rightarrow> nat \<Rightarrow> ('w, 'z, unit) main_prog" where
  "close_and_break L c = followed_by (close c) (break_loop_of L c)"

section \<open>The programs\<close>

text \<open>What each program does when it is connected and authenticated, or when that has failed.\<close>

definition authenticate_main :: "'w libevent \<Rightarrow> onion_status \<Rightarrow> nat \<Rightarrow> ('w, 'z, unit) main_prog" where
  "authenticate_main L status c =
     followed_by (print (''result: '' @ show_int (onion_status_value status) @ newline))
       (followed_by (break_loop_of L c) (close c))"

definition getconf_socks_port_main :: "'w libevent \<Rightarrow> onion_status \<Rightarrow> nat \<Rightarrow> ('w, 'z, unit) main_prog" where
  "getconf_socks_port_main L status c =
     followed_by (print (status_line status))
       (if status \<noteq> OK then break_loop_of L c else getconf_socks_port L c (PortDone c))"

definition getinfo_bootstrap_phase_main ::
  "'w libevent \<Rightarrow> onion_status \<Rightarrow> nat \<Rightarrow> ('w, 'z, unit) main_prog" where
  "getinfo_bootstrap_phase_main L status c =
     followed_by (print (status_line status))
       (if status \<noteq> OK then break_loop_of L c
        else getinfo_status_bootstrap_phase_as_int L c (PhaseDone c))"

definition setevents_client_status_main ::
  "'w libevent \<Rightarrow> onion_status \<Rightarrow> nat \<Rightarrow> ('w, 'z, unit) main_prog" where
  "setevents_client_status_main L status c =
     followed_by (print (status_line status))
       (if status \<noteq> OK then break_loop_of L c else setevents_client_status L c (StatusEvent c))"

definition signal_shutdown_main :: "'w libevent \<Rightarrow> onion_status \<Rightarrow> nat \<Rightarrow> ('w, 'z, unit) main_prog" where
  "signal_shutdown_main L status c =
     followed_by (print (status_line status))
       (if status \<noteq> OK then break_loop_of L c else signal_shutdown L c (ShutdownDone c))"

definition toggle_disable_network_main ::
  "'w libevent \<Rightarrow> onion_status \<Rightarrow> nat \<Rightarrow> ('w, 'z, unit) main_prog" where
  "toggle_disable_network_main L status c =
     followed_by (print (status_line status))
       (if status \<noteq> OK then break_loop_of L c else getconf_disable_network L c (DisabledDone c))"

text \<open>What their other callbacks do.\<close>

definition port_done :: "'w libevent \<Rightarrow> onion_status \<Rightarrow> int \<Rightarrow> nat \<Rightarrow> ('w, 'z, unit) main_prog" where
  "port_done L status port c =
     followed_by (print (status_line status))
       (followed_by (print (''port: '' @ show_int port @ newline)) (close_and_break L c))"

definition phase_done :: "'w libevent \<Rightarrow> onion_status \<Rightarrow> int \<Rightarrow> nat \<Rightarrow> ('w, 'z, unit) main_prog" where
  "phase_done L status phase c =
     followed_by (print (status_line status))
       (followed_by (print (''phase: '' @ show_int phase @ newline)) (close_and_break L c))"

definition status_event ::
  "'w libevent \<Rightarrow> onion_status \<Rightarrow> string \<Rightarrow> string \<Rightarrow> string list \<Rightarrow> nat \<Rightarrow> ('w, 'z, unit) main_prog" where
  "status_event L status severity action others c =
     (if status \<noteq> OK \<and> status \<noteq> ASYNC
      then followed_by (print (status_line status)) (close_and_break L c)
      else if status = OK then ret ()
      else followed_by (print (severity @ '' '' @ action))
        (followed_by (run_all (\<lambda>s. print (s @ '' '')) others) (print newline)))"

definition shutdown_done :: "'w libevent \<Rightarrow> onion_status \<Rightarrow> nat \<Rightarrow> ('w, 'z, unit) main_prog" where
  "shutdown_done L status c = followed_by (print (status_line status)) (close_and_break L c)"

definition disabled_done :: "'w libevent \<Rightarrow> onion_status \<Rightarrow> int \<Rightarrow> nat \<Rightarrow> ('w, 'z, unit) main_prog" where
  "disabled_done L status is_disabled c =
     followed_by (print (status_line status))
       (setconf_disable_network L c (is_disabled = 0) (ToggleDone c))"

definition toggle_done :: "'w libevent \<Rightarrow> onion_status \<Rightarrow> nat \<Rightarrow> ('w, 'z, unit) main_prog" where
  "toggle_done L status c = followed_by (print (status_line status)) (close_and_break L c)"

definition app_client :: "'w libevent \<Rightarrow> (app_cb, 'w, 'z main_st_ext) oc_client" where
  "app_client L k r = (case (k, r) of
      (MainDone Authenticate c, VoidReply status) \<Rightarrow> authenticate_main L status c
    | (MainDone GetconfSocksPort c, VoidReply status) \<Rightarrow> getconf_socks_port_main L status c
    | (MainDone GetinfoBootstrapPhase c, VoidReply status) \<Rightarrow> getinfo_bootstrap_phase_main L status c
    | (MainDone SeteventsClientStatus c, VoidReply status) \<Rightarrow> setevents_client_status_main L status c
    | (MainDone SignalShutdown c, VoidReply status) \<Rightarrow> signal_shutdown_main L status c
    | (MainDone ToggleDisableNetwork c, VoidReply status) \<Rightarrow> toggle_disable_network_main L status c
    | (PortDone c, IntReply status port) \<Rightarrow> port_done L status port c
    | (PhaseDone c, IntReply status phase) \<Rightarrow> phase_done L status phase c
    | (StatusEvent c, ClientStatusReply status severity action others) \<Rightarrow>
        status_event L status severity action others c
    | (ShutdownDone c, VoidReply status) \<Rightarrow> shutdown_done L status c
    | (DisabledDone c, IntReply status is_disabled) \<Rightarrow> disabled_done L status is_disabled c
    | (ToggleDone c, VoidReply status) \<Rightarrow> toggle_done L status c
    | _ \<Rightarrow> raise (UndefinedBehaviour ''closure called at another type''))"

section \<open>The options, and main\<close>

record main_opts =
  opt_address :: string
  opt_auth_token :: string
  opt_port :: int
  opt_tv :: timeval
  opt_timeout :: "timeval option"

definition default_opts :: main_opts where
  "default_opts = \<lparr>opt_address = ''127.0.0.1'', opt_auth_token = '''', opt_port = 9051,
     opt_tv = \<lparr>tv_sec = 0, tv_usec = 0\<rparr>, opt_timeout = None\<rparr>"

definition usage :: "string \<Rightarrow> ('w, 'z, 'a) main_prog" where
  "usage progname =
     followed_by (print (''usage: '' @ progname @ '' [-A addr] [-f auth_cookie] [-p port] [-t timeout]'' @ newline))
       (raise (ProcessExit 1))"

text \<open>The loop of \<open>run_main_loop\<close> goes over the sequence of options that \<open>getopt\<close> makes.\<close>

text \<open>\<open>atoi\<close> of a number that is no \<open>int\<close> is undefined in C.\<close>

definition read_int :: "string \<Rightarrow> ('w, 'z, int) main_prog" where
  "read_int x =
     (if - (2 ^ 31) \<le> atoi x \<and> atoi x < 2 ^ 31 then ret (atoi x) else raise (UndefinedBehaviour ''atoi''))"

fun read_options ::
  "(string \<Rightarrow> string option) \<Rightarrow> string \<Rightarrow> (char \<times> string) list \<Rightarrow> main_opts \<Rightarrow> ('w, 'z, main_opts) main_prog"
where
  "read_options read_file progname [] opts = ret opts"
| "read_options read_file progname ((ch, optarg) # rest) opts =
     (if ch = CHR ''A'' then read_options read_file progname rest (opts\<lparr>opt_address := optarg\<rparr>)
      else if ch = CHR ''f''
      then read_options read_file progname rest (opts\<lparr>opt_auth_token := read_auth_cookie_as_hex read_file optarg\<rparr>)
      else if ch = CHR ''p'' 
      then andthen (read_int optarg) (\<lambda>n. read_options read_file progname rest (opts\<lparr>opt_port := n\<rparr>))
      else if ch = CHR ''t''
      then andthen (read_int optarg)
        (\<lambda>n. read_options read_file progname rest (opts\<lparr>opt_tv := (opt_tv opts)\<lparr>tv_sec := n\<rparr>\<rparr>))
      else usage progname)"

text \<open>\<open>dispatch\<close> is the event loop: \<open>EventBase::dispatch\<close> together with the callbacks it runs.\<close>

definition run_main_loop ::
  "'w libevent \<Rightarrow> (string \<Rightarrow> string option) \<Rightarrow> getopt \<Rightarrow> (evbase \<Rightarrow> ('w, 'z, unit) main_prog) \<Rightarrow>
   string list \<Rightarrow> ctrl_app \<Rightarrow> ('w, 'z, unit) main_prog" where
  "run_main_loop L read_file getopt dispatch argv callback =
     (let progname = hd argv; (options, optind) = getopt argv ''A:f:p:t:''
      in andthen (read_options read_file progname options default_opts)
        (\<lambda>opts. if int (length argv) - int optind \<noteq> 0 then usage progname
           else andthen (EventBase_create L)
             (\<lambda>evbase. andthen (create evbase)
             (\<lambda>c. followed_by
                (connect_and_authenticate L (app_client L) c (MainDone callback c) (opt_auth_token opts)
                   (opt_port opts) (opt_address opts) (opt_timeout opts))
                (dispatch evbase)))))"

end
