(* ===== verification/Ctrl_Programs_Session.thy ===== *)
theory Ctrl_Programs_Session
  imports Ctrl_Programs
begin

text \<open>
  Runs of the programs of \<open>example/tor/onion-ctrl-*.cpp\<close>: what the options of \<open>main\<close> stand for, and what
  the closures of the programs do when tor answers, from \<open>main\<close> to the end of the event loop.
\<close>

section \<open>Options\<close>

fun option_ok :: "char \<times> string \<Rightarrow> bool" where
  "option_ok (ch, optarg) \<longleftrightarrow> ch \<in> set ''Afpt'' \<and>
     (ch \<in> set ''pt'' \<longrightarrow> - (2 ^ 31) \<le> atoi optarg \<and> atoi optarg < 2 ^ 31)"

abbreviation last_address :: "(char \<times> string) list \<Rightarrow> string" where
  "last_address options \<equiv> case last_arg (CHR ''A'') options of None \<Rightarrow> ''127.0.0.1'' | Some a \<Rightarrow> a"

abbreviation last_port :: "(char \<times> string) list \<Rightarrow> int" where
  "last_port options \<equiv> case last_arg (CHR ''p'') options of None \<Rightarrow> 9051 | Some a \<Rightarrow> atoi a"

definition endpoint_parses :: "'w libevent \<Rightarrow> (char \<times> string) list \<Rightarrow> bool" where
  "endpoint_parses L options \<longleftrightarrow> fst (evutil_parse_sockaddr_port L
     (c_str (last_address options @ '':'' @ show_int (last_port options))) 128) = 0"

definition chosen_opts :: "(string \<Rightarrow> string option) \<Rightarrow> (char \<times> string) list \<Rightarrow> main_opts \<Rightarrow> main_opts" where
  "chosen_opts read_file options opts =
     \<lparr>opt_address = (case last_arg (CHR ''A'') options of None \<Rightarrow> opt_address opts | Some a \<Rightarrow> a),
      opt_auth_token = (case last_arg (CHR ''f'') options of None \<Rightarrow> opt_auth_token opts
         | Some a \<Rightarrow> read_auth_cookie_as_hex read_file a),
      opt_port = (case last_arg (CHR ''p'') options of None \<Rightarrow> opt_port opts | Some a \<Rightarrow> atoi a),
      opt_tv = (case last_arg (CHR ''t'') options of None \<Rightarrow> opt_tv opts
         | Some a \<Rightarrow> (opt_tv opts)\<lparr>tv_sec := atoi a\<rparr>),
      opt_timeout = opt_timeout opts\<rparr>"

lemma read_options_ok:
  "list_all option_ok options \<Longrightarrow>
   read_options read_file progname options opts = ret (chosen_opts read_file options opts)"
proof (induction options arbitrary: opts)
  case Nil
  then show ?case by (cases opts) (simp add: chosen_opts_def last_arg_Nil)
next
  case (Cons x options)
  obtain ch a where x: "x = (ch, a)" by fastforce
  with Cons show ?case
    by (auto simp: read_int_def andthen_ret chosen_opts_def last_arg_Cons split: option.split)
qed

lemma read_options_bad:
  "list_all option_ok good \<Longrightarrow> ch \<notin> set ''Afpt'' \<Longrightarrow>
   read_options read_file progname (good @ (ch, a) # rest) opts = usage progname"
proof (induction good arbitrary: opts)
  case Nil
  then show ?case by simp
next
  case (Cons x good)
  obtain c b where x: "x = (c, b)" by fastforce
  with Cons show ?case by (auto simp: read_int_def andthen_ret)
qed

lemma usage_run: "usage progname s = (Throw (ProcessExit 1), s\<lparr>cout := cout s @
    ''usage: '' @ progname @ '' [-A addr] [-f auth_cookie] [-p port] [-t timeout]'' @ newline\<rparr>)"
  by (simp add: usage_def print_def andthen_run modify_run raise_run)

lemma run_main_loop_eq:
  fixes dispatch :: "evbase \<Rightarrow> ('w, 'z, unit) main_prog"
  assumes "getopt argv ''A:f:p:t:'' = (options, length argv)" and "list_all option_ok options"
  shows "run_main_loop L read_file getopt dispatch argv callback =
    andthen (EventBase_create L)
      (\<lambda>evbase. andthen (create evbase)
      (\<lambda>c. followed_by
         (connect_and_authenticate L (app_client L) c (MainDone callback c)
            (case last_arg (CHR ''f'') options of None \<Rightarrow> '''' | Some a \<Rightarrow> read_auth_cookie_as_hex read_file a)
            (last_port options) (last_address options) None)
         (dispatch evbase)))"
  unfolding run_main_loop_def assms(1) Let_def prod.case read_options_ok [OF assms(2)] andthen_ret
  by (simp add: chosen_opts_def default_opts_def cong: option.case_cong)

section \<open>Whole runs\<close>

text \<open>
  An event library, the closures of the programs, and a fair account of the references.
\<close>

locale main_session = loop_env L content arrive flush +
  ctrl_session L content arrive flush "app_client L" unique fuel
  for L :: "'w libevent" and content :: "'w \<Rightarrow> cptr \<Rightarrow> string"
    and arrive :: "cptr \<Rightarrow> string \<Rightarrow> 'w \<Rightarrow> 'w" and flush :: "cptr \<Rightarrow> 'w \<Rightarrow> 'w"
    and unique :: "nat \<Rightarrow> (app_cb, 'w, 'z main_st_ext) ocst_scheme \<Rightarrow> bool" and fuel :: nat
begin

abbreviation on_base :: "nat \<Rightarrow> evbase \<Rightarrow> (app_cb, 'w, 'z) main_st_scheme \<Rightarrow> bool" where
  "on_base c base s \<equiv> map_option ctrl_evbase (ctrls s c) = Some base"

text \<open>The connection is closed, the loop left, and \<open>x\<close> is what the program has printed.\<close>

definition ended :: "nat \<Rightarrow> nat \<Rightarrow> cptr \<Rightarrow> evbase \<Rightarrow> string \<Rightarrow> (app_cb, 'w, 'z) main_st_scheme \<Rightarrow> bool" where
  "ended c h p base x t \<longleftrightarrow>
     callbacks c h p None None None t \<and> on_base c base t \<and> loop_left L base t \<and> cout t = x"

lemma on_base_silent: "silent s t \<Longrightarrow> on_base c base t = on_base c base s"
  by (simp add: silent_def)

lemma runs_break_loop_of:
  assumes "on_base c base s"
    and "\<And>w. content w = content (world s) \<Longrightarrow> loop_left L base (s\<lparr>world := w\<rparr>) \<Longrightarrow> P () (s\<lparr>world := w\<rparr>)"
  shows "runs (break_loop_of L c) s P"
  using assms
  by (auto simp: break_loop_of_def ctrl_get_def runs_andthen runs_gets runs_ret intro!: runs_loopbreak)

lemma runs_close_and_break:
  assumes "callbacks c h p r w e s" and "on_base c base s"
  shows "runs (close_and_break L c) s (\<lambda>_ t. ended c h p base (cout s) t \<and> content (world t) = content (world s))"
  unfolding close_and_break_def runs_andthen
proof (rule runs_mono [OF runs_close [OF assms(1)]], elim conjE)
  fix t
  assume t: "callbacks c h p None None None t" "silent s t" "world t = world s"
  have "on_base c base t" using on_base_silent [OF t(2)] assms(2) by blast
  then show "runs (break_loop_of L c) t (\<lambda>_ t. ended c h p base (cout s) t \<and> content (world t) = content (world s))"
    by (rule runs_break_loop_of) (use t cout_silent [OF t(2)] \<open>on_base c base t\<close> in \<open>simp add: ended_def\<close>)
qed

lemma runs_main_start:
  fixes s :: "(app_cb, 'w, 'z) main_st_scheme"
  assumes "getopt argv ''A:f:p:t:'' = (options, length argv)" and "list_all option_ok options"
    and "endpoint_parses L options"
    and "\<And>t base p token. connecting (next_ctrl s) (next_bev s) p token (MainDone callback (next_ctrl s)) t \<Longrightarrow>
      inbuf p t = '''' \<Longrightarrow> on_base (next_ctrl s) base t \<Longrightarrow> cout t = cout s \<Longrightarrow> runs (dispatch base) t P"
  shows "runs (run_main_loop L read_file getopt dispatch argv callback) s P"
  unfolding run_main_loop_eq [where getopt = getopt, OF assms(1,2)] runs_andthen
proof (rule runs_EventBase_create)
  fix b w
  let ?base = "\<lparr>base_ptr = b, base_owned = True\<rparr>" and ?c = "next_ctrl s"
  let ?x = "\<lparr>ctrl_evbase = ?base, ctrl_bev = None\<rparr>"
  let ?s = "s\<lparr>world := w, ctrls := (ctrls s)(?c \<mapsto> ?x), next_ctrl := Suc ?c\<rparr>"
  have x: "ctrls ?s ?c = Some ?x" "ctrl_bev ?x = None" "next_bev ?s = next_bev s" by simp_all
  show "runs (create ?base) (s\<lparr>world := w\<rparr>)
     (\<lambda>c t. runs (connect_and_authenticate L (app_client L) c (MainDone callback c)
            (case last_arg (CHR ''f'') options of None \<Rightarrow> '''' | Some a \<Rightarrow> read_auth_cookie_as_hex read_file a)
            (last_port options) (last_address options) None) t
       (\<lambda>_ t. runs (dispatch ?base) t P))"
    unfolding create_def
  proof (simp add: runs_andthen runs_gets runs_modify runs_ret,
      rule runs_mono [OF runs_connect_and_authenticate [OF x(1,2) assms(3) [unfolded endpoint_parses_def]]], elim conjE exE, unfold x(3))
    fix t p token
    assume t: "silent (?s\<lparr>next_bev := Suc (next_bev s)\<rparr>) t" "connecting ?c (next_bev s) p token (MainDone callback ?c) t" "inbuf p t = ''''"
    have "on_base ?c ?base t" using on_base_silent [OF t(1), of ?c ?base] by simp
    moreover have "cout t = cout s" using cout_silent [OF t(1)] by simp
    ultimately show "runs (dispatch ?base) t P" using t assms(4) by blast
  qed
qed

text \<open>The connection comes up, the authentication is sent, and tor answers it with one line.\<close>

lemma runs_main_authenticate:
  assumes "connecting c h p token (MainDone callback c) s" and "inbuf p s = ''''"
    and "wf_line (code, type, body)" and "2 \<le> fuel"
    and "\<And>t. receiving c h p (AuthReply (MainDone callback c)) t \<Longrightarrow> inbuf p t = '''' \<Longrightarrow> silent s t \<Longrightarrow>
      outbuf p t = '''' \<Longrightarrow>
      runs (app_client L (MainDone callback c) (VoidReply (void_status (reply_status (int code)) type))) t
        (\<lambda>_ u. attached c h p u \<and> inbuf p u = '''' \<and> P () u)"
  shows "runs (followed_by (handle h (Event (BEV_EVENT_CONNECTED L))) (exchange h (code, type, body))) s P"
  unfolding runs_andthen [of "handle h (Event _)"]
proof (rule runs_mono [OF runs_connected [OF assms(1)]], elim conjE)
  fix t
  assume t: "sending c h p (AuthReply (MainDone callback c)) t" "silent s t" "inbuf p t = inbuf p s"
  show "runs (exchange h (code, type, body)) t P"
  proof (rule runs_exchange [where st = "reply_status (int code)" and ty = type and body = body, OF t(1) _ assms(3,4)])
    show "inbuf p t = ''''" using t(3) assms(2) by simp
    show "line_args_of (code, type, body) = (reply_status (int code), type, body)"
      by (simp add: line_args_of_def)
    fix y
    assume y: "receiving c h p (AuthReply (MainDone callback c)) y" "inbuf p y = ''''" "silent t y"
      "outbuf p y = ''''"
    have "run_line_clo (app_client L :: (app_cb, 'w, 'z main_st_ext) oc_client)
        (AuthReply (MainDone callback c)) (reply_status (int code)) type body =
        app_client L (MainDone callback c) (VoidReply (void_status (reply_status (int code)) type))"
      by (simp add: run_line_clo_def void_status_def)
    with assms(5) [OF y(1,2) silent_trans [OF t(2) y(3)] y(4)]
    show "runs (run_line_clo (app_client L) (AuthReply (MainDone callback c)) (reply_status (int code)) type body) y
        (\<lambda>_ u. attached c h p u \<and> inbuf p u = '''' \<and> P () u)" by simp
  qed
qed

end

text \<open>Tor refuses the authentication, or, for the program that does no more, answers it.\<close>

definition auth_text :: "ctrl_app \<Rightarrow> onion_status \<Rightarrow> string" where
  "auth_text callback st =
     (if callback = Authenticate then ''result: '' @ show_int (onion_status_value st) @ newline else status_line st)"

lemma app_client_refused:
  "st \<noteq> OK \<Longrightarrow> callback \<noteq> Authenticate \<Longrightarrow>
   app_client L (MainDone callback c) (VoidReply st) = followed_by (print (status_line st)) (break_loop_of L c)"
  by (cases callback) (simp_all add: app_client_def getconf_socks_port_main_def getinfo_bootstrap_phase_main_def
      setevents_client_status_main_def signal_shutdown_main_def toggle_disable_network_main_def)

text \<open>The program that prints the notifications of tor.\<close>

definition event_text :: "string \<Rightarrow> string" where
  "event_text body = (let vec = tokenize body in
     vec ! 1 @ '' '' @ vec ! 2 @ concat (map (\<lambda>s. s @ '' '') (drop 3 vec)) @ newline)"

definition status_client :: "string \<Rightarrow> bool" where
  "status_client body \<longleftrightarrow> CHR 0x0A \<notin> set body \<and> CHR 0x0D \<notin> set body \<and>
     3 \<le> length (tokenize body) \<and> tokenize body ! 0 = ''STATUS_CLIENT''"

lemma status_event_line:
  assumes "status_client body"
  shows "run_string_clo (app_client L) (ClientStatus (StatusEvent c)) ASYNC body =
    (print (event_text body) :: ('w, 'z, unit) main_prog)"
  using assms
  by (simp add: status_client_def run_string_clo_def Let_def app_client_def status_event_def event_text_def
      run_all_print print_print print_last)

text \<open>How a program ends: its connection has no closures left, and its loop has been left.\<close>

definition program_ended :: "'w libevent \<Rightarrow> nat \<Rightarrow> nat \<Rightarrow> (app_cb, 'w, 'z) main_st_scheme \<Rightarrow> bool" where
  "program_ended L c h t \<longleftrightarrow>
     (\<exists>p x. callbacks c h p None None None t \<and> ctrls t c = Some x \<and> loop_left L (ctrl_evbase x) t)"

lemma run_getconf_line:
  "run_line_clo client (GetconfInt v d k) st ty body =
     client k (IntReply (fst (getconf_result st ty body v d)) (snd (getconf_result st ty body v d)))"
  by (simp add: run_line_clo_def getconf_int_eq case_prod_beta)

lemma run_do_void_line:
  "run_line_clo client (DoVoid k) st ty body = client k (VoidReply (void_status st ty))"
  by (simp add: run_line_clo_def do_void_cb_def void_status_def)

context main_session
begin

lemma ended_program_ended: "ended c h p base x t \<Longrightarrow> program_ended L c h t \<and> cout t = x"
  by (auto simp: ended_def program_ended_def)

lemma ended_attached: "ended c h p base x t \<Longrightarrow> attached c h p t"
  by (auto simp: ended_def callbacks_attached)

text \<open>A reply of one line to the last command of a program, whose callback prints, closes and ends.\<close>

lemma runs_last_reply:
  fixes s :: "(app_cb, 'w, 'z) main_st_scheme"
  assumes "sending c h p cb s" and "inbuf p s = ''''" and "on_base c base s"
    and "wf_line (code, type, body)" and "2 \<le> fuel"
    and "run_line_clo (app_client L) cb (reply_status (int code)) type body =
      (followed_by (print x) (close_and_break L c) :: ('w, 'z, unit) main_prog)"
  shows "runs (exchange h (code, type, body)) s (\<lambda>_ t. program_ended L c h t \<and> cout t = cout s @ x)"
proof (rule runs_exchange [where st = "reply_status (int code)" and ty = type and body = body,
      OF assms(1,2,4,5)])
  show "line_args_of (code, type, body) = (reply_status (int code), type, body)"
    by (simp add: line_args_of_def)
  fix y
  assume y: "receiving c h p cb y" "inbuf p y = ''''" "silent s y"
  let ?y = "y\<lparr>cout := cout y @ x\<rparr>"
  have c: "callbacks c h p (Some (RecvRead c cb)) None (Some (RecvEvent cb)) ?y" "on_base c base ?y"
    using y(1) assms(3) on_base_silent [OF y(3), of c base] by simp_all
  show "runs (run_line_clo (app_client L) cb (reply_status (int code)) type body) y
      (\<lambda>_ t. attached c h p t \<and> inbuf p t = '''' \<and> program_ended L c h t \<and> cout t = cout s @ x)"
    unfolding assms(6) runs_andthen runs_print
    by (rule runs_mono [OF runs_close_and_break [OF c]], elim conjE)
      (use y cout_silent [OF y(3)] in \<open>auto dest: ended_program_ended ended_attached\<close>)
qed

text \<open>Printing and sending the next command.\<close>

lemma runs_print_sendrecv:
  assumes "callbacks c h p r w e s" and "on_base c base s"
  shows "runs (followed_by (print x) (sendrecv L c command cb)) s
    (\<lambda>_ t. sending c h p cb t \<and> on_base c base t \<and> cout t = cout s @ x \<and> inbuf p t = inbuf p s \<and>
       outbuf p t = outbuf p s @ command)"
proof -
  let ?s = "s\<lparr>cout := cout s @ x\<rparr>"
  have c: "callbacks c h p r w e ?s" using assms(1) by simp
  have base: "on_base c base ?s" using assms(2) by simp
  show ?thesis
    unfolding runs_andthen runs_print
    by (rule runs_mono [OF runs_sendrecv [OF c]], elim conjE, frule cout_silent)
      (use base on_base_silent in \<open>auto simp del: map_option_eq_Some\<close>)
qed

text \<open>The authentication is accepted, and the program prints the status and sends its command.\<close>

lemma runs_main_command:
  fixes s :: "(app_cb, 'w, 'z) main_st_scheme"
  assumes "connecting c h p token (MainDone callback c) s" and "inbuf p s = ''''" and "on_base c base s"
    and "2 \<le> fuel"
    and "app_client L (MainDone callback c) (VoidReply OK) =
      (followed_by (print (status_line OK)) (sendrecv L c command cb) :: ('w, 'z, unit) main_prog)"
  shows "runs (followed_by (handle h (Event (BEV_EVENT_CONNECTED L))) (exchange h ok_line)) s
    (\<lambda>_ t. sending c h p cb t \<and> inbuf p t = '''' \<and> outbuf p t = command \<and> on_base c base t \<and>
       cout t = cout s @ status_line OK)"
proof (rule runs_main_authenticate [OF assms(1,2) ok_line(1) assms(4)])
  fix t
  assume t: "receiving c h p (AuthReply (MainDone callback c)) t" "inbuf p t = ''''" "silent s t" "outbuf p t = ''''"
  have base: "on_base c base t" using on_base_silent [OF t(3)] assms(3) by blast
  have ok: "void_status (reply_status (int 250)) (CHR '' '') = OK" by (simp add: void_status_def reply_status_def)
  show "runs (app_client L (MainDone callback c) (VoidReply (void_status (reply_status (int 250)) (CHR '' '')))) t
      (\<lambda>_ u. attached c h p u \<and> inbuf p u = '''' \<and> sending c h p cb u \<and> inbuf p u = '''' \<and> outbuf p u = command \<and>
         on_base c base u \<and> cout u = cout s @ status_line OK)"
    unfolding ok assms(5)
    by (rule runs_mono [OF runs_print_sendrecv [OF t(1) base]])
      (use t cout_silent [OF t(3)] in \<open>auto simp: callbacks_attached\<close>)
qed

lemma runs_toggle:
  fixes s :: "(app_cb, 'w, 'z) main_st_scheme"
  assumes "connecting c h p token (MainDone ToggleDisableNetwork c) s" and "inbuf p s = ''''" and "on_base c base s"
    and "2 \<le> fuel" and "wf_line (code1, type1, body1)" and "wf_line (code2, type2, body2)"
    and "getconf_result (reply_status (int code1)) type1 body1 ''DisableNetwork'' 0 = (st, n)"
  shows "runs (followed_by (followed_by (handle h (Event (BEV_EVENT_CONNECTED L))) (exchange h ok_line))
      (exchange h (code1, type1, body1))) s
    (\<lambda>_ t. cout t = cout s @ status_line OK @ status_line st \<and>
       (\<exists>p. attached c h p t \<and> outbuf p t = cmd_disable_network (n = 0)) \<and>
       runs (exchange h (code2, type2, body2)) t
         (\<lambda>_ u. cout u = cout s @ status_line OK @ status_line st @
              status_line (void_status (reply_status (int code2)) type2) \<and> program_ended L c h u))"
    (is "runs _ s ?Q")
proof (subst runs_andthen, rule runs_mono [OF runs_main_command [OF assms(1-4),
    where command = "''GETCONF DisableNetwork'' @ crlf" and cb = "GetconfInt ''DisableNetwork'' 0 (DisabledDone c)"]],
    goal_cases)
  case 1
  show ?case by (simp add: app_client_def toggle_disable_network_main_def getconf_disable_network_def)
next
  case (2 x t)
  let ?cb = "GetconfInt ''DisableNetwork'' 0 (DisabledDone c)"
  from 2 have t: "sending c h p ?cb t" "inbuf p t = ''''" "on_base c base t" "cout t = cout s @ status_line OK"
    by blast+
  show ?case
  proof (rule runs_exchange [where st = "reply_status (int code1)" and ty = type1 and body = body1,
      OF t(1,2) assms(5,4)])
    show "line_args_of (code1, type1, body1) = (reply_status (int code1), type1, body1)"
      by (simp add: line_args_of_def)
    fix y
    assume y: "receiving c h p ?cb y" "inbuf p y = ''''" "silent t y" "outbuf p y = ''''"
    have base: "on_base c base y" using on_base_silent [OF y(3)] t(3) by blast
    have call: "run_line_clo (app_client L) ?cb (reply_status (int code1)) type1 body1 =
        (followed_by (print (status_line st)) (sendrecv L c (cmd_disable_network (n = 0)) (DoVoid (ToggleDone c)))
          :: ('w, 'z, unit) main_prog)"
      by (simp add: run_getconf_line assms(7) app_client_def disabled_done_def setconf_disable_network_def)
    have last: "runs (exchange h (code2, type2, body2)) v (\<lambda>_ u. program_ended L c h u \<and>
        cout u = cout v @ status_line (void_status (reply_status (int code2)) type2))"
      if v: "sending c h p (DoVoid (ToggleDone c)) v" "inbuf p v = ''''" "on_base c base v"
      for v :: "(app_cb, 'w, 'z) main_st_scheme"
      by (rule runs_last_reply [OF v assms(6,4)]) (simp add: run_do_void_line app_client_def toggle_done_def)
    show "runs (run_line_clo (app_client L) ?cb (reply_status (int code1)) type1 body1) y
        (\<lambda>_ u. attached c h p u \<and> inbuf p u = '''' \<and> ?Q () u)"
      unfolding call
      by (rule runs_mono [OF runs_print_sendrecv [OF y(1) base]], elim conjE, frule last)
        (use y t(4) cout_silent [OF y(3)] in \<open>auto intro!: exI [of _ p] intro: callbacks_attached elim!: runs_mono\<close>)
  qed
qed

text \<open>A program that sends one command and ends with the reply to it.\<close>

lemma runs_one_command:
  fixes s :: "(app_cb, 'w, 'z) main_st_scheme"
  assumes "connecting c h p token (MainDone callback c) s" and "inbuf p s = ''''" and "on_base c base s"
    and "2 \<le> fuel" and "wf_line (code, type, body)"
    and "app_client L (MainDone callback c) (VoidReply OK) =
      (followed_by (print (status_line OK)) (sendrecv L c command cb) :: ('w, 'z, unit) main_prog)"
    and "run_line_clo (app_client L) cb (reply_status (int code)) type body =
      (followed_by (print x) (close_and_break L c) :: ('w, 'z, unit) main_prog)"
  shows "runs (followed_by (followed_by (handle h (Event (BEV_EVENT_CONNECTED L))) (exchange h ok_line))
      (exchange h (code, type, body))) s
    (\<lambda>_ t. program_ended L c h t \<and> cout t = cout s @ status_line OK @ x)"
proof (subst runs_andthen, rule runs_mono [OF runs_main_command [OF assms(1-4,6)]], elim conjE)
  fix t
  assume t: "sending c h p cb t" "inbuf p t = ''''" "on_base c base t" "cout t = cout s @ status_line OK"
  show "runs (exchange h (code, type, body)) t (\<lambda>_ t. program_ended L c h t \<and> cout t = cout s @ status_line OK @ x)"
    by (rule runs_mono [OF runs_last_reply [OF t(1-3) assms(5,4,7)]]) (simp add: t(4))
qed

lemma runs_refused:
  fixes s :: "(app_cb, 'w, 'z) main_st_scheme"
  assumes "connecting c h p token (MainDone callback c) s" and "inbuf p s = ''''" and "on_base c base s"
    and "2 \<le> fuel" and "wf_line (code, type, body)" and "void_status (reply_status (int code)) type = st"
    and "callback = Authenticate \<or> st \<noteq> OK"
  shows "runs (followed_by (handle h (Event (BEV_EVENT_CONNECTED L))) (exchange h (code, type, body))) s
    (\<lambda>_ t. cout t = cout s @ auth_text callback st \<and> on_base c base t \<and> loop_left L base t \<and>
       (if callback = Authenticate then callbacks c h p None None None t
        else receiving c h p (AuthReply (MainDone callback c)) t))"
proof (rule runs_main_authenticate [OF assms(1,2,5,4)], unfold assms(6))
  fix t
  assume t: "receiving c h p (AuthReply (MainDone callback c)) t" "inbuf p t = ''''" "silent s t"
  define x where "x = auth_text callback st"
  let ?t = "t\<lparr>cout := cout t @ x\<rparr>"
  have base: "on_base c base ?t" using on_base_silent [OF t(3), of c base] assms(3) by simp
  have out: "cout t = cout s" using t(3) by (rule cout_silent)
  have recv: "receiving c h p (AuthReply (MainDone callback c)) ?t" using t(1) by simp
  have broken: "runs (break_loop_of L c) ?t (\<lambda>_ u. \<exists>w. u = ?t\<lparr>world := w\<rparr> \<and>
      content w = content (world ?t) \<and> loop_left L base u)"
    by (rule runs_break_loop_of [OF base]) (auto intro!: exI)
  show "runs (app_client L (MainDone callback c) (VoidReply st)) t
      (\<lambda>_ u. attached c h p u \<and> inbuf p u = '''' \<and> cout u = cout s @ x \<and> on_base c base u \<and> loop_left L base u \<and>
         (if callback = Authenticate then callbacks c h p None None None u
          else receiving c h p (AuthReply (MainDone callback c)) u))"
  proof (cases "callback = Authenticate")
    case False
    then have call: "app_client L (MainDone callback c) (VoidReply st) =
        (followed_by (print x) (break_loop_of L c) :: ('w, 'z, unit) main_prog)"
      using assms(7) by (simp add: app_client_refused x_def auth_text_def)
    show ?thesis
      unfolding call runs_andthen runs_print
      by (rule runs_mono [OF broken]) (use False t recv base out in \<open>auto dest: callbacks_attached\<close>)
  next
    case True
    then have call: "app_client L (MainDone callback c) (VoidReply st) =
        (followed_by (print x) (followed_by (break_loop_of L c) (close c)) :: ('w, 'z, unit) main_prog)"
      by (simp add: app_client_def authenticate_main_def x_def auth_text_def)
    have close: "runs (close c) (?t\<lparr>world := w\<rparr>) (\<lambda>_ u. attached c h p u \<and> inbuf p u = '''' \<and>
        cout u = cout s @ x \<and> on_base c base u \<and> loop_left L base u \<and> callbacks c h p None None None u)"
      if w: "content w = content (world t)" "loop_left L base (?t\<lparr>world := w\<rparr>)" for w
    proof -
      have recv_w: "receiving c h p (AuthReply (MainDone callback c)) (?t\<lparr>world := w\<rparr>)" using t(1) by simp
      show ?thesis
      proof (rule runs_mono [OF runs_close [OF recv_w]], elim conjE)
        fix u
        assume u: "callbacks c h p None None None u" "silent (?t\<lparr>world := w\<rparr>) u" "world u = world (?t\<lparr>world := w\<rparr>)"
        then have "on_base c base u" "cout u = cout s @ x"
          using on_base_silent [OF u(2), of c base] cout_silent [OF u(2)] base out by simp_all
        with u w t(2) show "attached c h p u \<and> inbuf p u = '''' \<and>
          cout u = cout s @ x \<and> on_base c base u \<and> loop_left L base u \<and> callbacks c h p None None None u"
          by (auto simp: loop_left_def dest: callbacks_attached)
      qed
    qed
    show ?thesis
      unfolding call runs_andthen runs_print
      by (rule runs_mono [OF broken]) (use True close in \<open>auto elim!: runs_mono\<close>)
  qed
qed

definition notified :: "nat \<Rightarrow> nat \<Rightarrow> cptr \<Rightarrow> nat \<Rightarrow> (app_cb, 'w, 'z) main_st_scheme \<Rightarrow> bool" where
  "notified c h p e s \<longleftrightarrow> receiving c h p (SetEvents (ClientStatus (StatusEvent c)) e) s \<and> inbuf p s = '''' \<and>
     expecteds s e = ASYNC"

lemma runs_notification:
  fixes s :: "(app_cb, 'w, 'z) main_st_scheme"
  assumes "notified c h p e s" and "status_client body" and "2 \<le> fuel"
  shows "runs (handle h (Readable (wire [(650, CHR '' '', body)]))) s
    (\<lambda>_ t. notified c h p e t \<and> cout t = cout s @ event_text body)"
proof -
  let ?cb = "SetEvents (ClientStatus (StatusEvent c)) e"
  from assms(1) have s: "receiving c h p ?cb s" "inbuf p s = ''''" "expecteds s e = ASYNC"
    by (simp_all add: notified_def)
  have wf: "wf_line (650, CHR '' '', body)" using assms(2) by (auto simp: status_client_def wf_line_def list_all_iff)
  have args: "line_args_of (650, CHR '' '', body) = (ASYNC, CHR '' '', body)"
    by (simp add: line_args_of_def reply_status_def)
  show ?thesis
  proof (rule runs_one_line [OF s(1,2) wf assms(3) args])
    fix w
    assume w: "content w = content (world s)"
    have "run_line_clo (app_client L) ?cb ASYNC (CHR '' '') body (s\<lparr>world := w\<rparr>) =
        followed_by (modify (\<lambda>s. s\<lparr>expecteds := (expecteds s)(e := ASYNC)\<rparr>)) (print (event_text body)) (s\<lparr>world := w\<rparr>)"
      using s(3) by (simp add: run_line_clo_def andthen_run gets_run modify_run status_event_line [OF assms(2)])
    then show "runs (run_line_clo (app_client L) ?cb ASYNC (CHR '' '') body) (s\<lparr>world := w\<rparr>)
        (\<lambda>_ t. attached c h p t \<and> inbuf p t = '''' \<and> notified c h p e t \<and> cout t = cout s @ event_text body)"
      using s w callbacks_attached [OF s(1)]
      by (simp add: runs_def andthen_run modify_run print_def notified_def)
  qed
qed

lemma runs_notifications:
  fixes s :: "(app_cb, 'w, 'z) main_st_scheme"
  assumes "notified c h p e s" and "list_all status_client bodies" and "2 \<le> fuel"
  shows "runs (run_all (\<lambda>body. handle h (Readable (wire [(650, CHR '' '', body)]))) bodies) s
    (\<lambda>_ t. notified c h p e t \<and> cout t = cout s @ concat (map event_text bodies))"
  using assms(1,2)
proof (induction bodies arbitrary: s)
  case Nil
  then show ?case by (simp add: runs_ret)
next
  case (Cons b bodies)
  have b: "status_client b" using Cons.prems(2) by simp
  show ?case
    unfolding run_all.simps runs_andthen
    by (rule runs_mono [OF runs_notification [OF Cons.prems(1) b assms(3)]], elim conjE,
        rule runs_mono [OF Cons.IH]) (use Cons.prems(2) in simp_all)
qed

lemma runs_events_program:
  fixes s :: "(app_cb, 'w, 'z) main_st_scheme"
  assumes "connecting c h p token (MainDone SeteventsClientStatus c) s" and "inbuf p s = ''''" and "2 \<le> fuel"
    and "list_all status_client bodies"
  shows "runs (followed_by (followed_by (handle h (Event (BEV_EVENT_CONNECTED L))) (exchange h ok_line))
      (followed_by (exchange h ok_line)
        (run_all (\<lambda>body. handle h (Readable (wire [(650, CHR '' '', body)]))) bodies))) s
    (\<lambda>_ t. cout t = cout s @ status_line OK @ concat (map event_text bodies))"
    (is "runs _ s ?Q")
proof (subst runs_andthen, rule runs_main_authenticate [OF assms(1,2) ok_line(1) assms(3)])
  fix t
  assume t: "receiving c h p (AuthReply (MainDone SeteventsClientStatus c)) t" "inbuf p t = ''''" "silent s t"
  let ?e = "next_expected t"
  let ?cb = "SetEvents (ClientStatus (StatusEvent c)) ?e"
  let ?t = "t\<lparr>cout := cout t @ status_line OK, expecteds := (expecteds t)(?e := OK), next_expected := Suc ?e\<rparr>"
  let ?rest = "followed_by (exchange h ok_line)
    (run_all (\<lambda>body. handle h (Readable (wire [(650, CHR '' '', body)]))) bodies)"
  have ok: "void_status (reply_status (int 250)) (CHR '' '') = OK" by (simp add: void_status_def reply_status_def)
  have rt: "receiving c h p (AuthReply (MainDone SeteventsClientStatus c)) ?t" using t(1) by simp
  have first: "runs ?rest v ?Q"
    if v: "sending c h p ?cb v" "inbuf p v = ''''" "silent ?t v" for v :: "(app_cb, 'w, 'z) main_st_scheme"
  proof (subst runs_andthen, rule runs_exchange [OF v(1,2) ok_line(1) assms(3) ok_line(2)])
    fix y
    assume y: "receiving c h p ?cb y" "inbuf p y = ''''" "silent v y"
    have out: "cout y = cout s @ status_line OK" and exp: "expecteds y ?e = OK"
      using cout_silent [OF y(3)] cout_silent [OF v(3)] cout_silent [OF t(3)] y(3) v(3)
      by (simp_all add: silent_def)
    let ?y = "y\<lparr>expecteds := (expecteds y)(?e := ASYNC)\<rparr>"
    have "run_line_clo (app_client L) ?cb OK (CHR '' '') ''OK'' y = (Return (), ?y)"
      using exp by (simp add: run_line_clo_def andthen_run gets_run modify_run ret_run)
    moreover have n: "notified c h p ?e ?y" using y by (simp add: notified_def)
    moreover have "runs (run_all (\<lambda>body. handle h (Readable (wire [(650, CHR '' '', body)]))) bodies) ?y ?Q"
      by (rule runs_mono [OF runs_notifications [OF n assms(4,3)]]) (simp add: out)
    ultimately show "runs (run_line_clo (app_client L) ?cb OK (CHR '' '') ''OK'') y
        (\<lambda>_ u. attached c h p u \<and> inbuf p u = '''' \<and>
           runs (run_all (\<lambda>body. handle h (Readable (wire [(650, CHR '' '', body)]))) bodies) u ?Q)"
      by (simp add: runs_def notified_def callbacks_attached [OF y(1)] y(2))
  qed
  have call: "app_client L (MainDone SeteventsClientStatus c) (VoidReply OK) =
      (followed_by (print (status_line OK)) (andthen new_expected
        (\<lambda>e. sendrecv L c (''SETEVENTS STATUS_CLIENT'' @ crlf) (SetEvents (ClientStatus (StatusEvent c)) e)))
        :: ('w, 'z, unit) main_prog)"
    by (simp add: app_client_def setevents_client_status_main_def setevents_client_status_def
        setevents_client_status_as_string_def)
  have sent: "runs (app_client L (MainDone SeteventsClientStatus c) (VoidReply OK)) t
      (\<lambda>_ u. sending c h p ?cb u \<and> inbuf p u = '''' \<and> silent ?t u)"
    unfolding call new_expected_def
    by (simp add: runs_andthen runs_print runs_gets runs_modify runs_ret, rule runs_mono [OF runs_sendrecv [OF rt]])
      (use t(2) in simp)
  show "runs (app_client L (MainDone SeteventsClientStatus c)
        (VoidReply (void_status (reply_status (int 250)) (CHR '' '')))) t
      (\<lambda>_ u. attached c h p u \<and> inbuf p u = '''' \<and> runs ?rest u ?Q)"
    unfolding ok
    by (rule runs_mono [OF sent], elim conjE, intro conjI first) (auto dest: callbacks_attached)
qed

end

section \<open>The session of the simulated library\<close>

interpretation sim_main: main_session sim_libevent sim_content sim_arrive sim_flush ctrl_unique fuel for fuel
  by unfold_locales (rule ctrl_unique_counts)

definition demo_main :: "(app_cb, simw) main_st" where
  "demo_main = \<lparr>world = sim_empty, bevs = Map.empty, next_bev = 0, onces = Map.empty,
     next_once = 0, strings = (\<lambda>_. ''''), flags = (\<lambda>_. False), verbose = False, clog = '''',
     ssl_singleton = None, ctrls = Map.empty, next_ctrl = 0, results = (\<lambda>_. ''''), next_result = 0,
     expecteds = (\<lambda>_. OK), next_expected = 0, cout = ''''\<rparr>"

lemma demo_main_simps [simp]: "next_bev demo_main = 0" "next_ctrl demo_main = 0" "cout demo_main = ''''"
  by (simp_all add: demo_main_def)

lemma sim_default_endpoint: "endpoint_parses sim_libevent []"
  by (simp add: endpoint_parses_def last_arg_Nil sim_libevent_def c_str_def)

end
