(* ===== verification/Ctrl_Programs_Props.thy ===== *)
theory Ctrl_Programs_Props
  imports Ctrl_Programs_Session
begin

text \<open>
  The properties of the programs of \<open>example/tor/onion-ctrl-*.cpp\<close>: what the options mean, and whole
  runs, from \<open>main\<close> to the end of the event loop, with what is printed and what tor is told.
\<close>

section \<open>Options\<close>

text \<open>
  What the options mean.  When all of them are known, and nothing follows them, the program connects to
  the address and the port of the last \<open>-A\<close> and \<open>-p\<close>, or to 127.0.0.1 and 9051, and authenticates with
  the hexadecimal form of the file of the last \<open>-f\<close>, or with nothing; it sets no timeout, whatever \<open>-t\<close>
  says.
\<close>

theorem main_options:
  fixes dispatch :: "evbase \<Rightarrow> ('w, 'z, unit) main_prog"
  assumes "getopt argv ''A:f:p:t:'' = (options, length argv)" and "list_all option_ok options"
  shows "run_main_loop L read_file getopt dispatch argv callback =
    andthen (EventBase_create L)
      (\<lambda>evbase. andthen (create evbase)
      (\<lambda>c. followed_by
         (connect_and_authenticate L (app_client L) c (MainDone callback c)
            (case last_arg (CHR ''f'') options of None \<Rightarrow> '''' | Some a \<Rightarrow> read_auth_cookie_as_hex read_file a)
            (case last_arg (CHR ''p'') options of None \<Rightarrow> 9051 | Some a \<Rightarrow> atoi a)
            (case last_arg (CHR ''A'') options of None \<Rightarrow> ''127.0.0.1'' | Some a \<Rightarrow> a) None)
         (dispatch evbase)))"
  by (rule run_main_loop_eq [where getopt = getopt, OF assms])

lemma atoi_sample: "atoi ''9052'' = 9052" "atoi ''9053'' = 9053" "atoi ''5'' = 5" "atoi ''80'' = 80"
  by (simp_all add: atoi_def isspace_def uchar_def isdigit_def digit_value_def)

theorem main_options_witness:
  "run_main_loop sim_libevent (\<lambda>_. Some ''A'')
      (\<lambda>_ _. ([(CHR ''p'', ''9052''), (CHR ''t'', ''5''), (CHR ''f'', ''cookie''), (CHR ''p'', ''9053'')], 9))
      (\<lambda>_ s. (Return (), s)) (replicate 9 '''') Authenticate =
    andthen (EventBase_create sim_libevent)
      (\<lambda>evbase. andthen (create evbase)
      (\<lambda>c. followed_by
         (connect_and_authenticate sim_libevent (app_client sim_libevent) c (MainDone Authenticate c)
            ''41'' 9053 ''127.0.0.1'' None)
         (\<lambda>s :: (app_cb, simw, unit) main_st_scheme. (Return (), s))))"
proof -
  let ?o = "[(CHR ''p'', ''9052''), (CHR ''t'', ''5''), (CHR ''f'', ''cookie''), (CHR ''p'', ''9053'')]"
  have "list_all option_ok ?o" by (simp add: atoi_sample)
  moreover have "last_arg (CHR ''f'') ?o = Some ''cookie''" "last_arg (CHR ''p'') ?o = Some ''9053''"
    "last_arg (CHR ''A'') ?o = None"
    "read_auth_cookie_as_hex (\<lambda>_. Some ''A'') ''cookie'' = ''41''"
    by code_simp+
  moreover note atoi_sample
  ultimately show ?thesis
    using main_options [where getopt = "\<lambda>_ _. (?o, 9)" and argv = "replicate 9 ''''" and options = ?o and
      read_file = "\<lambda>_. Some ''A''"]
    by simp
qed

text \<open>
  An option that is not known, or an argument after the options: the program prints its usage and exits
  with status 1, and has done nothing else.
\<close>

theorem main_usage:
  fixes s :: "(app_cb, 'w, 'z) main_st_scheme"
  assumes "getopt argv ''A:f:p:t:'' = (options, optind)" and "optind \<le> length argv"
    and "list_all option_ok options \<and> optind \<noteq> length argv \<or>
      (\<exists>good ch a rest. options = good @ (ch, a) # rest \<and> list_all option_ok good \<and> ch \<notin> set ''Afpt'')"
  shows "run_main_loop L read_file getopt dispatch argv callback s =
    (Throw (ProcessExit 1), s\<lparr>cout := cout s @
       ''usage: '' @ hd argv @ '' [-A addr] [-f auth_cookie] [-p port] [-t timeout]'' @ newline\<rparr>)"
  using assms(3)
proof (elim disjE exE conjE)
  assume "list_all option_ok options" and "optind \<noteq> length argv"
  with assms(1,2) show ?thesis
    by (simp add: run_main_loop_def Let_def read_options_ok andthen_ret usage_run)
next
  fix good ch a rest
  assume "options = good @ (ch, a) # rest" and "list_all option_ok good" and "ch \<notin> set ''Afpt''"
  then have "read_options read_file (hd argv) options default_opts =
      (usage (hd argv) :: ('w, 'z, main_opts) main_prog)"
    by (simp only: read_options_bad not_False_eq_True)
  with assms(1) show ?thesis
    by (simp add: run_main_loop_def Let_def andthen_run usage_run)
qed

theorem main_usage_witness:
  fixes s :: "(app_cb, simw, unit) main_st_scheme"
  shows "run_main_loop sim_libevent (\<lambda>_. None) (\<lambda>_ _. ([(CHR ''p'', ''80''), (CHR ''?'', '''')], 3))
      (\<lambda>_. diverge) [''prog'', ''-p80'', ''-x''] SignalShutdown (s\<lparr>cout := ''''\<rparr>) =
    (Throw (ProcessExit 1), s\<lparr>cout :=
       ''usage: prog [-A addr] [-f auth_cookie] [-p port] [-t timeout]'' @ newline\<rparr>)"
proof -
  have "list_all option_ok [(CHR ''p'', ''80'')]" by (simp add: atoi_sample)
  then have "\<exists>good ch a rest. [(CHR ''p'', ''80''), (CHR ''?'', '''')] = good @ (ch, a) # rest \<and>
      list_all option_ok good \<and> ch \<notin> set ''Afpt''"
    by (intro exI [of _ "[(CHR ''p'', ''80'')]"] exI [of _ "CHR ''?''"] exI [of _ "''''"] exI [of _ "[]"]) simp
  note u = main_usage [OF _ _ disjI2 [OF this], where getopt = "\<lambda>_ _. ([(CHR ''p'', ''80''), (CHR ''?'', '''')], 3)"
      and argv = "[''prog'', ''-p80'', ''-x'']" and optind = 3]
  show ?thesis by (subst u) simp_all
qed

section \<open>Programs\<close>

text \<open>The connection comes up, and tor answers the authentication with one line.\<close>

abbreviation comes_up ::
  "'w libevent \<Rightarrow> (cptr \<Rightarrow> string \<Rightarrow> 'w \<Rightarrow> 'w) \<Rightarrow> (cptr \<Rightarrow> 'w \<Rightarrow> 'w) \<Rightarrow>
   (nat \<Rightarrow> ('k, 'w, 'z) ocst_scheme \<Rightarrow> bool) \<Rightarrow> ('k, 'w, 'z) oc_client \<Rightarrow> nat \<Rightarrow> nat \<Rightarrow>
   nat \<times> char \<times> string \<Rightarrow> ('k, 'w, 'z, unit) oc_prog" where
  "comes_up L arrive flush unique client fuel h l \<equiv>
     followed_by (handle_event L arrive flush unique client fuel h (Event (BEV_EVENT_CONNECTED L)))
       (line_exchange L arrive flush unique client fuel h l)"

text \<open>
  C12: The toggle program, from \<open>main\<close> to the end: tor accepts the authentication, answers \<open>GETCONF\<close> with one
  line, and \<open>SETCONF\<close> with one line.  The program asks for the opposite of the value tor reports; when
  tor reports an error, or no value, the number is 0 and the program asks tor to go offline.  It
  prints three statuses, closes its connection and leaves the loop.
\<close>

theorem toggle_program:
  fixes s :: "(app_cb, 'w, 'z) main_st_scheme"
  assumes "main_session L content arrive flush unique"
    and "getopt argv ''A:f:p:t:'' = (options, length argv)" and "list_all option_ok options"
    and "endpoint_parses L options" and "2 \<le> fuel"
    and "wf_line (code1, type1, body1)" and "wf_line (code2, type2, body2)"
    and "getconf_result (reply_status (int code1)) type1 body1 ''DisableNetwork'' 0 = (st, n)"
  shows "runs (run_main_loop L read_file getopt
      (\<lambda>_. followed_by
        (comes_up L arrive flush unique (app_client L) fuel (next_bev s) (250, CHR '' '', ''OK''))
        (line_exchange L arrive flush unique (app_client L) fuel (next_bev s) (code1, type1, body1)))
      argv ToggleDisableNetwork) s
    (\<lambda>_ t. cout t = cout s @ status_line OK @ status_line st \<and>
       (\<exists>p. attached (next_ctrl s) (next_bev s) p t \<and>
          content (world t) (bufferevent_get_output L p) = cmd_disable_network (n = 0)) \<and>
       runs (line_exchange L arrive flush unique (app_client L) fuel (next_bev s) (code2, type2, body2)) t
         (\<lambda>_ u. cout u = cout s @ status_line OK @ status_line st @
              status_line (void_status (reply_status (int code2)) type2) \<and>
            program_ended L (next_ctrl s) (next_bev s) u))"
    (is "runs _ s ?Q")
proof (rule main_session.runs_main_start [where getopt = getopt, OF assms(1-4)])
  let ?c = "next_ctrl s" and ?h = "next_bev s" and ?k = "app_client L :: (app_cb, 'w, 'z main_st_ext) oc_client"
  fix t :: "(app_cb, 'w, 'z) main_st_scheme" and base p token
  assume t: "callbacks ?c ?h p None None (Some (ConnectEvent ?c (ConnAuth token ?c (MainDone ToggleDisableNetwork ?c)))) t"
    "content (world t) (bufferevent_get_input L p) = ''''"
    "map_option ctrl_evbase (ctrls t ?c) = Some base" "cout t = cout s"
  show "runs (followed_by
        (comes_up L arrive flush unique ?k fuel ?h (250, CHR '' '', ''OK''))
        (line_exchange L arrive flush unique ?k fuel ?h (code1, type1, body1))) t ?Q"
    using main_session.runs_toggle [where fuel = fuel, OF assms(1) t(1-3) assms(5-8)] unfolding t(4) .
qed

theorem toggle_program_witness:
  "runs (run_main_loop sim_libevent (\<lambda>_. None) (\<lambda>_ _. ([], 1))
      (\<lambda>_. followed_by
        (comes_up sim_libevent sim_arrive sim_flush ctrl_unique (app_client sim_libevent) 2 0 (250, CHR '' '', ''OK''))
        (line_exchange sim_libevent sim_arrive sim_flush ctrl_unique (app_client sim_libevent) 2 0
          (250, CHR '' '', ''DisableNetwork=1'')))
      [''toggle''] ToggleDisableNetwork) demo_main
    (\<lambda>_ t. (\<exists>p. attached 0 0 p t \<and> sim_content (world t) (bufferevent_get_output sim_libevent p) =
          ''SETCONF DisableNetwork=0'' @ crlf) \<and>
       runs (line_exchange sim_libevent sim_arrive sim_flush ctrl_unique (app_client sim_libevent) 2 0
           (513, CHR '' '', ''no'')) t
         (\<lambda>_ u. cout u = status_line OK @ status_line OK @ status_line UNKNOWN_STATUS_ERROR \<and>
            program_ended sim_libevent 0 0 u))"
proof -
  have getconf: "getconf_result (reply_status (int 250)) (CHR '' '') ''DisableNetwork=1'' ''DisableNetwork'' 0 = (OK, 1)"
    by (simp add: reply_status_def getconf_result_def isdigit_def uchar_def digit_value_def)
  have wf: "wf_line (250, CHR '' '', ''DisableNetwork=1'')" "wf_line (513, CHR '' '', ''no'')"
    by (simp_all add: wf_line_def)
  note toggle = toggle_program [OF sim_main.main_session_axioms _ _ sim_default_endpoint le_refl wf getconf,
      where getopt = "\<lambda>_ _. ([], 1)" and argv = "[''toggle'']" and s = demo_main and read_file = "\<lambda>_. None",
      unfolded demo_main_simps]
  show ?thesis
    by (rule runs_mono [OF toggle])
      (auto simp: cmd_disable_network_def void_status_def reply_status_def elim: runs_mono)
qed

text \<open>
  The program that asks for the SOCKS port: for any reply of one line to its query it prints the status
  and the number that \<open>getconf_int\<close> makes of the reply, closes its connection and leaves the loop.
\<close>

theorem socks_port_program:
  fixes s :: "(app_cb, 'w, 'z) main_st_scheme"
  assumes "main_session L content arrive flush unique"
    and "getopt argv ''A:f:p:t:'' = (options, length argv)" and "list_all option_ok options"
    and "endpoint_parses L options" and "2 \<le> fuel" and "wf_line (code, type, body)"
    and "getconf_result (reply_status (int code)) type body ''SocksPort'' 9050 = (st, n)"
  shows "runs (run_main_loop L read_file getopt
      (\<lambda>_. followed_by (comes_up L arrive flush unique (app_client L) fuel (next_bev s) (250, CHR '' '', ''OK''))
        (line_exchange L arrive flush unique (app_client L) fuel (next_bev s) (code, type, body)))
      argv GetconfSocksPort) s
    (\<lambda>_ t. program_ended L (next_ctrl s) (next_bev s) t \<and>
       cout t = cout s @ status_line OK @ status_line st @ ''port: '' @ show_int n @ newline)"
proof (rule main_session.runs_main_start [where getopt = getopt, OF assms(1-4)])
  let ?c = "next_ctrl s" and ?h = "next_bev s" and ?k = "app_client L :: (app_cb, 'w, 'z main_st_ext) oc_client"
  fix t :: "(app_cb, 'w, 'z) main_st_scheme" and base p token
  assume t: "callbacks ?c ?h p None None (Some (ConnectEvent ?c (ConnAuth token ?c (MainDone GetconfSocksPort ?c)))) t"
    "content (world t) (bufferevent_get_input L p) = ''''"
    "map_option ctrl_evbase (ctrls t ?c) = Some base" "cout t = cout s"
  have "app_client L (MainDone GetconfSocksPort ?c) (VoidReply OK) =
      (followed_by (print (status_line OK)) (sendrecv L ?c (''GETCONF SOCKSPort'' @ crlf)
        (GetconfInt ''SocksPort'' 9050 (PortDone ?c))) :: ('w, 'z, unit) main_prog)"
    by (simp add: app_client_def getconf_socks_port_main_def getconf_socks_port_def)
  moreover have "run_line_clo ?k (GetconfInt ''SocksPort'' 9050 (PortDone ?c)) (reply_status (int code)) type body =
      followed_by (print (status_line st @ ''port: '' @ show_int n @ newline)) (close_and_break L ?c)"
    by (simp add: run_getconf_line assms(7) app_client_def port_done_def print_print)
  ultimately show "runs (followed_by (comes_up L arrive flush unique ?k fuel ?h (250, CHR '' '', ''OK''))
        (line_exchange L arrive flush unique ?k fuel ?h (code, type, body))) t
    (\<lambda>_ t. program_ended L ?c ?h t \<and>
       cout t = cout s @ status_line OK @ status_line st @ ''port: '' @ show_int n @ newline)"
    unfolding t(4) [symmetric] by (rule main_session.runs_one_command [OF assms(1) t(1-3) assms(5,6)])
qed

text \<open>
  C36: A program to which tor refuses the authentication prints the status and leaves the loop; only
  the one that does nothing else closes its connection, the others leave their closures, which keep
  the controller and its bufferevent alive.
\<close>

theorem refused_program:
  fixes s :: "(app_cb, 'w, 'z) main_st_scheme"
  assumes "main_session L content arrive flush unique"
    and "getopt argv ''A:f:p:t:'' = (options, length argv)" and "list_all option_ok options"
    and "endpoint_parses L options" and "2 \<le> fuel" and "wf_line (code, type, body)"
    and "void_status (reply_status (int code)) type = st" and "callback = Authenticate \<or> st \<noteq> OK"
  shows "runs (run_main_loop L read_file getopt
      (\<lambda>_. comes_up L arrive flush unique (app_client L) fuel (next_bev s) (code, type, body)) argv callback) s
    (\<lambda>_ t. cout t = cout s @ auth_text callback st \<and>
       (\<exists>x. ctrls t (next_ctrl s) = Some x \<and> loop_left L (ctrl_evbase x) t) \<and>
       (\<exists>p cb. callbacks (next_ctrl s) (next_bev s) p
          (if callback = Authenticate then None else Some (RecvRead (next_ctrl s) cb)) None
          (if callback = Authenticate then None else Some (RecvEvent cb)) t))"
proof (rule main_session.runs_main_start [where getopt = getopt, OF assms(1-4)])
  let ?c = "next_ctrl s" and ?h = "next_bev s"
  fix t :: "(app_cb, 'w, 'z) main_st_scheme" and base p token
  assume t: "callbacks ?c ?h p None None (Some (ConnectEvent ?c (ConnAuth token ?c (MainDone callback ?c)))) t"
    "content (world t) (bufferevent_get_input L p) = ''''"
    "map_option ctrl_evbase (ctrls t ?c) = Some base" "cout t = cout s"
  note refused = main_session.runs_refused [OF assms(1) t(1-3) assms(5-8)]
  show "runs (comes_up L arrive flush unique (app_client L) fuel (next_bev s) (code, type, body)) t
    (\<lambda>_ t. cout t = cout s @ auth_text callback st \<and>
       (\<exists>x. ctrls t (next_ctrl s) = Some x \<and> loop_left L (ctrl_evbase x) t) \<and>
       (\<exists>p cb. callbacks (next_ctrl s) (next_bev s) p
          (if callback = Authenticate then None else Some (RecvRead (next_ctrl s) cb)) None
          (if callback = Authenticate then None else Some (RecvEvent cb)) t))"
    by (rule runs_mono [OF refused]) (use t(4) in \<open>auto split: if_splits\<close>)
qed

theorem refused_program_witness:
  "runs (run_main_loop sim_libevent (\<lambda>_. None) (\<lambda>_ _. ([], 1))
      (\<lambda>_. comes_up sim_libevent sim_arrive sim_flush ctrl_unique (app_client sim_libevent) 2 0 (515, CHR '' '', ''no''))
      [''shutdown''] SignalShutdown) demo_main
    (\<lambda>_ t. cout t = status_line UNKNOWN_STATUS_ERROR \<and>
       (\<exists>p cb. callbacks 0 0 p (Some (RecvRead 0 cb)) None (Some (RecvEvent cb)) t))"
proof -
  have "void_status (reply_status (int 515)) (CHR '' '') = UNKNOWN_STATUS_ERROR" and "wf_line (515, CHR '' '', ''no'')"
    by (simp_all add: void_status_def reply_status_def wf_line_def)
  note refused = refused_program [OF sim_main.main_session_axioms _ _ sim_default_endpoint le_refl this(2,1),
      where getopt = "\<lambda>_ _. ([], 1)" and argv = "[''shutdown'']" and s = demo_main and read_file = "\<lambda>_. None"
        and callback = SignalShutdown, unfolded demo_main_simps]
  show ?thesis by (rule runs_mono [OF refused]) (auto simp: auth_text_def)
qed

text \<open>
  C35: The program that prints the notifications of tor: the acknowledgement of its command prints nothing,
  and each notification prints one line, its severity, its action and its arguments, in the order in
  which they come, for as long as they come.  There is no space between the action and the first
  argument.
\<close>

theorem events_program:
  fixes s :: "(app_cb, 'w, 'z) main_st_scheme"
  assumes "main_session L content arrive flush unique"
    and "getopt argv ''A:f:p:t:'' = (options, length argv)" and "list_all option_ok options"
    and "endpoint_parses L options" and "2 \<le> fuel" and "list_all status_client bodies"
  shows "runs (run_main_loop L read_file getopt
      (\<lambda>_. followed_by (comes_up L arrive flush unique (app_client L) fuel (next_bev s) (250, CHR '' '', ''OK''))
        (followed_by (line_exchange L arrive flush unique (app_client L) fuel (next_bev s) (250, CHR '' '', ''OK''))
          (run_all (\<lambda>body. handle_event L arrive flush unique (app_client L) fuel (next_bev s)
             (Readable (wire [(650, CHR '' '', body)]))) bodies)))
      argv SeteventsClientStatus) s
    (\<lambda>_ t. cout t = cout s @ status_line OK @ concat (map (\<lambda>body. let vec = tokenize body in
       vec ! 1 @ '' '' @ vec ! 2 @ concat (map (\<lambda>s. s @ '' '') (drop 3 vec)) @ newline) bodies))"
  unfolding event_text_def [symmetric]
proof (rule main_session.runs_main_start [where getopt = getopt, OF assms(1-4)])
  let ?c = "next_ctrl s" and ?h = "next_bev s" and ?k = "app_client L :: (app_cb, 'w, 'z main_st_ext) oc_client"
  fix t :: "(app_cb, 'w, 'z) main_st_scheme" and base p token
  assume t: "callbacks ?c ?h p None None (Some (ConnectEvent ?c (ConnAuth token ?c (MainDone SeteventsClientStatus ?c)))) t"
    "content (world t) (bufferevent_get_input L p) = ''''" "cout t = cout s"
  show "runs (followed_by (comes_up L arrive flush unique ?k fuel ?h (250, CHR '' '', ''OK''))
        (followed_by (line_exchange L arrive flush unique ?k fuel ?h (250, CHR '' '', ''OK''))
          (run_all (\<lambda>body. handle_event L arrive flush unique ?k fuel ?h
             (Readable (wire [(650, CHR '' '', body)]))) bodies))) t
    (\<lambda>_ t. cout t = cout s @ status_line OK @ concat (map event_text bodies))"
    using main_session.runs_events_program [OF assms(1) t(1,2) assms(5,6)] unfolding t(3) .
qed

theorem events_program_witness:
  "runs (run_main_loop sim_libevent (\<lambda>_. None) (\<lambda>_ _. ([], 1))
      (\<lambda>_. followed_by (comes_up sim_libevent sim_arrive sim_flush ctrl_unique (app_client sim_libevent) 2 0 (250, CHR '' '', ''OK''))
        (followed_by (line_exchange sim_libevent sim_arrive sim_flush ctrl_unique (app_client sim_libevent) 2 0 (250, CHR '' '', ''OK''))
          (run_all (\<lambda>body. handle_event sim_libevent sim_arrive sim_flush ctrl_unique (app_client sim_libevent) 2 0
             (Readable (wire [(650, CHR '' '', body)]))) [''STATUS_CLIENT NOTICE BOOTSTRAP PROGRESS=5 TAG=x'']))) [''events'']
      SeteventsClientStatus) demo_main
    (\<lambda>_ t. cout t = status_line OK @ ''NOTICE BOOTSTRAPPROGRESS=5 TAG=x '' @ newline)"
proof -
  have tok: "tokenize ''STATUS_CLIENT NOTICE BOOTSTRAP PROGRESS=5 TAG=x'' =
      [''STATUS_CLIENT'', ''NOTICE'', ''BOOTSTRAP'', ''PROGRESS=5'', ''TAG=x'']"
    by code_simp
  then have "list_all status_client [''STATUS_CLIENT NOTICE BOOTSTRAP PROGRESS=5 TAG=x'']"
    by (simp add: status_client_def)
  note events = events_program [OF sim_main.main_session_axioms _ _ sim_default_endpoint le_refl this,
      where getopt = "\<lambda>_ _. ([], 1)" and argv = "[''events'']" and s = demo_main and read_file = "\<lambda>_. None",
      unfolded demo_main_simps]
  show ?thesis by (rule runs_mono [OF events]) (simp_all add: tok)
qed

end
