(* ===== verification/Poller_Programs.thy ===== *)
theory Poller_Programs
  imports Stdout Poller_Session
begin

text \<open>
  The programs \<open>example/tor/onion-poller-stop.cpp\<close> and \<open>onion-poller-enable-disable.cpp\<close>, which run
  tor inside the process: the first stops it as soon as it has started, the second brings it on-line,
  takes it off-line, and stops it.  What they print is added to \<open>cout\<close>.
\<close>

section \<open>The programs\<close>

definition stop_main :: "('u, 'w, 'z) libtor \<Rightarrow> ('u, 'w, 'z, unit) poller_prog" where
  "stop_main T = loop T (\<lambda>poller. break_loop T poller)"

text \<open>The callbacks that the second program gives to \<open>enable_tor\<close> and to \<open>disable_tor\<close>.\<close>

datatype ed_cb =
    Enabled evbase
  | Disabled evbase

type_synonym 'z out_ext = "'z main_st_ext"

definition disable_done ::
  "(ed_cb, 'w, 'z out_ext) libtor \<Rightarrow> onion_status \<Rightarrow> evbase \<Rightarrow> (ed_cb, 'w, 'z out_ext, unit) poller_prog" where
  "disable_done T status poller =
     followed_by (print (''disable tor... '' @ show_int (onion_status_value status) @ newline)) (break_loop T poller)"

text \<open>
  The inner callback starts nothing, so it is the client that \<open>disable_tor\<close> needs in the outer one.
\<close>

definition disabled_user :: "(ed_cb, 'w, 'z out_ext) libtor \<Rightarrow> (ed_cb, 'w, 'z out_ext) poller_user" where
  "disabled_user T k r = (case (k, r) of
      (Disabled poller, VoidReply status) \<Rightarrow> disable_done T status poller
    | _ \<Rightarrow> raise (UndefinedBehaviour ''closure called before it is made''))"

definition enable_done ::
  "'w libevent \<Rightarrow> (ed_cb, 'w, 'z out_ext) libtor \<Rightarrow> onion_status \<Rightarrow> evbase \<Rightarrow>
   (ed_cb, 'w, 'z out_ext, unit) poller_prog" where
  "enable_done L T status poller =
     followed_by (print (''enable tor... '' @ show_int (onion_status_value status) @ newline))
       (if status \<noteq> OK then break_loop T poller
        else followed_by (print (''disable tor...'' @ newline))
          (disable_tor L T (disabled_user T) poller (Disabled poller)))"

definition ed_user :: "'w libevent \<Rightarrow> (ed_cb, 'w, 'z out_ext) libtor \<Rightarrow> (ed_cb, 'w, 'z out_ext) poller_user" where
  "ed_user L T k r = (case (k, r) of
      (Enabled poller, VoidReply status) \<Rightarrow> enable_done L T status poller
    | (Disabled poller, VoidReply status) \<Rightarrow> disable_done T status poller
    | _ \<Rightarrow> raise (UndefinedBehaviour ''closure called at another type''))"

definition enable_disable_main ::
  "'w libevent \<Rightarrow> (ed_cb, 'w, 'z out_ext) libtor \<Rightarrow> (ed_cb, 'w, 'z out_ext, unit) poller_prog" where
  "enable_disable_main L T =
     (let timeout = 5
      in loop T (\<lambda>poller. followed_by (print (''enable tor...'' @ newline))
           (enable_tor L T (ed_user L T) poller (Enabled poller) timeout)))"

section \<open>tor runs the program\<close>

text \<open>
  \<open>tor_main\<close> makes the call set with \<open>tor_on_started\<close>, and after that the events of its loop
  happen; those of one run are \<open>events\<close>.
\<close>

definition tor_runs ::
  "('u, 'w, 'z) libtor \<Rightarrow> ('u, 'w, 'z, unit) poller_prog \<Rightarrow> bool" where
  "tor_runs T events \<longleftrightarrow> tor_libevent_get_base T \<noteq> nullptr \<and>
     (\<forall>m. followed_by (tor_on_started T m)
        (tor_main T 7 [''tor'', ''ControlPort'', ''9051'', ''DisableNetwork'', ''1'', ''ConnLimit'', ''50'']) =
      followed_by m events)"

abbreviation tor_base :: "('u, 'w, 'z) libtor \<Rightarrow> evbase" where
  "tor_base T \<equiv> \<lparr>base_ptr = tor_libevent_get_base T, base_owned = False\<rparr>"

lemma loop_tor_runs:
  assumes "tor_runs T events"
  shows "loop T func = followed_by (func (tor_base T)) events"
  using assms
  by (simp add: tor_runs_def loop_def mk_onion_poller_cb_def EventBase_assign_def andthen_ret)

text \<open>The code only sees of tor, once it runs, how to leave its loop.\<close>

lemma poller_client_cong:
  "tor_break_loop T = tor_break_loop T' \<Longrightarrow> poller_client L T = poller_client L T'"
  by (intro ext) (simp add: poller_client_def split: poller_cb.split reply.split)

lemma ed_user_cong:
  assumes "tor_break_loop T = tor_break_loop T'"
  shows "ed_user L T = ed_user L T'"
proof -
  have last: "disable_done T = disable_done T'"
    by (intro ext) (simp add: disable_done_def break_loop_def assms)
  then have "disabled_user T = disabled_user T'"
    by (intro ext) (simp add: disabled_user_def last split: ed_cb.split reply.split)
  with last assms show ?thesis
    by (intro ext)
      (simp add: ed_user_def enable_done_def disable_tor_def break_loop_def poller_client_cong [OF assms]
        split: ed_cb.split reply.split)
qed

end
