(* ===== verification/Poller_Programs_Props.thy ===== *)
theory Poller_Programs_Props
  imports Poller_Programs Poller_Props
begin

text \<open>
  Whole runs of the programs \<open>onion-poller-stop.cpp\<close> and \<open>onion-poller-enable-disable.cpp\<close>, from
  \<open>main\<close> to the end of the loop of tor.
\<close>

section \<open>A program that uses the poller\<close>

locale tor_session = poller_calls L content arrive flush T user unique fuel
  for L :: "'w libevent" and content :: "'w \<Rightarrow> cptr \<Rightarrow> string"
    and arrive :: "cptr \<Rightarrow> string \<Rightarrow> 'w \<Rightarrow> 'w" and flush :: "cptr \<Rightarrow> 'w \<Rightarrow> 'w"
    and T :: "('u, 'w, 'z) libtor" and user :: "('u, 'w, 'z) poller_user"
    and unique :: "nat \<Rightarrow> ('u poller_cb, 'w, 'z) ocst_scheme \<Rightarrow> bool" and fuel :: nat +
  fixes stopped :: "'w \<Rightarrow> bool"
  assumes tor_stops: "runs (tor_break_loop T) s
    (\<lambda>_ t. \<exists>w. t = s\<lparr>world := w\<rparr> \<and> content w = content (world s) \<and> stopped w)"
begin

lemma runs_break_loop:
  assumes "attached c h p s" and "inbuf p s = ''''"
    and "\<And>w. stopped w \<Longrightarrow> P () (s\<lparr>world := w\<rparr>)"
  shows "runs (break_loop T poller) s (\<lambda>_ t. attached c h p t \<and> inbuf p t = '''' \<and> P () t)"
  unfolding break_loop_def
  by (rule runs_mono [OF tor_stops]) (use assms in auto)

text \<open>A controller stays as it is while another one is made and starts to connect.\<close>

lemma started_attached:
  assumes "started s t" and "attached c h p s" and "c \<noteq> next_ctrl s" and "h \<noteq> next_bev s"
  shows "attached c h p t"
  using assms by (auto simp: started_def attached_def)

end

section \<open>The program that enables and disables tor\<close>

locale enable_disable = tor_session L content arrive flush T "ed_user L T" unique fuel stopped
  for L :: "'w libevent" and content :: "'w \<Rightarrow> cptr \<Rightarrow> string"
    and arrive :: "cptr \<Rightarrow> string \<Rightarrow> 'w \<Rightarrow> 'w" and flush :: "cptr \<Rightarrow> 'w \<Rightarrow> 'w"
    and T :: "(ed_cb, 'w, 'z main_st_ext) libtor"
    and unique :: "nat \<Rightarrow> (ed_cb poller_cb, 'w, 'z main_st_ext) ocst_scheme \<Rightarrow> bool" and fuel :: nat
    and stopped :: "'w \<Rightarrow> bool"
begin

lemma status_250: "show_int 250 = ''250''"
  by code_simp

lemma cout_started:
  fixes s t :: "(ed_cb poller_cb, 'w, 'z) main_st_scheme"
  shows "started s t \<Longrightarrow> cout t = cout s"
  by (rule cout_more) (simp add: started_def)

lemma runs_enabled:
  fixes s :: "(ed_cb poller_cb, 'w, 'z) main_st_scheme"
  assumes "endpoint_ok" and "attached c h p s" and "inbuf p s = ''''"
    and "c < next_ctrl s" and "h < next_bev s"
  shows "runs (ed_user L T (Enabled poller) (VoidReply OK)) s
    (\<lambda>_ t. attached c h p t \<and> inbuf p t = '''' \<and>
       cout t = cout s @ ''enable tor... 250'' @ newline @ ''disable tor...'' @ newline \<and>
       (\<exists>q. connecting (next_ctrl s) (next_bev s) q '''' (DisableAuthed (next_ctrl s) (Disabled poller)) t \<and>
          inbuf q t = '''' \<and> outbuf q t = ''''))"
proof -
  let ?x = "''enable tor... 250'' @ newline @ ''disable tor...'' @ newline"
  let ?s = "s\<lparr>cout := cout s @ ?x\<rparr>"
  have call: "ed_user L T (Enabled poller) (VoidReply OK) =
      followed_by (print ?x) (disable_tor L T (disabled_user T) poller (Disabled poller))"
    by (simp add: ed_user_def enable_done_def print_print status_250)
  have att: "attached c h p ?s" using assms(2) by simp
  show ?thesis
    unfolding call disable_tor_def runs_andthen [of "print _"] runs_print
  proof (rule runs_mono [OF poller_calls.runs_started [OF poller_calls_axioms assms(1)]], elim conjE exE)
    fix t q
    assume t: "started ?s t" and q: "connecting (next_ctrl ?s) (next_bev ?s) q ''''
        (DisableAuthed (next_ctrl ?s) (Disabled poller)) t" "inbuf q t = ''''" "outbuf q t = ''''"
    show "attached c h p t \<and> inbuf p t = '''' \<and> cout t = cout s @ ?x \<and>
       (\<exists>q. connecting (next_ctrl s) (next_bev s) q '''' (DisableAuthed (next_ctrl s) (Disabled poller)) t \<and>
          inbuf q t = '''' \<and> outbuf q t = '''')"
      using q started_attached [OF t att] cout_started [OF t] t assms by (auto simp: started_def)
  qed
qed

lemma runs_disabled:
  fixes s :: "(ed_cb poller_cb, 'w, 'z) main_st_scheme"
  assumes "attached c h p s" and "inbuf p s = ''''"
  shows "runs (ed_user L T (Disabled poller) (VoidReply OK)) s
    (\<lambda>_ t. attached c h p t \<and> inbuf p t = '''' \<and>
       cout t = cout s @ ''disable tor... 250'' @ newline \<and> stopped (world t))"
proof -
  let ?s = "s\<lparr>cout := cout s @ ''disable tor... 250'' @ newline\<rparr>"
  have call: "ed_user L T (Disabled poller) (VoidReply OK) =
      followed_by (print (''disable tor... 250'' @ newline)) (break_loop T poller)"
    by (simp add: ed_user_def disable_done_def status_250)
  have "attached c h p ?s" "inbuf p ?s = ''''" using assms by simp_all
  then show ?thesis
    unfolding call runs_andthen runs_print by (rule runs_break_loop) simp
qed

text \<open>
  The whole program: tor goes on-line while the polls \<open>ns\<close> and the one after them are made, and then
  off-line over a new connection.
\<close>

lemma runs_enable_disable:
  fixes s :: "(ed_cb poller_cb, 'w, 'z) main_st_scheme"
  assumes "endpoint_ok" and "3 \<le> fuel" and "\<forall>n \<in> set ns. n < 1000 \<and> n \<noteq> 100" and "length ns < 5"
    and "tor_runs T (followed_by (followed_by (sets_network (next_bev s) False) (run_all (poll (next_bev s)) (ns @ [100])))
      (sets_network (Suc (next_bev s)) True))"
  shows "runs (enable_disable_main L T) s
    (\<lambda>_ t. stopped (world t) \<and>
       cout t = cout s @ ''enable tor...'' @ newline @ ''enable tor... 250'' @ newline @
         ''disable tor...'' @ newline @ ''disable tor... 250'' @ newline)"
proof -
  let ?s = "s\<lparr>cout := cout s @ ''enable tor...'' @ newline\<rparr>" and ?P = "\<lambda>t. stopped (world t) \<and>
       cout t = cout s @ ''enable tor...'' @ newline @ ''enable tor... 250'' @ newline @
         ''disable tor...'' @ newline @ ''disable tor... 250'' @ newline"
  let ?c = "next_ctrl s" and ?h = "next_bev s" and ?E = "Enabled (tor_base T)"
  have len: "length ns < unat (5 :: u32)" using assms(4) by simp
  have "runs (followed_by (enable_tor L T (ed_user L T) (tor_base T) ?E 5)
      (followed_by (sets_network (next_bev ?s) False) (run_all (poll (next_bev ?s)) (ns @ [100])))) ?s
      (\<lambda>_ t. runs (sets_network (Suc ?h) True) t (\<lambda>_. ?P))"
  proof (rule runs_enable_then [OF assms(1-3) len])
    fix v y :: "(ed_cb poller_cb, 'w, 'z) main_st_scheme" and p
    assume v: "started ?s v" "steady v y" "cleared (next_ctrl ?s) (next_bev ?s) p y" "inbuf p y = ''''"
    have y: "next_ctrl y = Suc ?c" "next_bev y = Suc ?h" "cout y = cout ?s"
      using v(1,2) cout_started [OF v(1)] cout_steady [OF v(2)] by (simp_all add: started_def steady_def)
    have att: "attached ?c ?h p y" using v(3) by (simp add: callbacks_attached)
    have less: "?c < next_ctrl y" "?h < next_bev y" using y by simp_all
    have rest: "runs (sets_network (Suc ?h) True) t (\<lambda>_. ?P)"
      if t: "connecting (Suc ?c) (Suc ?h) q '''' (DisableAuthed (Suc ?c) (Disabled (tor_base T))) t"
        "inbuf q t = ''''" "outbuf q t = ''''" "cout t = cout y @ ''enable tor... 250'' @ newline @ ''disable tor...'' @ newline"
      for t :: "(ed_cb poller_cb, 'w, 'z) main_st_scheme" and q
    proof (rule runs_disabling [OF t(1-3)])
      show "2 \<le> fuel" using assms(2) by simp
      fix x :: "(ed_cb poller_cb, 'w, 'z) main_st_scheme"
      assume x: "silent t x" "cleared (Suc ?c) (Suc ?h) q x" "inbuf q x = ''''"
      show "runs (ed_user L T (Disabled (tor_base T)) (VoidReply OK)) x
          (\<lambda>_ z. attached (Suc ?c) (Suc ?h) q z \<and> inbuf q z = '''' \<and> ?P z)"
        by (rule runs_mono [OF runs_disabled [OF callbacks_attached [OF x(2)] x(3)]])
          (use t(4) y(3) cout_silent [OF x(1)] in simp)
    qed
    show "runs (ed_user L T ?E (VoidReply OK)) y (\<lambda>_ t. attached (next_ctrl ?s) (next_bev ?s) p t \<and> inbuf p t = '''' \<and>
        runs (sets_network (Suc ?h) True) t (\<lambda>_. ?P))"
    proof (rule runs_mono [OF runs_enabled [OF assms(1) att v(4) less]], elim conjE exE, intro conjI)
      fix t :: "(ed_cb poller_cb, 'w, 'z) main_st_scheme" and q
      assume "connecting (next_ctrl y) (next_bev y) q '''' (DisableAuthed (next_ctrl y) (Disabled (tor_base T))) t"
        "inbuf q t = ''''" "outbuf q t = ''''"
        "cout t = cout y @ ''enable tor... 250'' @ newline @ ''disable tor...'' @ newline"
      then show "runs (sets_network (Suc ?h) True) t (\<lambda>_. ?P)" unfolding y(1,2) by (rule rest)
    qed simp_all
  qed
  then show ?thesis
    unfolding enable_disable_main_def Let_def loop_tor_runs [OF assms(5)] andthen_assoc
      runs_andthen [of "print _"] runs_print
    by (simp add: runs_andthen)
qed

end

section \<open>Properties\<close>

abbreviation ed_client :: "'w libevent \<Rightarrow> (ed_cb, 'w, 'z out_ext) libtor \<Rightarrow> (ed_cb poller_cb, 'w, 'z out_ext) oc_client" where
  "ed_client L T \<equiv> poller_client L T (ed_user L T)"

text \<open>
  C13: The program that brings tor on-line and takes it off-line, from \<open>main\<close> to the end of the loop of
  tor.  tor accepts the authentication and the commands on both connections, and reports phase 100
  at the fifth poll at the latest.  Then the program prints four lines, in that order, with the
  status 250 twice, and tells tor to leave its loop.  What tor reads is exactly the authentication,
  \<open>SETCONF DisableNetwork=0\<close> and the queries on the first connection, and the authentication and
  \<open>SETCONF DisableNetwork=1\<close> on the second.
\<close>

theorem enable_disable_program:
  fixes s :: "(ed_cb poller_cb, 'w, 'z) main_st_scheme" and T :: "(ed_cb, 'w, 'z main_st_ext) libtor"
  assumes "enable_disable L content arrive flush T unique stopped" and "local_endpoint_parses L" and "3 \<le> fuel"
    and "\<forall>n \<in> set ns. n < 1000 \<and> n \<noteq> 100" and "length ns < 5"
    and "tor_runs T (followed_by
      (followed_by (setting_network L content arrive flush unique (ed_client L T) fuel (next_bev s) False)
         (run_all (phase_poll L content arrive flush unique (ed_client L T) fuel (next_bev s)) (ns @ [100])))
      (setting_network L content arrive flush unique (ed_client L T) fuel (Suc (next_bev s)) True))"
  shows "runs (enable_disable_main L T) s
    (\<lambda>_ t. stopped (world t) \<and>
       cout t = cout s @ ''enable tor...'' @ newline @ ''enable tor... 250'' @ newline @
         ''disable tor...'' @ newline @ ''disable tor... 250'' @ newline)"
  using enable_disable.runs_enable_disable [OF assms] .

text \<open>A tor whose loop consists of given events, and whose world notes that it has been told to stop.\<close>

definition stopping_tor :: "('u, simw, 'z, unit) poller_prog \<Rightarrow> ('u, simw, 'z) libtor" where
  "stopping_tor events = \<lparr>tor_on_started = (\<lambda>m. m), tor_main = (\<lambda>_ _. events),
     tor_break_loop = lib (\<lambda>w. ((), w\<lparr>sim_onces := [7]\<rparr>)), tor_libevent_get_base = 1\<rparr>"

lemma stopping_tor_runs: "tor_runs (stopping_tor events) events"
  by (simp add: tor_runs_def stopping_tor_def)

interpretation sim_ed: enable_disable sim_libevent sim_content sim_arrive sim_flush "stopping_tor events"
  ctrl_unique fuel "\<lambda>w. sim_onces w = [7]" for events fuel
  by unfold_locales
    (auto simp: stopping_tor_def runs_lib ctrl_unique_counts sim_content_def sim_chain_def fun_eq_iff
      intro!: exI [of _ "_\<lparr>sim_onces := [7]\<rparr>"])

definition demo_ed :: "(ed_cb poller_cb, simw) main_st" where
  "demo_ed = \<lparr>world = sim_empty, bevs = Map.empty, next_bev = 0, onces = Map.empty,
     next_once = 0, strings = (\<lambda>_. ''''), flags = (\<lambda>_. False), verbose = False, clog = '''',
     ssl_singleton = None, ctrls = Map.empty, next_ctrl = 0, results = (\<lambda>_. ''''), next_result = 0,
     expecteds = (\<lambda>_. OK), next_expected = 0, cout = ''''\<rparr>"

lemma demo_ed_simps: "next_bev demo_ed = 0" "cout demo_ed = ''''"
  by (simp_all add: demo_ed_def)

text \<open>The events of one run: phases 10 and 100, and then the second connection.\<close>

definition ed_events ::
  "(ed_cb, simw, unit main_st_ext) libtor \<Rightarrow> (ed_cb, simw, unit main_st_ext, unit) poller_prog" where
  "ed_events T = followed_by
     (followed_by (setting_network sim_libevent sim_content sim_arrive sim_flush ctrl_unique (ed_client sim_libevent T) 3 0 False)
       (run_all (phase_poll sim_libevent sim_content sim_arrive sim_flush ctrl_unique (ed_client sim_libevent T) 3 0) ([10] @ [100])))
     (setting_network sim_libevent sim_content sim_arrive sim_flush ctrl_unique (ed_client sim_libevent T) 3 (Suc 0) True)"

lemma ed_events_cong:
  assumes "tor_break_loop T = tor_break_loop T'"
  shows "ed_events T = ed_events T'"
  unfolding ed_events_def poller_client_cong [OF assms] ed_user_cong [OF assms] ..

theorem enable_disable_program_witness:
  "runs (enable_disable_main sim_libevent (stopping_tor (ed_events (stopping_tor (ret ()))))) demo_ed
    (\<lambda>_ t. cout t = ''enable tor...'' @ newline @ ''enable tor... 250'' @ newline @
         ''disable tor...'' @ newline @ ''disable tor... 250'' @ newline)"
proof -
  define T where "T = stopping_tor (ed_events (stopping_tor (ret ())))"
  have ns: "\<forall>n \<in> set [10]. n < 1000 \<and> n \<noteq> (100 :: nat)" and len: "length [10 :: nat] < 5" by simp_all
  have "ed_events (stopping_tor (ret ())) = ed_events T"
    by (rule ed_events_cong) (simp add: T_def stopping_tor_def)
  then have "tor_runs T (ed_events T)" using stopping_tor_runs unfolding T_def by metis
  note tor = this [unfolded ed_events_def]
  have "enable_disable sim_libevent sim_content sim_arrive sim_flush T ctrl_unique (\<lambda>w. sim_onces w = [7])"
    unfolding T_def by (rule sim_ed.enable_disable_axioms)
  note r = enable_disable_program [OF this sim_endpoint_parses le_refl ns len, where s = demo_ed, unfolded demo_ed_simps,
      OF tor]
  show ?thesis unfolding T_def [symmetric] by (rule runs_mono [OF r]) simp
qed

text \<open>The other program tells tor to leave its loop, and does nothing else.\<close>

lemma stop_program:
  assumes "tor_runs T events"
  shows "stop_main T = followed_by (tor_break_loop T) events"
  by (simp add: stop_main_def break_loop_def loop_tor_runs [OF assms])

end
