(* ===== verification/Evhelpers_Programs.thy ===== *)
theory Evhelpers_Programs
  imports Evhelpers
begin

text \<open>
  The programs \<open>example/common/evhelpers-bufferevent-get.cpp\<close>, \<open>-get-ssl.cpp\<close> and \<open>-echo.cpp\<close>: the first two
  ask a server for a document, over TCP and over TLS, and print it; the third accepts one connection
  and sends back what it receives.  What they print is added to \<open>stdout\<close>.
\<close>

section \<open>State and closures\<close>

record ('c, 'w) out_st = "('c, 'w) ehst" +
  stdout :: string

type_synonym ('c, 'w, 'z, 'a) out_prog = "(('c, 'w, 'z) out_st_scheme, exn, 'a) prog"

definition print_out :: "string \<Rightarrow> ('c, 'w, 'z, unit) out_prog" where
  "print_out x = modify (\<lambda>s. s\<lparr>stdout := stdout s @ x\<rparr>)"

text \<open>
  The closures that the programs give to the helpers.  \<open>Connected\<close> has the base, the request and the
  address of the string to collect in; \<open>Done\<close> is the same closure in all three.
\<close>

datatype transfer_cb =
    Connected evbase string nat
  | Done evbase
  | Accepted

type_synonym ('w, 'z, 'a) transfer_prog = "(transfer_cb eh_clo, 'w, 'z, 'a) out_prog"

definition transfer_client :: "'w libevent \<Rightarrow> (transfer_cb, transfer_cb eh_clo, 'w, 'z out_st_ext) eh_client" where
  "transfer_client L k a = (case (k, a) of
      (Connected base request outp, BevArg bev) \<Rightarrow> sendrecv L id bev request (Done base) (Some outp) None False
    | (Done base, NoArg) \<Rightarrow> break_soon L id base
    | (Accepted, ConnArg base conn) \<Rightarrow>
        (let tv = \<lparr>tv_sec = 7, tv_usec = 7\<rparr>
         in andthen (socket_new L base conn (BEV_OPT_CLOSE_ON_FREE L))
              (\<lambda>bev. sendrecv L id bev '''' (Done base) None (Some tv) True))
    | _ \<Rightarrow> raise (UndefinedBehaviour ''closure called at another type''))"

section \<open>The programs\<close>

text \<open>The local variable \<open>out\<close> of the programs is the string at address 0.\<close>

definition new_out :: "('c, 'w, 'z, unit) eh_prog" where
  "new_out = modify (\<lambda>s. s\<lparr>strings := (strings s)(0 := '''')\<rparr>)"

definition be_verbose :: "('c, 'w, 'z, unit) eh_prog" where
  "be_verbose = modify (\<lambda>s. s\<lparr>verbose := True\<rparr>)"

text \<open>\<open>dispatch\<close> is the event loop: \<open>EventBase::dispatch\<close> together with the callbacks it runs.\<close>

definition get_main :: "'w libevent \<Rightarrow> (evbase \<Rightarrow> ('w, 'z, unit) transfer_prog) \<Rightarrow> ('w, 'z, unit) transfer_prog" where
  "get_main L dispatch =
     followed_by be_verbose
       (followed_by new_out
         (andthen (EventBase_create L)
           (\<lambda>base. followed_by
              (connect L id base ''130.192.181.193:80'' (UserBev (Connected base (''GET /'' @ crlf) 0)) None)
              (followed_by (dispatch base)
                (andthen (gets (\<lambda>s. strings s 0)) (\<lambda>out. print_out (out @ newline)))))))"

record get_opts =
  get_address :: string
  get_path :: string
  get_port :: string

definition default_get_opts :: get_opts where
  "default_get_opts = \<lparr>get_address = ''130.192.181.193'', get_path = ''/'', get_port = ''443''\<rparr>"

definition get_usage :: "string \<Rightarrow> ('w, 'z, 'a) transfer_prog" where
  "get_usage progname =
     followed_by (print_clog (''usage: '' @ progname @ '' [-A address] [-p port] [path]'' @ newline))
       (raise (ProcessExit 1))"

fun read_get_options :: "string \<Rightarrow> (char \<times> string) list \<Rightarrow> get_opts \<Rightarrow> ('w, 'z, get_opts) transfer_prog" where
  "read_get_options progname [] opts = ret opts"
| "read_get_options progname ((ch, optarg) # rest) opts =
     (if ch = CHR ''A'' then read_get_options progname rest (opts\<lparr>get_address := optarg\<rparr>)
      else if ch = CHR ''p'' then read_get_options progname rest (opts\<lparr>get_port := optarg\<rparr>)
      else get_usage progname)"

definition get_ssl_main ::
  "'w libevent \<Rightarrow> 'w sys \<Rightarrow> getopt \<Rightarrow> (evbase \<Rightarrow> ('w, 'z, unit) transfer_prog) \<Rightarrow> string list \<Rightarrow>
   ('w, 'z, unit) transfer_prog" where
  "get_ssl_main L S getopt dispatch argv =
     (let progname = hd argv; (options, optind) = getopt argv ''A:p:''
      in andthen (read_get_options progname options default_get_opts)
        (\<lambda>opts. let args = drop optind argv
           in if length args \<noteq> 0 \<and> length args \<noteq> 1 then get_usage progname
              else let path = (if length args = 1 then hd args else get_path opts);
                endpoint = get_address opts @ '':'' @ get_port opts
              in followed_by be_verbose
                (followed_by new_out
                  (andthen (EventBase_create L)
                    (\<lambda>base. andthen (SslContext_get S)
                      (\<lambda>context. followed_by
                         (ssl_connect L id base endpoint context (Connected base (''GET '' @ path @ crlf) 0) None None)
                         (followed_by (dispatch base)
                           (andthen (gets (\<lambda>s. strings s 0)) (\<lambda>out. print_out (out @ newline))))))))))"

definition echo_main ::
  "'w libevent \<Rightarrow> 'w sys \<Rightarrow> (evbase \<Rightarrow> ('w, 'z, int) transfer_prog) \<Rightarrow> ('w, 'z, unit) transfer_prog" where
  "echo_main L S dispatch = listen_once_and_dispatch L id S dispatch Accepted"

section \<open>How they begin and end\<close>

lemma runs_new_out:
  fixes s :: "('c, 'w, 'z) out_st_scheme"
  shows "runs (followed_by be_verbose (followed_by new_out (andthen (EventBase_create L) m))) s P \<longleftrightarrow>
    runs (EventBase_create L) (s\<lparr>verbose := True, strings := (strings s)(0 := '''')\<rparr>) (\<lambda>base t. runs (m base) t P)"
  by (simp add: be_verbose_def new_out_def runs_andthen runs_modify)

lemma runs_print_result:
  fixes s :: "('c, 'w, 'z) out_st_scheme"
  shows "runs (andthen (gets (\<lambda>s. strings s 0)) (\<lambda>out. print_out (out @ newline))) s P \<longleftrightarrow>
    P () (s\<lparr>stdout := stdout s @ strings s 0 @ newline\<rparr>)"
  by (simp add: print_out_def runs_andthen runs_gets runs_modify)

lemma stdout_more:
  fixes s t :: "('c, 'w, 'z) out_st_scheme"
  shows "ehst.more t = ehst.more s \<Longrightarrow> stdout t = stdout s"
  by (cases s; cases t) simp

text \<open>What the fields of the record hold, when libevent's part of the state is all that has changed.\<close>

lemma more_out:
  fixes s t :: "('c, 'w, 'z) out_st_scheme"
  assumes "evst.more t = evst.more s"
  shows "strings t = strings s \<and> stdout t = stdout s \<and> ehst.more t = ehst.more s"
  using assms by (cases s; cases t) simp

end
