(* ===== verification/Fetching.thy ===== *)
theory Fetching
  imports Evhelpers_Session
begin

text \<open>
  A program that fetches a document with \<open>evhelpers::sendrecv\<close>: what happens while its loop runs, whatever
  the classes it uses besides.  The server reads the request and answers it in pieces, the connection
  ends, the callback of the transfer is called; the timer that \<open>break_soon\<close> sets ends the loop.
\<close>

section \<open>Events\<close>

text \<open>The first timer whose closure ends the loop fires; \<open>breaks\<close> says which closures do.\<close>

definition ends_loop :: "('c \<Rightarrow> bool) \<Rightarrow> ('c, 'w, 'z) evst_scheme \<Rightarrow> nat \<Rightarrow> bool" where
  "ends_loop breaks s n = (case onces s n of Some (Once c) \<Rightarrow> breaks c | _ \<Rightarrow> False)"

definition leave_loop ::
  "'w libevent \<Rightarrow> (nat \<Rightarrow> ('c, 'w, 'z) evst_scheme \<Rightarrow> bool) \<Rightarrow> ('c \<Rightarrow> u16 \<Rightarrow> ('c, 'w, 'z, unit) ev_prog) \<Rightarrow>
   ('c \<Rightarrow> bool) \<Rightarrow> ('c, 'w, 'z, unit) ev_prog" where
  "leave_loop L unique run breaks = andthen (gets (\<lambda>s. List.find (ends_loop breaks s) [0..<next_once s]))
     (\<lambda>r. case r of
        None \<Rightarrow> raise (UndefinedBehaviour ''not as expected'')
      | Some n \<Rightarrow> mk_libevent_event_cb L unique run (EV_TIMEOUT L) n)"

definition ending :: "('c \<Rightarrow> bool) \<Rightarrow> ('c, 'w, 'z) evst_scheme \<Rightarrow> bool" where
  "ending breaks s \<longleftrightarrow> (\<exists>n < next_once s. ends_loop breaks s n)"

context bufferevent_api
begin

lemma ignored_ending:
  assumes "ignored h s t" and "ending breaks s"
  shows "ending breaks t"
proof -
  from assms(2) obtain n where "n < next_once s" "ends_loop breaks s n" by (auto simp: ending_def)
  with assms(1) have "n < next_once t \<and> ends_loop breaks t n" by (auto simp: ignored_def ends_loop_def)
  then show ?thesis by (auto simp: ending_def)
qed

end

definition breaks_loop :: "'k eh_clo \<Rightarrow> bool" where
  "breaks_loop c = (case c of BreakLoop _ \<Rightarrow> True | _ \<Rightarrow> False)"

section \<open>A transfer\<close>

text \<open>The transfer is open, and the server has not read the request yet.\<close>

abbreviation sent :: "string \<Rightarrow> xf" where
  "sent request \<equiv> \<lparr>xf_phase = Open, xf_in = '''', xf_out = request, xf_str = ''''\<rparr>"

text \<open>The transfer has ended, with the reply \<open>x\<close>.\<close>

abbreviation answered :: "string \<Rightarrow> xf" where
  "answered x \<equiv> \<lparr>xf_phase = Closed, xf_in = '''', xf_out = '''', xf_str = x\<rparr>"

context eh_calls
begin

lemma runs_server_reads:
  assumes "matches h p k out echo a s" and "xf_phase a = Open"
  shows "runs (server_reads h (xf_out a)) s (\<lambda>_ t. matches h p k out echo (a\<lparr>xf_out := ''''\<rparr>) t \<and> same_rest s t)"
proof -
  have "output_is L content h (xf_out a) s"
    using assms(1) by (auto simp: output_is_def matches_def eh_callbacks_def)
  moreover have step: "xf_step (out \<noteq> None) echo Writable a = a\<lparr>xf_out := ''''\<rparr>"
    using assms(2) by (cases a) simp
  have "runs (handle h Writable) s (\<lambda>_ t. matches h p k out echo (a\<lparr>xf_out := ''''\<rparr>) t \<and> same_rest s t)"
    by (rule runs_writable_then [OF assms(1)], unfold step)
      (use assms(2) in \<open>auto simp: matches_ignored more_ignored dest: matches_bev simp del: not_None_eq\<close>)
  ultimately show ?thesis by (simp add: runs_andthen runs_expects)
qed

text \<open>From the request to the call of the callback.\<close>

lemma runs_answered_then:
  assumes "matches h p k (Some x) False (sent request) s"
    and call: "\<And>t. matches h p k (Some x) False (answered (concat pieces)) t \<Longrightarrow> same_rest s t \<Longrightarrow>
      runs (client k NoArg) t (\<lambda>_. Q)"
    and stable: "\<And>t u. Q t \<Longrightarrow> ignored h t u \<Longrightarrow> Q u" "\<And>t. Q t \<Longrightarrow> bevs t h \<noteq> None"
  shows "runs (followed_by (server_reads h request)
      (followed_by (run_all (handle h) (map Readable pieces)) (handle h (Event what)))) s (\<lambda>_. Q)"
proof -
  let ?a = "xf_run True False (map Readable pieces) (sent '''')"
  have a: "xf_phase ?a = Open" "xf_in ?a = ''''" "xf_out ?a = ''''" "xf_str ?a = concat pieces"
    by (auto simp: xf_run_collects)
  have closed: "xf_step True False (Event what) ?a = answered (concat pieces)"
    by (auto simp: xf_run_collects)
  have call': "to_call ?a (answered (concat pieces))" using a(1) by (simp add: to_call_def)
  have start: "runs (server_reads h request) s (\<lambda>_ t. matches h p k (Some x) False (sent '''') t \<and> same_rest s t)"
    using runs_server_reads [OF assms(1)] by simp
  show ?thesis
  proof (subst runs_andthen, rule runs_mono [OF start])
    fix t
    assume "matches h p k (Some x) False (sent '''') t \<and> same_rest s t"
    then have t: "matches h p k (Some x) False (sent '''') t" "same_rest s t" by simp_all
    have reads: "runs (run_all (handle h) (map Readable pieces)) t
        (\<lambda>_ u. matches h p k (Some x) False ?a u \<and> same_rest t u)"
      using runs_transfers [OF t(1), of "map Readable pieces"] by auto
    show "runs (followed_by (run_all (handle h) (map Readable pieces)) (handle h (Event what))) t (\<lambda>_. Q)"
    proof (subst runs_andthen, rule runs_mono [OF reads])
      fix u
      assume "matches h p k (Some x) False ?a u \<and> same_rest t u"
      then have u: "matches h p k (Some x) False ?a u" "same_rest t u" by simp_all
      show "runs (handle h (Event what)) u (\<lambda>_. Q)"
        by (rule runs_event_then [OF u(1) _ _ stable]) (use call' call t(2) u(2) in \<open>simp_all add: closed del: xf_step.simps\<close>)
    qed
  qed
qed

end

section \<open>The end of the loop\<close>

locale fetching =
  loop_env L content arrive flush +
  eh_calls L content arrive flush ssl_pending fuel run run_event unique clo S client
  for L :: "'w libevent" and content :: "'w \<Rightarrow> cptr \<Rightarrow> string"
    and arrive :: "cptr \<Rightarrow> string \<Rightarrow> 'w \<Rightarrow> 'w" and flush :: "cptr \<Rightarrow> 'w \<Rightarrow> 'w"
    and ssl_pending :: "'w \<Rightarrow> cptr \<Rightarrow> nat list" and fuel :: nat
    and run :: "'c \<Rightarrow> ('c, 'w, 'z, unit) eh_prog" and run_event :: "'c \<Rightarrow> u16 \<Rightarrow> ('c, 'w, 'z, unit) eh_prog"
    and unique :: "nat \<Rightarrow> ('c, 'w, 'z) ehst_scheme \<Rightarrow> bool"
    and clo :: "'k eh_clo \<Rightarrow> 'c" and S :: "'w sys" and client :: "('k, 'c, 'w, 'z) eh_client" +
  fixes breaks :: "'c \<Rightarrow> bool"
  assumes breaks_clo: "breaks (clo (BreakLoop base))"
    and breaksD: "breaks c \<Longrightarrow> \<exists>base. c = clo (BreakLoop base)"
begin

abbreviation leave :: "('c, 'w, 'z, unit) eh_prog" where
  "leave \<equiv> leave_loop L unique run_event breaks"

lemma runs_leave:
  assumes "ending breaks s"
  shows "runs leave s (\<lambda>_ t. (\<exists>base. loop_left L base t) \<and> strings t = strings s \<and> same_rest s t \<and> bevs t = bevs s)"
proof -
  have "List.find (ends_loop breaks s) [0..<next_once s] \<noteq> None"
    using assms by (auto simp: ending_def find_None_iff)
  then obtain n where n: "List.find (ends_loop breaks s) [0..<next_once s] = Some n" by auto
  then have "ends_loop breaks s n" by (auto simp: find_Some_iff)
  then obtain base where base: "onces s n = Some (Once (clo (BreakLoop base)))"
    by (auto simp: ends_loop_def dest!: breaksD split: option.splits once_clo.splits)
  show ?thesis
    unfolding leave_loop_def
    by (simp add: runs_andthen runs_gets n base mk_libevent_event_cb_def run_once_clo_def run_event_clo run_eh_event_def
        delete_once_def runs_modify, rule runs_loopbreak) (auto simp: loop_left_def)
qed

lemma runs_break_ending:
  assumes "matches h p k out echo a s"
  shows "runs (break_soon L clo base) s (\<lambda>_ t. ending breaks t \<and> matches h p k out echo a t \<and> same_rest s t)"
  by (rule runs_break_soon) (use assms in \<open>auto simp: ending_def ends_loop_def matches_def breaks_clo\<close>)

text \<open>The event that closes a transfer sets the timer, when the callback of the transfer does.\<close>

lemma runs_closing:
  assumes "matches h p k out echo a s" and "out \<noteq> None \<or> xf_drained a"
    and "to_call a (xf_step (out \<noteq> None) echo e a)" and "client k NoArg = break_soon L clo base"
  shows "runs (handle h e) s (\<lambda>_ t. ending breaks t \<and> matches h p k out echo (xf_step (out \<noteq> None) echo e a) t \<and>
    same_rest s t)"
proof (rule runs_handle_then [OF assms(1,2)], unfold if_P [OF assms(3)] assms(4))
  fix t
  assume t: "matches h p k out echo (xf_step (out \<noteq> None) echo e a) t" "same_rest s t"
  from runs_break_ending [OF t(1), of base] t(2) show "runs (break_soon L clo base) t
      (\<lambda>_ t. ending breaks t \<and> matches h p k out echo (xf_step (out \<noteq> None) echo e a) t \<and> same_rest s t)"
    by simp
qed (auto simp: matches_ignored more_ignored ignored_ending dest: matches_bev simp del: not_None_eq)

lemma runs_answered:
  assumes "matches h p k (Some x) False (sent request) s" and "client k NoArg = break_soon L clo base"
  shows "runs (followed_by (server_reads h request)
      (followed_by (run_all (handle h) (map Readable pieces)) (followed_by (handle h (Event what)) leave))) s
    (\<lambda>_ t. strings t x = concat pieces \<and> same_rest s t \<and> (\<exists>base. loop_left L base t))"
proof -
  let ?Q = "\<lambda>t. ending breaks t \<and> matches h p k (Some x) False (answered (concat pieces)) t \<and> same_rest s t"
  have "runs (followed_by (followed_by (server_reads h request)
      (followed_by (run_all (handle h) (map Readable pieces)) (handle h (Event what)))) leave) s
    (\<lambda>_ t. strings t x = concat pieces \<and> same_rest s t \<and> (\<exists>base. loop_left L base t))"
  proof (subst runs_andthen, rule runs_mono [OF runs_answered_then [OF assms(1), where Q = ?Q]])
    fix t
    assume t: "matches h p k (Some x) False (answered (concat pieces)) t" "same_rest s t"
    show "runs (client k NoArg) t (\<lambda>_. ?Q)"
      unfolding assms(2) by (rule runs_mono [OF runs_break_ending [OF t(1)]]) (use t(2) in simp)
  next
    fix t
    assume t: "?Q t"
    then have "strings t x = concat pieces" by (simp add: matches_def)
    with t show "runs leave t (\<lambda>_ t. strings t x = concat pieces \<and> same_rest s t \<and> (\<exists>base. loop_left L base t))"
      by (intro runs_mono [OF runs_leave]) auto
  qed (auto simp: matches_ignored more_ignored ignored_ending dest: matches_bev simp del: not_None_eq)
  then show ?thesis by (simp add: andthen_assoc)
qed

end

section \<open>TLS\<close>

text \<open>
  OpenSSL makes its objects, and libevent a filter around a bufferevent: a new bufferevent with empty
  buffers.  \<open>below w q\<close> is what libevent's state \<open>w\<close> says of the bufferevent \<open>q\<close> when it is a TLS filter:
  the bufferevent it is a filter around (\<open>bufferevent_get_underlying\<close>) and its SSL object
  (\<open>bufferevent_openssl_get_ssl\<close>).  Only a filter that is made to negotiate as a client is taken for one.
\<close>

locale tls_api = bufferevent_api L content
  for L :: "'w libevent" and content :: "'w \<Rightarrow> cptr \<Rightarrow> string" +
  fixes S :: "'w sys" and below :: "'w \<Rightarrow> cptr \<Rightarrow> (cptr \<times> cptr) option"
  assumes ctx_new: "\<exists>c w'. SSLv23_client_ctx_new S w = (c, w') \<and> c \<noteq> nullptr \<and> content w' = content w"
    and ssl_new: "\<exists>p w'. SSL_new S c w = (p, w') \<and> p \<noteq> nullptr \<and> content w' = content w"
    and filter_new: "p \<noteq> nullptr \<Longrightarrow> ssl \<noteq> nullptr \<Longrightarrow>
      \<exists>q w'. bufferevent_openssl_filter_new L base p ssl (BUFFEREVENT_SSL_CONNECTING L) options w = (q, w') \<and>
        q \<noteq> nullptr \<and> content w' (bufferevent_get_input L q) = '''' \<and> content w' (bufferevent_get_output L q) = '''' \<and>
        below w' q = Some (p, ssl)"
    and below_setcb: "below (bufferevent_setcb L p arg w) = below w"
    and below_disable: "bufferevent_disable L p what w = (r, w') \<Longrightarrow> below w' = below w"
    and below_once: "event_base_once L base sock what cbp timeo w = (r, w') \<Longrightarrow> below w' = below w"

text \<open>
  The bufferevent \<open>g\<close> is a TLS filter around the C bufferevent \<open>p\<close>, with an SSL object that OpenSSL made in
  the one context of the program.
\<close>

definition tls_filter ::
  "('w \<Rightarrow> cptr \<Rightarrow> (cptr \<times> cptr) option) \<Rightarrow> 'w sys \<Rightarrow> cptr \<Rightarrow> nat \<Rightarrow> ('c, 'w, 'z) ehst_scheme \<Rightarrow> bool" where
  "tls_filter below S p g s \<longleftrightarrow> (\<exists>b ssl ctx v v'. bevs s g = Some b \<and> below (world s) (bevp b) = Some (p, ssl) \<and>
     ssl_singleton s = Some ctx \<and> SSL_new S ctx v = (ssl, v'))"

text \<open>
  An observation: with \<open>events\<close>, a TLS filter \<open>g\<close> is put around the C bufferevent that \<open>h\<close> owned before them.
  The run goes wrong where it is not.
\<close>

definition makes_tls ::
  "('w \<Rightarrow> cptr \<Rightarrow> (cptr \<times> cptr) option) \<Rightarrow> 'w sys \<Rightarrow> nat \<Rightarrow> nat \<Rightarrow> ('c, 'w, 'z, unit) eh_prog \<Rightarrow> ('c, 'w, 'z, unit) eh_prog"
where
  "makes_tls below S h g events = andthen (bev_get h)
     (\<lambda>b. followed_by events (expects (tls_filter below S (bevp b) g)))"

lemma runs_makes_tls:
  assumes "bevs s h = Some b"
    and "runs events s (\<lambda>_ t. Q t \<and> tls_filter below S (bevp b) g t)"
  shows "runs (makes_tls below S h g events) s (\<lambda>_. Q)"
  using assms(2)
  by (simp add: makes_tls_def runs_andthen runs_bev_get [OF assms(1)] runs_expects conj_commute)

context tls_api
begin

lemma below_tuned: "tuned L w v \<Longrightarrow> below v = below w"
  by (induction rule: tuned.induct) (simp_all add: below_setcb below_disable below_once)

lemma tls_filter_ignored:
  assumes "ignored h s t" and "tls_filter below S p g s"
  shows "tls_filter below S p g t"
proof -
  have "bevs t = bevs s" and "ssl_singleton t = ssl_singleton s" and "below (world t) = below (world s)"
    using assms(1) by (auto simp: ignored_def dest: below_tuned)
  with assms(2) show ?thesis by (simp add: tls_filter_def)
qed

lemma runs_SslContext_get:
  assumes "\<And>c w. content w = content (world s) \<Longrightarrow> P c (s\<lparr>world := w, ssl_singleton := Some c\<rparr>)"
  shows "runs (SslContext_get S) s P"
proof (cases "ssl_singleton s")
  case (Some c)
  have "s\<lparr>world := world s, ssl_singleton := Some c\<rparr> = s" using Some by (cases s) simp
  moreover have "P c (s\<lparr>world := world s, ssl_singleton := Some c\<rparr>)" by (rule assms) simp
  ultimately have "P c s" by (simp only:)
  with Some show ?thesis by (simp add: SslContext_get_def runs_andthen runs_gets runs_ret)
next
  case None
  obtain c w where "SSLv23_client_ctx_new S (world s) = (c, w)" "c \<noteq> nullptr" "content w = content (world s)"
    using ctx_new by blast
  with None assms show ?thesis
    by (simp add: SslContext_get_def SslContext_new_def runs_andthen runs_gets runs_ret runs_lib runs_modify)
qed

lemma runs_SSL_new:
  assumes "\<And>p w. p \<noteq> nullptr \<Longrightarrow> content w = content (world s) \<Longrightarrow> SSL_new S c (world s) = (p, w) \<Longrightarrow> P p (s\<lparr>world := w\<rparr>)"
  shows "runs (lib (SSL_new S c)) s P"
  using ssl_new [of c "world s"] assms by (auto simp: runs_lib)

text \<open>The filter takes the place of the bufferevent it is put around, which keeps no callbacks.\<close>

lemma runs_openssl_filter_new:
  assumes "bevs s h = Some b" and "bevp b \<noteq> nullptr" and "ssl \<noteq> nullptr" and "h < next_bev s"
    and "\<And>q w. q \<noteq> nullptr \<Longrightarrow> content w (bufferevent_get_input L q) = '''' \<Longrightarrow>
      content w (bufferevent_get_output L q) = '''' \<Longrightarrow> below w q = Some (bevp b, ssl) \<Longrightarrow>
      P (next_bev s) (s\<lparr>bevs := (bevs s)(h \<mapsto> b\<lparr>bevp := nullptr, event_cb := None, read_cb := None, write_cb := None\<rparr>,
        next_bev s \<mapsto> new_bufev base q), next_bev := Suc (next_bev s), world := w\<rparr>)"
  shows "runs (openssl_filter_new L base h ssl (BUFFEREVENT_SSL_CONNECTING L) options) s P"
proof -
  obtain q w where q: "bufferevent_openssl_filter_new L (base_ptr base) (bevp b) ssl (BUFFEREVENT_SSL_CONNECTING L)
      options (world s) = (q, w)"
    "q \<noteq> nullptr" "content w (bufferevent_get_input L q) = ''''" "content w (bufferevent_get_output L q) = ''''"
    "below w q = Some (bevp b, ssl)"
    using filter_new [OF assms(2,3)] by blast
  from q(3-5) have "P (next_bev s) (s\<lparr>bevs := (bevs s)(h \<mapsto> b\<lparr>bevp := nullptr, event_cb := None, read_cb := None, write_cb := None\<rparr>,
      next_bev s \<mapsto> new_bufev base q), next_bev := Suc (next_bev s), world := bufferevent_setcb L q (Some (next_bev s)) w\<rparr>)"
    by (intro assms(5) [OF q(2)]) (simp_all add: bev_setcb below_setcb)
  with q(1,2) assms(1-4) show ?thesis
    by (simp add: openssl_filter_new_def runs_andthen runs_lib runs_bev_get runs_setcb runs_ret
        bev_put_def alloc_bev_def runs_modify runs_gets)
qed

end

section \<open>The filters of the simulated library\<close>

definition sim_below :: "simw \<Rightarrow> cptr \<Rightarrow> (cptr \<times> cptr) option" where
  "sim_below w q = map_of (sim_layers w) q"

lemma sim_filter_new:
  "\<exists>q w'. bufferevent_openssl_filter_new sim_libevent base p ssl (BUFFEREVENT_SSL_CONNECTING sim_libevent) options w =
      (q, w') \<and> q \<noteq> nullptr \<and> sim_content w' (bufferevent_get_input sim_libevent q) = '''' \<and>
    sim_content w' (bufferevent_get_output sim_libevent q) = '''' \<and> sim_below w' q = Some (p, ssl)"
  by (simp add: sim_libevent_def Let_def sim_below_def) (simp add: sim_store_def)

lemma sim_below_frame:
  "sim_below (bufferevent_setcb sim_libevent p arg w) = sim_below w"
  "bufferevent_disable sim_libevent p what w = (r, w') \<Longrightarrow> sim_below w' = sim_below w"
  "event_base_once sim_libevent base sock fl cbp timeo w = (n, v) \<Longrightarrow> sim_below v = sim_below w"
  by (auto simp: sim_libevent_def sim_below_def fun_eq_iff)

end
