(* ===== verification/Evhelpers_Programs_Session.thy ===== *)
theory Evhelpers_Programs_Session
  imports Evhelpers_Programs Fetching Listening
begin

text \<open>
  What happens while the loop of a program of \<open>example/common/evhelpers-bufferevent-*.cpp\<close> runs: the
  connection is made, the server reads the request and answers it, the connection ends, and the timer
  that ends the loop fires.
\<close>

section \<open>The programs\<close>

locale transfer_program =
  dispatching L content arrive flush "run_eh_clo L (transfer_client L)" "run_eh_event L id S (transfer_client L) fuel" unique +
  loop_env L content arrive flush +
  transfer_api L content arrive flush ssl_pending fuel
  for L :: "'w libevent" and content :: "'w \<Rightarrow> cptr \<Rightarrow> string"
    and arrive :: "cptr \<Rightarrow> string \<Rightarrow> 'w \<Rightarrow> 'w" and flush :: "cptr \<Rightarrow> 'w \<Rightarrow> 'w"
    and ssl_pending :: "'w \<Rightarrow> cptr \<Rightarrow> nat list" and fuel :: nat and S :: "'w sys"
    and unique :: "nat \<Rightarrow> (transfer_cb eh_clo, 'w, 'z out_st_ext) ehst_scheme \<Rightarrow> bool"
begin

sublocale fetching L content arrive flush ssl_pending fuel "run_eh_clo L (transfer_client L)"
  "run_eh_event L id S (transfer_client L) fuel" unique id S "transfer_client L" breaks_loop
  by unfold_locales (auto simp: breaks_loop_def split: eh_clo.splits)

abbreviation client :: "(transfer_cb, transfer_cb eh_clo, 'w, 'z out_st_ext) eh_client" where
  "client \<equiv> transfer_client L"

lemma client_done: "client (Done base) NoArg = break_soon L id base"
  by (simp add: transfer_client_def)

text \<open>The connection is made, and the request is in the output buffer.\<close>

lemma runs_request:
  fixes s :: "(transfer_cb eh_clo, 'w, 'z) out_st_scheme"
  assumes "eh_callbacks h p cbs s" and "inbuf p s = ''''" and "outbuf p s = ''''" and "strings s x = ''''"
  shows "runs (client (Connected base request x) (BevArg h)) s (\<lambda>_ t.
    matches h p (Done base) (Some x) False (sent request) t \<and> ehst.more t = ehst.more s)"
proof -
  obtain b where b: "bevs s h = Some b" "varp b" "bevp b = p" "p \<noteq> nullptr"
    using assms(1) by (auto simp: eh_callbacks_def)
  have io: "bufferevent_get_input L p \<noteq> bufferevent_get_output L p"
    using input_not_output [OF b(4) b(4)] .
  have call: "client (Connected base request x) (BevArg h) =
      (sendrecv L id h request (Done base) (Some x) None False :: ('w, 'z, unit) transfer_prog)"
    by (simp add: transfer_client_def)
  show ?thesis
    unfolding call by (rule runs_sendrecv [OF b]) (use assms io in \<open>auto simp: matches_def\<close>)
qed

text \<open>The transfer over a connection \<open>h\<close> that is being made.\<close>

definition connecting ::
  "nat \<Rightarrow> cptr \<Rightarrow> transfer_cb eh_clo \<Rightarrow> (transfer_cb eh_clo, 'w, 'z) out_st_scheme \<Rightarrow> bool" where
  "connecting h p clo s \<longleftrightarrow> eh_callbacks h p (None, None, Some clo) s \<and> inbuf p s = '''' \<and> outbuf p s = '''' \<and>
     strings s 0 = ''''"

lemma runs_connection_made:
  fixes s :: "(transfer_cb eh_clo, 'w, 'z) out_st_scheme"
  assumes "connecting h p clo s"
    and clo: "\<And>what. run_eh_event L id S client fuel clo what = (if what \<noteq> BEV_EVENT_CONNECTED L
      then followed_by (possibly_print_error L S fuel what h) (followed_by (setcb None None None h) (break_soon L id base))
      else followed_by (set_flag None) (client (Connected base request 0) (BevArg h)))"
  shows "runs (handle h (Event (BEV_EVENT_CONNECTED L))) s (\<lambda>_ t.
    matches h p (Done base) (Some 0) False (sent request) t \<and> ehst.more t = ehst.more s)"
proof (rule runs_made_or_failed [OF _ clo])
  show cbs: "eh_callbacks h p (None, None, Some (id clo)) s" using assms(1) by (simp add: connecting_def)
  have "runs (client (Connected base request 0) (BevArg h)) s (\<lambda>_ t.
      matches h p (Done base) (Some 0) False (sent request) t \<and> ehst.more t = ehst.more s)"
    by (rule runs_request [OF cbs]) (use assms(1) in \<open>simp_all add: connecting_def\<close>)
  then show "runs (client (Connected base request 0) (BevArg h))
      (case None of None \<Rightarrow> s | Some i \<Rightarrow> s\<lparr>flags := (flags s)(i := True)\<rparr>)
      (\<lambda>_ t. matches h p (Done base) (Some 0) False (sent request) t \<and> ehst.more t = ehst.more s)" by simp
qed (auto simp: matches_ignored more_ignored dest: matches_bev simp del: not_None_eq)

lemma runs_served:
  fixes s :: "(transfer_cb eh_clo, 'w, 'z) out_st_scheme"
  assumes "connecting h p clo s"
    and clo: "\<And>what. run_eh_event L id S client fuel clo what = (if what \<noteq> BEV_EVENT_CONNECTED L
      then followed_by (possibly_print_error L S fuel what h) (followed_by (setcb None None None h) (break_soon L id base))
      else followed_by (set_flag None) (client (Connected base request 0) (BevArg h)))"
  shows "runs (followed_by (handle h (Event (BEV_EVENT_CONNECTED L))) (followed_by (server_reads h request)
      (followed_by (run_all (handle h) (map Readable pieces)) (followed_by (handle h (Event what)) leave)))) s
    (\<lambda>_ t. strings t 0 = concat pieces \<and> ehst.more t = ehst.more s \<and> (\<exists>base. loop_left L base t))"
proof (subst runs_andthen, rule runs_mono [OF runs_connection_made [OF assms]], elim conjE)
  fix t :: "(transfer_cb eh_clo, 'w, 'z) out_st_scheme"
  assume t: "matches h p (Done base) (Some 0) False (sent request) t" "ehst.more t = ehst.more s"
  then show "runs (followed_by (server_reads h request)
      (followed_by (run_all (handle h) (map Readable pieces)) (followed_by (handle h (Event what)) leave))) t
    (\<lambda>_ t. strings t 0 = concat pieces \<and> ehst.more t = ehst.more s \<and> (\<exists>base. loop_left L base t))"
    by (intro runs_mono [OF runs_answered [OF t(1) client_done]]) simp
qed

text \<open>The program that asks over TCP.\<close>

lemma runs_get:
  fixes s :: "(transfer_cb eh_clo, 'w, 'z) out_st_scheme"
  assumes "parse_sockaddr_port L ''130.192.181.193:80'' sizeof_sockaddr_in = (NoError, sa, len)"
  shows "runs (get_main L (\<lambda>_. followed_by (handle (next_bev s) (Event (BEV_EVENT_CONNECTED L)))
      (followed_by (server_reads (next_bev s) (''GET /'' @ crlf))
        (followed_by (run_all (handle (next_bev s)) (map Readable pieces))
          (followed_by (handle (next_bev s) (Event what)) leave))))) s
    (\<lambda>_ t. stdout t = stdout s @ concat pieces @ newline \<and> (\<exists>base. loop_left L base t))"
  unfolding get_main_def runs_new_out
proof (rule runs_EventBase_create, subst runs_andthen, rule runs_connect [OF assms])
  let ?h = "next_bev s" and ?s = "s\<lparr>verbose := True, strings := (strings s)(0 := '''')\<rparr>"
  fix b w t p
  let ?base = "\<lparr>base_ptr = b, base_owned = True\<rparr>" and ?w = "?s\<lparr>world := w\<rparr>"
  assume t: "ehst.more t = ehst.more ?w" "strings t = strings ?w" "inbuf p t = ''''" "outbuf p t = ''''"
    "eh_callbacks (next_bev ?w) p (None, None, if error_neq_int NoError 0 then None
        else Some (id (ConnectEvent (next_bev ?w) (UserBev (Connected ?base (''GET /'' @ crlf) 0)) ?base None))) t"
  have "connecting ?h p (ConnectEvent ?h (UserBev (Connected ?base (''GET /'' @ crlf) 0)) ?base None) t"
    using t by (simp add: connecting_def error_neq_int_def NoError_def declared_error_defs)
  note served = runs_served [OF this, where base = ?base and request = "''GET /'' @ crlf" and pieces = pieces and what = what]
  show "runs (followed_by (followed_by (handle ?h (Event (BEV_EVENT_CONNECTED L)))
      (followed_by (server_reads ?h (''GET /'' @ crlf))
        (followed_by (run_all (handle ?h) (map Readable pieces)) (followed_by (handle ?h (Event what)) leave))))
      (andthen (gets (\<lambda>s. strings s 0)) (\<lambda>out. print_out (out @ newline)))) t
    (\<lambda>_ t. stdout t = stdout s @ concat pieces @ newline \<and> (\<exists>base. loop_left L base t))"
    unfolding runs_andthen [of "followed_by (handle ?h (Event (BEV_EVENT_CONNECTED L))) _"] runs_print_result
    by (rule runs_mono [OF served])
      (use t(1) in \<open>auto simp: run_eh_event_def call_bev_fun_def loop_left_def dest: stdout_more\<close>)
qed

end

section \<open>Over TLS\<close>

locale tls_program =
  transfer_program L content arrive flush ssl_pending fuel S unique +
  tls_api L content S below
  for L :: "'w libevent" and content :: "'w \<Rightarrow> cptr \<Rightarrow> string"
    and arrive :: "cptr \<Rightarrow> string \<Rightarrow> 'w \<Rightarrow> 'w" and flush :: "cptr \<Rightarrow> 'w \<Rightarrow> 'w"
    and ssl_pending :: "'w \<Rightarrow> cptr \<Rightarrow> nat list" and fuel :: nat and S :: "'w sys"
    and unique :: "nat \<Rightarrow> (transfer_cb eh_clo, 'w, 'z out_st_ext) ehst_scheme \<Rightarrow> bool"
    and below :: "'w \<Rightarrow> cptr \<Rightarrow> (cptr \<times> cptr) option"
begin

lemma runs_filter:
  fixes s :: "(transfer_cb eh_clo, 'w, 'z) out_st_scheme"
  assumes "eh_callbacks h p cbs s" and "h < next_bev s" and "strings s 0 = ''''" and "ssl_singleton s = Some c"
  shows "runs (call_bev_fun L id S client (SslConnected k c base None) h) s
    (\<lambda>_ t. bevs t h \<noteq> None \<and> ehst.more t = ehst.more s \<and>
       (\<exists>q. connecting (next_bev s) q (SslEvent k base (next_bev s) None) t) \<and>
       tls_filter below S p (next_bev s) t)"
proof -
  obtain b where b: "bevs s h = Some b" "varp b" "bevp b = p" "p \<noteq> nullptr"
    using assms(1) by (auto simp: eh_callbacks_def)
  show ?thesis
    unfolding call_bev_fun_def bev_fun.case
  proof (subst runs_andthen, rule runs_SSL_new, goal_cases)
    case (1 ssl v)
    then have ssl: "ssl \<noteq> nullptr" by simp
    show ?case
      unfolding if_not_P [OF ssl]
    proof (subst runs_andthen, rule runs_openssl_filter_new [where b = b], goal_cases)
      case (5 q u)
      with 1 b assms(3,4) show ?case
        by (auto simp: runs_setcb new_bufev_def connecting_def eh_callbacks_def tls_filter_def)
    qed (use b ssl assms(2) in simp_all)
  qed
qed

text \<open>The TCP connection is made, and then the TLS connection.\<close>

lemma runs_tls_served:
  fixes s :: "(transfer_cb eh_clo, 'w, 'z) out_st_scheme"
  assumes "connecting h p (ConnectEvent h (SslConnected (Connected base request 0) c base None) base None) s"
    and "h < next_bev s" and "ssl_singleton s = Some c"
  shows "runs (followed_by (makes_tls below S h (next_bev s) (handle h (Event (BEV_EVENT_CONNECTED L))))
      (followed_by (handle (next_bev s) (Event (BEV_EVENT_CONNECTED L))) (followed_by (server_reads (next_bev s) request)
        (followed_by (run_all (handle (next_bev s)) (map Readable pieces))
          (followed_by (handle (next_bev s) (Event what)) leave))))) s
    (\<lambda>_ t. strings t 0 = concat pieces \<and> ehst.more t = ehst.more s \<and> (\<exists>base. loop_left L base t))"
proof -
  let ?k = "Connected base request 0" and ?g = "next_bev s"
  let ?Q = "\<lambda>t. bevs t h \<noteq> None \<and> ehst.more t = ehst.more s \<and> (\<exists>q. connecting ?g q (SslEvent ?k base ?g None) t)"
  let ?R = "\<lambda>t. ?Q t \<and> tls_filter below S p ?g t"
  have stable: "?R u" if "?R t" "ignored h t u" for t u :: "(transfer_cb eh_clo, 'w, 'z) out_st_scheme"
  proof -
    have "u = t \<or> (\<exists>w os n. content w = content (world t) \<and> u = t\<lparr>onces := os, next_once := n, world := w\<rparr>)"
      using that(2) by (auto simp: ignored_def)
    with that(1) tls_filter_ignored [OF that(2)] show ?thesis by (auto simp: connecting_def)
  qed
  from assms(1) obtain b where b: "bevs s h = Some b" "bevp b = p"
    by (auto simp: connecting_def eh_callbacks_def)
  have "runs (handle h (Event (BEV_EVENT_CONNECTED L))) s (\<lambda>_. ?R)"
  proof (rule runs_made_or_failed [where m = "call_bev_fun L id S client (SslConnected ?k c base None) h"])
    show cbs: "eh_callbacks h p (None, None, Some (id (ConnectEvent h (SslConnected ?k c base None) base None))) s"
      using assms(1) by (simp add: connecting_def)
    have "runs (call_bev_fun L id S client (SslConnected ?k c base None) h) s (\<lambda>_. ?R)"
      by (rule runs_mono [OF runs_filter [OF cbs]]) (use assms in \<open>simp_all add: connecting_def\<close>)
    then show "runs (call_bev_fun L id S client (SslConnected ?k c base None) h)
        (case None of None \<Rightarrow> s | Some i \<Rightarrow> s\<lparr>flags := (flags s)(i := True)\<rparr>) (\<lambda>_. ?R)" by simp
  next
    fix t u :: "(transfer_cb eh_clo, 'w, 'z) out_st_scheme"
    assume "?R t" "ignored h t u"
    then show "?R u" by (rule stable)
  qed (simp_all add: run_eh_event_def)
  then have "runs (makes_tls below S h ?g (handle h (Event (BEV_EVENT_CONNECTED L)))) s (\<lambda>_. ?Q)"
    unfolding b(2) [symmetric] by (rule runs_makes_tls [OF b(1)])
  then show ?thesis
  proof (subst runs_andthen, elim runs_mono conjE exE)
    fix t :: "(transfer_cb eh_clo, 'w, 'z) out_st_scheme" and q
    assume t: "ehst.more t = ehst.more s" "connecting ?g q (SslEvent ?k base ?g None) t"
    note served = runs_served [OF t(2), where base = base and request = request and pieces = pieces and what = what]
    show "runs (followed_by (handle ?g (Event (BEV_EVENT_CONNECTED L))) (followed_by (server_reads ?g request)
        (followed_by (run_all (handle ?g) (map Readable pieces)) (followed_by (handle ?g (Event what)) leave)))) t
      (\<lambda>_ t. strings t 0 = concat pieces \<and> ehst.more t = ehst.more s \<and> (\<exists>base. loop_left L base t))"
      by (rule runs_mono [OF served]) (use t(1) in \<open>auto simp: run_eh_event_def\<close>)
  qed
qed

end

abbreviation get_option_ok :: "char \<times> string \<Rightarrow> bool" where
  "get_option_ok \<equiv> \<lambda>p. fst p \<in> set ''Ap''"

abbreviation get_endpoint :: "(char \<times> string) list \<Rightarrow> string" where
  "get_endpoint options \<equiv>
     (case last_arg (CHR ''A'') options of None \<Rightarrow> ''130.192.181.193'' | Some a \<Rightarrow> a) @ '':'' @
     (case last_arg (CHR ''p'') options of None \<Rightarrow> ''443'' | Some a \<Rightarrow> a)"

abbreviation get_request :: "string list \<Rightarrow> string" where
  "get_request args \<equiv> ''GET '' @ (case args of [] \<Rightarrow> ''/'' | path # _ \<Rightarrow> path) @ crlf"

lemma read_get_options_ok:
  "list_all get_option_ok options \<Longrightarrow> read_get_options progname options opts =
   ret (opts\<lparr>get_address := (case last_arg (CHR ''A'') options of None \<Rightarrow> get_address opts | Some a \<Rightarrow> a),
     get_port := (case last_arg (CHR ''p'') options of None \<Rightarrow> get_port opts | Some a \<Rightarrow> a)\<rparr>)"
proof (induction options arbitrary: opts)
  case Nil
  then show ?case by (cases opts) (simp add: last_arg_Nil)
next
  case (Cons x options)
  obtain ch a where x: "x = (ch, a)" by fastforce
  with Cons show ?case by (auto simp: last_arg_Cons split: option.split)
qed

context tls_program
begin

lemma runs_get_ssl:
  fixes s :: "(transfer_cb eh_clo, 'w, 'z) out_st_scheme"
  assumes "getopt argv ''A:p:'' = (options, optind)" and "list_all get_option_ok options"
    and "length (drop optind argv) \<le> 1"
    and "parse_sockaddr_port L (get_endpoint options) sizeof_sockaddr_in = (NoError, sa, len)"
  shows "runs (get_ssl_main L S getopt (\<lambda>_. followed_by
      (makes_tls below S (next_bev s) (Suc (next_bev s)) (handle (next_bev s) (Event (BEV_EVENT_CONNECTED L))))
      (followed_by (handle (Suc (next_bev s)) (Event (BEV_EVENT_CONNECTED L)))
        (followed_by (server_reads (Suc (next_bev s)) (get_request (drop optind argv)))
          (followed_by (run_all (handle (Suc (next_bev s))) (map Readable pieces))
            (followed_by (handle (Suc (next_bev s)) (Event what)) leave))))) argv) s
    (\<lambda>_ t. stdout t = stdout s @ concat pieces @ newline \<and> (\<exists>base. loop_left L base t))"
    (is "runs (get_ssl_main L S getopt ?events argv) s ?Q")
proof -
  let ?request = "get_request (drop optind argv)" and ?h = "next_bev s"
  let ?s = "s\<lparr>verbose := True, strings := (strings s)(0 := '''')\<rparr>"
  have main: "get_ssl_main L S getopt ?events argv = followed_by be_verbose (followed_by new_out
      (andthen (EventBase_create L) (\<lambda>base. andthen (SslContext_get S) (\<lambda>context. followed_by
         (ssl_connect L id base (get_endpoint options) context (Connected base ?request 0) None None)
         (followed_by (?events base) (andthen (gets (\<lambda>s. strings s 0)) (\<lambda>out. print_out (out @ newline))))))))"
    using assms(1-3)
    by (cases "drop optind argv") (simp_all add: get_ssl_main_def read_get_options_ok andthen_ret default_get_opts_def Let_def
      cong: option.case_cong del: length_drop)
  show ?thesis
    unfolding main runs_new_out
  proof (rule runs_EventBase_create, subst runs_andthen, rule runs_SslContext_get, subst runs_andthen,
      unfold ssl_connect_def, rule runs_connect [OF assms(4)])
    fix b w c v t p
    let ?base = "\<lparr>base_ptr = b, base_owned = True\<rparr>" and ?v = "?s\<lparr>world := w\<rparr>\<lparr>world := v, ssl_singleton := Some c\<rparr>"
    let ?clo = "ConnectEvent ?h (SslConnected (Connected ?base ?request 0) c ?base None) ?base None"
    assume t: "ehst.more t = ehst.more ?v" "strings t = strings ?v" "next_bev t = Suc (next_bev ?v)"
      "ssl_singleton t = ssl_singleton ?v" "inbuf p t = ''''" "outbuf p t = ''''"
      "eh_callbacks (next_bev ?v) p (None, None, if error_neq_int NoError 0 then None
        else Some (id (ConnectEvent (next_bev ?v) (SslConnected (Connected ?base ?request 0) c ?base None) ?base None))) t"
    have "connecting ?h p ?clo t"
      using t by (simp add: connecting_def error_neq_int_def NoError_def declared_error_defs)
    moreover have g: "next_bev t = Suc ?h" and "ssl_singleton t = Some c" using t(3,4) by simp_all
    ultimately have served: "runs (?events ?base) t
        (\<lambda>_ u. strings u 0 = concat pieces \<and> ehst.more u = ehst.more t \<and> (\<exists>base. loop_left L base u))"
      using runs_tls_served [of ?h p _ _ _ t] by simp
    show "runs (followed_by (?events ?base) (andthen (gets (\<lambda>s. strings s 0)) (\<lambda>out. print_out (out @ newline)))) t ?Q"
      unfolding runs_andthen [of "?events ?base"] runs_print_result
      by (rule runs_mono [OF served]) (use t(1) in \<open>auto simp: loop_left_def dest: stdout_more\<close>)
  qed
qed

end

section \<open>The echo server\<close>

locale accepting_program =
  transfer_program L content arrive flush ssl_pending fuel S unique +
  listening L S content
  for L :: "'w libevent" and content :: "'w \<Rightarrow> cptr \<Rightarrow> string"
    and arrive :: "cptr \<Rightarrow> string \<Rightarrow> 'w \<Rightarrow> 'w" and flush :: "cptr \<Rightarrow> 'w \<Rightarrow> 'w"
    and ssl_pending :: "'w \<Rightarrow> cptr \<Rightarrow> nat list" and fuel :: nat and S :: "'w sys"
    and unique :: "nat \<Rightarrow> (transfer_cb eh_clo, 'w, 'z out_st_ext) ehst_scheme \<Rightarrow> bool"
begin

lemma runs_accepted:
  fixes s :: "(transfer_cb eh_clo, 'w, 'z) out_st_scheme"
  assumes "onces s n = Some (Once (AcceptOnce base Accepted sock))"
  shows "runs (mk_libevent_event_cb L unique (run_eh_event L id S client fuel) (EV_READ L) n) s
    (\<lambda>_ t. ehst.more t = ehst.more s \<and> (\<exists>p. matches (next_bev s) p (Done base) None True (sent '''') t))"
proof -
  let ?Q = "\<lambda>t. ehst.more t = ehst.more s \<and> (\<exists>p. matches (next_bev s) p (Done base) None True (sent '''') t)"
  have gone: "?Q (t\<lparr>onces := os\<rparr>)" if "?Q t" for t :: "(transfer_cb eh_clo, 'w, 'z) out_st_scheme" and os
    using that by (auto simp: matches_def)
  have talk: "runs (sendrecv L id (next_bev s) '''' (Done base) None (Some tv) True) t (\<lambda>_. ?Q)"
    if t: "bevs t (next_bev s) = Some (new_bufev base p)" "p \<noteq> nullptr" "inbuf p t = ''''" "outbuf p t = ''''"
      "ehst.more t = ehst.more s" for t :: "(transfer_cb eh_clo, 'w, 'z) out_st_scheme" and p tv
  proof (rule runs_sendrecv [OF t(1), where p = p])
    have "bufferevent_get_input L p \<noteq> bufferevent_get_output L p" using input_not_output [OF t(2) t(2)] .
    moreover fix u :: "(transfer_cb eh_clo, 'w, 'z) out_st_scheme"
    assume "eh_callbacks (next_bev s) p (xphase_cbs id (next_bev s) (Done base) None True Open) u"
      "content (world u) = (content (world t))(bufferevent_get_output L p := outbuf p t @ '''')"
      "same_rest t u"
    ultimately show "?Q u" using t by (auto simp: matches_def)
  qed (use t in \<open>simp_all add: new_bufev_def\<close>)
  have call: "client Accepted (ConnArg base conn) = (andthen (socket_new L base conn (BEV_OPT_CLOSE_ON_FREE L))
      (\<lambda>bev. sendrecv L id bev '''' (Done base) None (Some \<lparr>tv_sec = 7, tv_usec = 7\<rparr>) True) ::
        ('w, 'z, unit) transfer_prog)" for conn
    by (simp add: transfer_client_def Let_def)
  have "runs (accept_once L S client base Accepted sock) s (\<lambda>_. ?Q)"
  proof (rule runs_accept_once, unfold call)
    fix conn w
    assume w: "content w = content (world s)"
    show "runs (andthen (socket_new L base conn (BEV_OPT_CLOSE_ON_FREE L))
        (\<lambda>bev. sendrecv L id bev '''' (Done base) None (Some \<lparr>tv_sec = 7, tv_usec = 7\<rparr>) True)) (s\<lparr>world := w\<rparr>) (\<lambda>_. ?Q)"
      by (subst runs_andthen, rule runs_socket_new) (simp, rule talk, use w in simp_all)
  qed
  then have "runs (accept_once L S client base Accepted sock) s (\<lambda>_ t. \<forall>os. ?Q (t\<lparr>onces := os\<rparr>))"
    by (rule runs_mono) (use gone in blast)
  then show ?thesis
    using assms
    by (simp add: mk_libevent_event_cb_def run_once_clo_def run_eh_event_def delete_once_def runs_andthen runs_gets
        runs_modify) (erule runs_mono, simp)
qed

lemma xf_run_echoes: "xf_run False True (map Readable xs) (sent y) = sent (y @ concat xs)"
  by (induction xs arbitrary: y) simp_all

text \<open>What comes in goes out, and when the peer has ended and read all of it, the loop ends.\<close>

lemma runs_echoed:
  fixes s :: "(transfer_cb eh_clo, 'w, 'z) out_st_scheme"
  assumes "matches h p (Done base) None True (sent '''') s" and "concat pieces \<noteq> ''''"
  shows "runs (followed_by (run_all (handle h) (map Readable pieces)) (followed_by (handle h (Event what))
      (followed_by (server_reads h (concat pieces)) leave))) s
    (\<lambda>_ t. eh_callbacks h p (None, None, None) t \<and> ehst.more t = ehst.more s \<and> (\<exists>base. loop_left L base t))"
proof -
  let ?a = "sent (concat pieces)" and ?k = "Done base"
  let ?b = "?a\<lparr>xf_phase := Flushing\<rparr>" and ?c = "?a\<lparr>xf_phase := Closed, xf_out := ''''\<rparr>"
  have drained: "xf_drained (sent y)" "xf_drained (sent y\<lparr>xf_phase := Flushing\<rparr>)" for y by (simp_all add: xf_drained_def)
  have "runs (run_all (handle h) (map Readable pieces)) s
      (\<lambda>_ t. matches h p ?k None True ?a t \<and> ehst.more t = ehst.more s)"
    using runs_transfers [OF assms(1) disjI2 [OF drained(1)], of "map Readable pieces"]
    by (auto simp: xf_run_echoes elim: runs_mono)
  then show ?thesis
  proof (subst runs_andthen, elim runs_mono conjE)
    fix t :: "(transfer_cb eh_clo, 'w, 'z) out_st_scheme"
    assume t: "matches h p ?k None True ?a t" "ehst.more t = ehst.more s"
    have step: "xf_step (None \<noteq> (None :: nat option)) True (Event what) ?a = ?b" using assms(2) by simp
    have "runs (handle h (Event what)) t (\<lambda>_ u. matches h p ?k None True ?b u \<and> ehst.more u = ehst.more t)"
      by (rule runs_event_then [OF t(1) disjI2 [OF drained(1)]], unfold step)
        (auto simp: to_call_def matches_ignored more_ignored dest: matches_bev simp del: not_None_eq)
    then show "runs (followed_by (handle h (Event what)) (followed_by (server_reads h (concat pieces)) leave)) t
      (\<lambda>_ t. eh_callbacks h p (None, None, None) t \<and> ehst.more t = ehst.more s \<and> (\<exists>base. loop_left L base t))"
    proof (subst runs_andthen, elim runs_mono conjE)
      fix u :: "(transfer_cb eh_clo, 'w, 'z) out_st_scheme"
      assume u: "matches h p ?k None True ?b u" "ehst.more u = ehst.more t"
      have out: "output_is L content h (concat pieces) u"
        using u(1) by (auto simp: output_is_def matches_def eh_callbacks_def)
      have "runs (handle h Writable) u (\<lambda>_ v. ending breaks_loop v \<and> matches h p ?k None True ?c v \<and> ehst.more v = ehst.more u)"
        using runs_closing [OF u(1) disjI2 [OF drained(2)] _ client_done, of Writable]
        by (simp add: to_call_def) (erule runs_mono, simp)
      with out have "runs (server_reads h (concat pieces)) u
          (\<lambda>_ v. ending breaks_loop v \<and> matches h p ?k None True ?c v \<and> ehst.more v = ehst.more u)"
        by (simp add: runs_andthen runs_expects)
      then show "runs (followed_by (server_reads h (concat pieces)) leave) u
        (\<lambda>_ t. eh_callbacks h p (None, None, None) t \<and> ehst.more t = ehst.more s \<and> (\<exists>base. loop_left L base t))"
      proof (subst runs_andthen, elim runs_mono conjE)
        fix v :: "(transfer_cb eh_clo, 'w, 'z) out_st_scheme"
        assume v: "ending breaks_loop v" "matches h p ?k None True ?c v" "ehst.more v = ehst.more u"
        show "runs leave v (\<lambda>_ t. eh_callbacks h p (None, None, None) t \<and> ehst.more t = ehst.more s \<and>
            (\<exists>base. loop_left L base t))"
          by (rule runs_mono [OF runs_leave [OF v(1)]])
            (use v(2,3) u(2) t(2) in \<open>auto simp: matches_def eh_callbacks_def\<close>)
      qed
    qed
  qed
qed

lemma runs_echo:
  fixes s :: "(transfer_cb eh_clo, 'w, 'z) out_st_scheme"
  assumes "parse_sockaddr_port L ''0.0.0.0:54321'' sizeof_sockaddr_in = (NoError, sa, len)" and "concat pieces \<noteq> ''''"
  shows "runs (echo_main L S (\<lambda>_. followed_by
      (mk_libevent_event_cb L unique (run_eh_event L id S client fuel) (EV_READ L) (next_once s))
      (followed_by (followed_by (run_all (handle (next_bev s)) (map Readable pieces))
         (followed_by (handle (next_bev s) (Event what)) (followed_by (server_reads (next_bev s) (concat pieces)) leave)))
        (ret 1)))) s
    (\<lambda>_ t. \<exists>p. eh_callbacks (next_bev s) p (None, None, None) t)"
  unfolding echo_main_def
proof (rule runs_listens [OF assms(1)], subst runs_andthen, goal_cases)
  case (1 base sock w)
  let ?s = "s\<lparr>onces := (onces s)(next_once s \<mapsto> Once (id (AcceptOnce base Accepted sock))), next_once := Suc (next_once s),
    world := w\<rparr>"
  have "onces ?s (next_once s) = Some (Once (AcceptOnce base Accepted sock))" by simp
  note accepted = runs_accepted [OF this]
  show ?case
  proof (rule runs_mono [OF accepted], elim conjE exE, subst runs_andthen, goal_cases)
    case (1 _ t p)
    then have "matches (next_bev s) p (Done base) None True (sent '''') t" by simp
    note echoed = runs_echoed [OF this assms(2)]
    show ?case by (rule runs_mono [OF echoed]) (auto simp: runs_ret)
  qed
qed

end

end
