(* ===== verification/Evhelpers_Programs_Props.thy ===== *)
theory Evhelpers_Programs_Props
  imports Evhelpers_Programs_Session Evhelpers_Props
begin

text \<open>
  Whole runs of the programs of \<open>example/common/evhelpers-bufferevent-*.cpp\<close>, from \<open>main\<close> to its end.
\<close>

section \<open>What happens in the loop\<close>

abbreviation net ::
  "'w libevent \<Rightarrow> (cptr \<Rightarrow> string \<Rightarrow> 'w \<Rightarrow> 'w) \<Rightarrow> (cptr \<Rightarrow> 'w \<Rightarrow> 'w) \<Rightarrow>
   (nat \<Rightarrow> (transfer_cb eh_clo, 'w, 'z) out_st_scheme \<Rightarrow> bool) \<Rightarrow> 'w sys \<Rightarrow> nat \<Rightarrow> nat \<Rightarrow> event \<Rightarrow> ('w, 'z, unit) transfer_prog"
where
  "net L arrive flush unique S fuel h \<equiv>
     deliver L arrive flush unique (run_eh_clo L (transfer_client L)) (run_eh_event L id S (transfer_client L) fuel) h"

abbreviation time_to_leave ::
  "'w libevent \<Rightarrow> (nat \<Rightarrow> (transfer_cb eh_clo, 'w, 'z) out_st_scheme \<Rightarrow> bool) \<Rightarrow> 'w sys \<Rightarrow> nat \<Rightarrow> ('w, 'z, unit) transfer_prog"
where
  "time_to_leave L unique S fuel \<equiv> leave_loop L unique (run_eh_event L id S (transfer_client L) fuel) breaks_loop"

text \<open>
  The connection \<open>h\<close> is made, the server reads the request and sends an answer in pieces, the connection
  ends, and the timer that ends the loop fires.
\<close>

abbreviation answers ::
  "'w libevent \<Rightarrow> ('w \<Rightarrow> cptr \<Rightarrow> string) \<Rightarrow> (nat \<Rightarrow> event \<Rightarrow> ('w, 'z, unit) transfer_prog) \<Rightarrow>
   ('w, 'z, unit) transfer_prog \<Rightarrow> nat \<Rightarrow> string \<Rightarrow> string list \<Rightarrow> u16 \<Rightarrow> ('w, 'z, unit) transfer_prog" where
  "answers L content netw leave h request pieces what \<equiv>
     followed_by (netw h (Event (BEV_EVENT_CONNECTED L)))
       (followed_by (peer_reads L content netw h request)
         (followed_by (run_all (netw h) (map Readable pieces)) (followed_by (netw h (Event what)) leave)))"

section \<open>The simulated library\<close>

interpretation sim_tls: tls_program sim_libevent sim_content sim_arrive sim_flush "\<lambda>_ _. []" 1 demo_sys eh_unique sim_below
  by (unfold_locales; (rule sim_filter_new sim_below_frame(1) | erule sim_below_frame(2,3)
    | auto simp: demo_sys_def eh_unique_def))

interpretation sim_accepting: accepting_program sim_libevent sim_content sim_arrive sim_flush "\<lambda>_ _. []" 1 demo_sys eh_unique
  by unfold_locales (auto simp: demo_sys_def sim_libevent_def)

definition demo_out :: "(transfer_cb eh_clo, simw) out_st" where
  "demo_out =
     \<lparr>world = sim_empty, bevs = Map.empty, next_bev = 0, onces = Map.empty, next_once = 0,
      strings = (\<lambda>_. ''''), flags = (\<lambda>_. False), verbose = False, clog = '''', ssl_singleton = None, stdout = ''''\<rparr>"

lemma demo_out_simps: "next_bev demo_out = 0" "stdout demo_out = ''''" "next_once demo_out = 0"
  by (simp_all add: demo_out_def)

section \<open>Properties\<close>

text \<open>
  The program that asks for a document over TCP, from \<open>main\<close> to its end: the server reads exactly the
  request, and the program prints everything the server sent, however it was cut, and a newline; the
  loop was left.
\<close>

theorem get_program:
  fixes s :: "(transfer_cb eh_clo, 'w, 'z) out_st_scheme"
  assumes "transfer_program L content arrive flush ssl_pending fuel unique"
    and "parse_sockaddr_port L ''130.192.181.193:80'' sizeof_sockaddr_in = (NoError, sa, len)"
  shows "runs (get_main L (\<lambda>_. answers L content (net L arrive flush unique S fuel) (time_to_leave L unique S fuel)
      (next_bev s) (''GET /'' @ crlf) pieces what)) s
    (\<lambda>_ t. stdout t = stdout s @ concat pieces @ newline \<and> (\<exists>base. loop_left L base t))"
  by (rule transfer_program.runs_get [OF assms])

theorem get_program_witness:
  "runs (get_main sim_libevent (\<lambda>_. answers sim_libevent sim_content
      (net sim_libevent sim_arrive sim_flush eh_unique demo_sys 1) (time_to_leave sim_libevent eh_unique demo_sys 1)
      0 (''GET /'' @ crlf) [''he'', ''llo''] 16)) demo_out
    (\<lambda>_ t. stdout t = ''hello'' @ newline)"
proof -
  have "parse_sockaddr_port sim_libevent ''130.192.181.193:80'' sizeof_sockaddr_in = (NoError, ''130.192.181.193:80'', 16)"
    by (simp add: parse_sockaddr_port_def sim_libevent_def c_str_def sizeof_sockaddr_in_def)
  note get = get_program [OF sim_tls.transfer_program_axioms this, where s = demo_out and pieces = "[''he'', ''llo'']"
      and what = 16, unfolded demo_out_simps]
  show ?thesis by (rule runs_mono [OF get]) simp
qed

text \<open>
  C14: The program that asks over TLS, with its options: it connects to the address and port of the last
  \<open>-A\<close> and \<open>-p\<close>, or to its own.  Once the TCP connection is made, a TLS filter is put around the C
  bufferevent of that connection, with an SSL object made in the program's context (\<open>makes_tls\<close>); when the
  TLS connection is made, the request for the path given, or for the root, is sent over the filter, and
  everything that comes over the filter is printed.
\<close>

theorem get_ssl_program:
  fixes s :: "(transfer_cb eh_clo, 'w, 'z) out_st_scheme"
  assumes "tls_program L content arrive flush ssl_pending fuel S unique below"
    and "getopt argv ''A:p:'' = (options, optind)" and "list_all (\<lambda>p. fst p \<in> set ''Ap'') options"
    and "length (drop optind argv) \<le> 1"
    and "parse_sockaddr_port L
      ((case last_arg (CHR ''A'') options of None \<Rightarrow> ''130.192.181.193'' | Some a \<Rightarrow> a) @ '':'' @
       (case last_arg (CHR ''p'') options of None \<Rightarrow> ''443'' | Some a \<Rightarrow> a)) sizeof_sockaddr_in = (NoError, sa, len)"
  shows "runs (get_ssl_main L S getopt (\<lambda>_. followed_by
        (makes_tls below S (next_bev s) (Suc (next_bev s))
          (net L arrive flush unique S fuel (next_bev s) (Event (BEV_EVENT_CONNECTED L))))
        (answers L content (net L arrive flush unique S fuel) (time_to_leave L unique S fuel)
          (Suc (next_bev s)) (''GET '' @ (case drop optind argv of [] \<Rightarrow> ''/'' | path # _ \<Rightarrow> path) @ crlf) pieces what)) argv) s
    (\<lambda>_ t. stdout t = stdout s @ concat pieces @ newline \<and> (\<exists>base. loop_left L base t))"
  by (rule tls_program.runs_get_ssl [where getopt = getopt, OF assms])

theorem get_ssl_program_witness:
  "runs (get_ssl_main sim_libevent demo_sys (\<lambda>_ _. ([(CHR ''p'', ''8443'')], 3)) (\<lambda>_. followed_by
        (makes_tls sim_below demo_sys 0 (Suc 0)
          (net sim_libevent sim_arrive sim_flush eh_unique demo_sys 1 0 (Event (BEV_EVENT_CONNECTED sim_libevent))))
        (answers sim_libevent sim_content (net sim_libevent sim_arrive sim_flush eh_unique demo_sys 1)
          (time_to_leave sim_libevent eh_unique demo_sys 1) (Suc 0) (''GET /x'' @ crlf) [''he'', ''llo''] 16))
      [''get'', ''-p'', ''8443'', ''/x'']) demo_out
    (\<lambda>_ t. stdout t = ''hello'' @ newline)"
proof -
  let ?o = "[(CHR ''p'', ''8443'')]" and ?argv = "[''get'', ''-p'', ''8443'', ''/x'']"
  have "parse_sockaddr_port sim_libevent
      ((case last_arg (CHR ''A'') ?o of None \<Rightarrow> ''130.192.181.193'' | Some a \<Rightarrow> a) @ '':'' @
       (case last_arg (CHR ''p'') ?o of None \<Rightarrow> ''443'' | Some a \<Rightarrow> a)) sizeof_sockaddr_in =
      (NoError, ''130.192.181.193:8443'', 16)"
    by (simp add: last_arg_Cons last_arg_Nil parse_sockaddr_port_def sim_libevent_def c_str_def sizeof_sockaddr_in_def)
  moreover have "list_all (\<lambda>p. fst p \<in> set ''Ap'') ?o" and "length (drop 3 ?argv) \<le> 1" by simp_all
  moreover have request: "''GET '' @ (case drop 3 ?argv of [] \<Rightarrow> ''/'' | path # _ \<Rightarrow> path) @ crlf = ''GET /x'' @ crlf"
    by simp
  moreover note get = get_ssl_program [OF sim_tls.tls_program_axioms, where getopt = "\<lambda>_ _. (?o, 3)" and argv = ?argv
      and optind = 3 and s = demo_out and pieces = "[''he'', ''llo'']" and what = 16, unfolded demo_out_simps]
  ultimately have "runs (get_ssl_main sim_libevent demo_sys (\<lambda>_ _. (?o, 3)) (\<lambda>_. followed_by
        (makes_tls sim_below demo_sys 0 (Suc 0)
          (net sim_libevent sim_arrive sim_flush eh_unique demo_sys 1 0 (Event (BEV_EVENT_CONNECTED sim_libevent))))
        (answers sim_libevent sim_content (net sim_libevent sim_arrive sim_flush eh_unique demo_sys 1)
          (time_to_leave sim_libevent eh_unique demo_sys 1) (Suc 0) (''GET /x'' @ crlf) [''he'', ''llo''] 16)) ?argv) demo_out
      (\<lambda>_ t. stdout t = '''' @ concat [''he'', ''llo''] @ newline \<and> (\<exists>base. loop_left sim_libevent base t))"
    unfolding request [symmetric] by blast
  then show ?thesis by (rule runs_mono) simp
qed

text \<open>
  C37: The echo server, from \<open>main\<close> to its end: it accepts one connection, and after the peer has sent its
  bytes, in pieces, and ended its side, it can read back exactly those bytes; then the server lets the
  connection go and leaves the loop.
\<close>

theorem echo_program:
  fixes s :: "(transfer_cb eh_clo, 'w, 'z) out_st_scheme"
  assumes "accepting_program L content arrive flush ssl_pending fuel S unique"
    and "parse_sockaddr_port L ''0.0.0.0:54321'' sizeof_sockaddr_in = (NoError, sa, len)" and "concat pieces \<noteq> ''''"
  shows "runs (echo_main L S (\<lambda>_. followed_by
        (mk_libevent_event_cb L unique (run_eh_event L id S (transfer_client L) fuel) (EV_READ L) (next_once s))
        (followed_by
          (followed_by (run_all (net L arrive flush unique S fuel (next_bev s)) (map Readable pieces))
            (followed_by (net L arrive flush unique S fuel (next_bev s) (Event what))
              (followed_by (peer_reads L content (net L arrive flush unique S fuel) (next_bev s) (concat pieces))
                (time_to_leave L unique S fuel))))
          (ret 1)))) s
    (\<lambda>_ t. \<exists>p. eh_callbacks (next_bev s) p (None, None, None) t)"
  by (rule accepting_program.runs_echo [OF assms])

theorem echo_program_witness:
  "runs (echo_main sim_libevent demo_sys (\<lambda>_. followed_by
        (mk_libevent_event_cb sim_libevent eh_unique (run_eh_event sim_libevent id demo_sys (transfer_client sim_libevent) 1)
          (EV_READ sim_libevent) 0)
        (followed_by
          (followed_by (run_all (net sim_libevent sim_arrive sim_flush eh_unique demo_sys 1 0) (map Readable [''pi'', ''ng'']))
            (followed_by (net sim_libevent sim_arrive sim_flush eh_unique demo_sys 1 0 (Event 16))
              (followed_by (peer_reads sim_libevent sim_content (net sim_libevent sim_arrive sim_flush eh_unique demo_sys 1) 0
                  (concat [''pi'', ''ng'']))
                (time_to_leave sim_libevent eh_unique demo_sys 1))))
          (ret 1)))) demo_out
    (\<lambda>_ t. \<exists>p. eh_callbacks 0 p (None, None, None) t)"
proof -
  have "parse_sockaddr_port sim_libevent ''0.0.0.0:54321'' sizeof_sockaddr_in = (NoError, ''0.0.0.0:54321'', 16)"
    by (simp add: parse_sockaddr_port_def sim_libevent_def c_str_def sizeof_sockaddr_in_def)
  moreover have "concat [''pi'', ''ng''] \<noteq> ''''" by simp
  ultimately show ?thesis
    using echo_program [OF sim_accepting.accepting_program_axioms, where s = demo_out and what = 16]
    unfolding demo_out_simps by blast
qed

end
