(* ===== verification/Object_Program.thy ===== *)
theory Object_Program
  imports Object_Order
begin

text \<open>
  The program \<open>example/common/object.cpp\<close>: it makes an object, and prints it with the lazy switch.  The
  state is what has been printed.  How a \<open>double\<close> is printed is the argument \<open>D\<close> of the definitions;
  it is a matter of the standard library.
\<close>

section \<open>Making the object\<close>

text \<open>A map from a list of entries: \<open>insert\<close> keeps the first of those with equivalent keys.\<close>

definition dict_insert :: "obj \<times> obj \<Rightarrow> dict \<Rightarrow> dict" where
  "dict_insert p m = (case map_find obj_less (fst p) m of
      None \<Rightarrow> map_set obj_less (fst p) (snd p) m
    | Some _ \<Rightarrow> m)"

definition Dict :: "(obj \<times> obj) list \<Rightarrow> dict" where
  "Dict entries = fold dict_insert entries []"

text \<open>\<open>dict[key] = value\<close>\<close>

definition set_entry :: "string \<Rightarrow> obj \<Rightarrow> dict \<Rightarrow> dict" where
  "set_entry key value m = map_set obj_less (ObjectStr key) value m"

text \<open>The doubles 64.2 and 1.65, as they are encoded.\<close>

definition create_object :: obj where
  "create_object =
     (let person = Dict
          [(ObjectStr ''name'', ObjectStr ''Simone Basso''),
           (ObjectStr ''age'', ObjectInt 33),
           (ObjectStr ''weight'', ObjectDouble (IEEE 0x40500CCCCCCCCCCD))];
        person = set_entry ''height'' (ObjectDouble (IEEE 0x3FFA666666666666)) person;
        person = set_entry ''address'' (ObjectDict (Dict
          [(ObjectStr ''city'', ObjectStr ''Turin''),
           (ObjectStr ''region'', ObjectStr ''Piedmont''),
           (ObjectStr ''country'', ObjectStr ''IT'')])) person;
        person = set_entry ''favorite_colors''
          (ObjectList [ObjectStr ''red'', ObjectStr ''green'', ObjectStr ''black'']) person
      in ObjectDict person)"

section \<open>Printing it\<close>

type_synonym out_prog = "(string, exn, unit) prog"

definition out :: "string \<Rightarrow> out_prog" where
  "out x = modify (\<lambda>printed. printed @ x)"

text \<open>
  The functions registered with the switches.  Those of an inner switch are called while one of an
  outer switch runs, so there is one client for each of the three switches.
\<close>

datatype object_cb =
    PrintInt
  | PrintDouble
  | PrintStr
  | PrintNotScalar
  | PrintDict
  | PrintList
  | PrintEntries
  | Nothing
  | PrintOtherwise

abbreviation wrong_closure :: out_prog where
  "wrong_closure \<equiv> raise (UndefinedBehaviour ''closure called at another type'')"

definition scalar_client :: "(double \<Rightarrow> string) \<Rightarrow> object_cb \<Rightarrow> switch_arg \<Rightarrow> out_prog" where
  "scalar_client D k a = (case (k, a) of
      (PrintInt, Int_Arg x) \<Rightarrow> out (show_int (sint x))
    | (PrintDouble, Double_Arg x) \<Rightarrow> out (D x)
    | (PrintStr, Str_Arg x) \<Rightarrow> out x
    | (PrintNotScalar, No_Arg) \<Rightarrow> out '' -not a scalar- ''
    | _ \<Rightarrow> wrong_closure)"

definition print_scalar :: "(double \<Rightarrow> string) \<Rightarrow> obj \<Rightarrow> out_prog" where
  "print_scalar D obj = run_switch (scalar_client D)
     (otherwise PrintNotScalar (case_str PrintStr (case_double PrintDouble (case_int PrintInt (switch_type obj)))))"

definition print_dict :: "(double \<Rightarrow> string) \<Rightarrow> dict \<Rightarrow> out_prog" where
  "print_dict D dict =
     followed_by (out ''{'')
       (followed_by
         (for_each_dict dict (\<lambda>key value.
            followed_by (print_scalar D key)
              (followed_by (out '': '') (followed_by (print_scalar D value) (out '', '')))))
         (out ''}''))"

definition print_list :: "(double \<Rightarrow> string) \<Rightarrow> obj list \<Rightarrow> out_prog" where
  "print_list D list =
     followed_by (out ''['')
       (followed_by
         (for_each_list list (\<lambda>elem. followed_by (print_scalar D elem) (out '', '')))
         (out '']''))"

definition value_client :: "(double \<Rightarrow> string) \<Rightarrow> object_cb \<Rightarrow> switch_arg \<Rightarrow> out_prog" where
  "value_client D k a = (case (k, a) of
      (PrintInt, Int_Arg x) \<Rightarrow> out (show_int (sint x))
    | (PrintDouble, Double_Arg x) \<Rightarrow> out (D x)
    | (PrintStr, Str_Arg x) \<Rightarrow> out x
    | (PrintDict, Dict_Arg x) \<Rightarrow> print_dict D x
    | (PrintList, List_Arg x) \<Rightarrow> print_list D x
    | _ \<Rightarrow> wrong_closure)"

definition print_value :: "(double \<Rightarrow> string) \<Rightarrow> obj \<Rightarrow> out_prog" where
  "print_value D value = run_switch (value_client D)
     (case_list_type PrintList (case_dict PrintDict (case_str PrintStr
       (case_double PrintDouble (case_int PrintInt (switch_type value))))))"

definition print_entries :: "(double \<Rightarrow> string) \<Rightarrow> dict \<Rightarrow> out_prog" where
  "print_entries D dict = for_each_dict dict (\<lambda>key value.
     followed_by (print_scalar D key)
       (followed_by (out '': '') (followed_by (print_value D value) (out [CHR 0x0A]))))"

definition main_switch_client :: "(double \<Rightarrow> string) \<Rightarrow> object_cb \<Rightarrow> switch_arg \<Rightarrow> out_prog" where
  "main_switch_client D k a = (case (k, a) of
      (PrintEntries, Dict_Arg dict) \<Rightarrow> print_entries D dict
    | (Nothing, Int_Arg _) \<Rightarrow> ret ()
    | (PrintOtherwise, No_Arg) \<Rightarrow> out (''OTHERWISE'' @ [CHR 0x0A])
    | _ \<Rightarrow> wrong_closure)"

definition print_object :: "(double \<Rightarrow> string) \<Rightarrow> obj \<Rightarrow> out_prog" where
  "print_object D object = run_switch (main_switch_client D) (case_dict PrintEntries (switch_type object))"

definition object_main :: "(double \<Rightarrow> string) \<Rightarrow> out_prog" where
  "object_main D =
     (let object = create_object
      in followed_by (print_object D object)
           (run_switch (main_switch_client D) (otherwise PrintOtherwise (case_int Nothing (switch_type object)))))"

section \<open>What is printed\<close>

text \<open>The texts, as functions of the objects.\<close>

definition scalar_text :: "(double \<Rightarrow> string) \<Rightarrow> obj \<Rightarrow> string" where
  "scalar_text D x = (case x of
      ObjectInt i \<Rightarrow> show_int (sint i)
    | ObjectDouble d \<Rightarrow> D d
    | ObjectStr s \<Rightarrow> s
    | _ \<Rightarrow> '' -not a scalar- '')"

definition entry_text :: "(obj \<Rightarrow> string) \<Rightarrow> (obj \<Rightarrow> string) \<Rightarrow> string \<Rightarrow> obj \<times> obj \<Rightarrow> string" where
  "entry_text f g end_of p = f (fst p) @ '': '' @ g (snd p) @ end_of"

definition value_text :: "(double \<Rightarrow> string) \<Rightarrow> obj \<Rightarrow> string" where
  "value_text D x = (case x of
      ObjectNone \<Rightarrow> ''''
    | ObjectDict m \<Rightarrow> ''{'' @ concat (map (entry_text (scalar_text D) (scalar_text D) '', '') m) @ ''}''
    | ObjectList xs \<Rightarrow> ''['' @ concat (map (\<lambda>y. scalar_text D y @ '', '') xs) @ '']''
    | _ \<Rightarrow> scalar_text D x)"

lemma out_out: "followed_by (out x) (out y) = out (x @ y)"
  and out_out_then: "followed_by (out x) (followed_by (out y) m) = followed_by (out (x @ y)) m"
  and out_Nil: "out '''' = ret ()"
  by (rule ext, simp add: out_def prog_simps)+

lemma run_all_out:
  assumes "\<And>x. f x = out (g x)"
  shows "run_all f xs = out (concat (map g xs))"
  by (induction xs) (simp_all add: assms out_out out_Nil)

lemma print_scalar_text: "print_scalar D x = out (scalar_text D x)"
  by (cases x) (simp_all add: print_scalar_def run_switch_def switch_defs switch_case_def scalar_client_def
      scalar_text_def)

lemma print_dict_text:
  "print_dict D m = out (''{'' @ concat (map (entry_text (scalar_text D) (scalar_text D) '', '') m) @ ''}'')"
  unfolding print_dict_def for_each_dict_def
  by (subst run_all_out [where g = "entry_text (scalar_text D) (scalar_text D) '', ''"])
    (simp_all add: print_scalar_text out_out entry_text_def)

lemma print_list_text:
  "print_list D xs = out (''['' @ concat (map (\<lambda>y. scalar_text D y @ '', '') xs) @ '']'')"
  unfolding print_list_def for_each_list_def
  by (subst run_all_out [where g = "\<lambda>y. scalar_text D y @ '', ''"]) (simp_all add: print_scalar_text out_out)

lemma print_value_text: "print_value D x = out (value_text D x)"
  by (cases x) (simp_all add: print_value_def run_switch_def switch_defs switch_case_def value_client_def
      value_text_def scalar_text_def print_dict_text print_list_text out_Nil)

lemma print_entries_text:
  "print_entries D m = out (concat (map (entry_text (scalar_text D) (value_text D) [CHR 0x0A]) m))"
  unfolding print_entries_def for_each_dict_def
  by (rule run_all_out) (simp add: print_scalar_text print_value_text out_out entry_text_def)

text \<open>An object is printed by its entries, in order, and nothing is printed of one that is no dictionary.\<close>

lemma print_object_text:
  "print_object D x = out (case x of
      ObjectDict m \<Rightarrow> concat (map (entry_text (scalar_text D) (value_text D) [CHR 0x0A]) m)
    | _ \<Rightarrow> '''')"
  by (cases x) (simp_all add: print_object_def run_switch_def switch_defs switch_case_def main_switch_client_def
      print_entries_text out_Nil)

text \<open>Comparing the keys, by their bytes.\<close>

lemmas compare_keys = str_less_def uchar_def of_char_def Dict_def dict_insert_def set_entry_def

lemma address_entries:
  "Dict [(ObjectStr ''city'', ObjectStr ''Turin''), (ObjectStr ''region'', ObjectStr ''Piedmont''),
      (ObjectStr ''country'', ObjectStr ''IT'')] =
    [(ObjectStr ''city'', ObjectStr ''Turin''), (ObjectStr ''country'', ObjectStr ''IT''),
     (ObjectStr ''region'', ObjectStr ''Piedmont'')]"
  by (simp add: compare_keys)

lemma create_object_entries:
  "create_object = ObjectDict
     [(ObjectStr ''address'', ObjectDict (Dict [(ObjectStr ''city'', ObjectStr ''Turin''),
          (ObjectStr ''region'', ObjectStr ''Piedmont''), (ObjectStr ''country'', ObjectStr ''IT'')])),
      (ObjectStr ''age'', ObjectInt 33),
      (ObjectStr ''favorite_colors'', ObjectList [ObjectStr ''red'', ObjectStr ''green'', ObjectStr ''black'']),
      (ObjectStr ''height'', ObjectDouble (IEEE 0x3FFA666666666666)),
      (ObjectStr ''name'', ObjectStr ''Simone Basso''),
      (ObjectStr ''weight'', ObjectDouble (IEEE 0x40500CCCCCCCCCCD))]"
  unfolding create_object_def address_entries by (simp add: compare_keys)

text \<open>
  C38: The program prints the entries of a dictionary in the order of their keys, each by the functions
  registered for its type; what it prints of its own object is this text, whose order is not that in
  which the entries were made, and the last line comes from the function registered with
  \<open>otherwise\<close>.
\<close>

theorem object_program:
  "print_object D (ObjectDict m) = out (concat (map (\<lambda>(k, v).
      scalar_text D k @ '': '' @ value_text D v @ [CHR 0x0A]) m)) \<and>
   object_main D s = (Return (), s @
      ''address: {city: Turin, country: IT, region: Piedmont, }'' @ [CHR 0x0A] @
      ''age: 33'' @ [CHR 0x0A] @
      ''favorite_colors: [red, green, black, ]'' @ [CHR 0x0A] @
      ''height: '' @ D (IEEE 0x3FFA666666666666) @ [CHR 0x0A] @
      ''name: Simone Basso'' @ [CHR 0x0A] @
      ''weight: '' @ D (IEEE 0x40500CCCCCCCCCCD) @ [CHR 0x0A] @
      ''OTHERWISE'' @ [CHR 0x0A])"
proof
  show "print_object D (ObjectDict m) = out (concat (map (\<lambda>(k, v).
      scalar_text D k @ '': '' @ value_text D v @ [CHR 0x0A]) m))"
    by (simp add: print_object_text entry_text_def [abs_def] case_prod_beta')
  have "run_switch (main_switch_client D) (otherwise PrintOtherwise (case_int Nothing (switch_type create_object))) =
      out (''OTHERWISE'' @ [CHR 0x0A])"
    by (simp add: create_object_entries run_switch_def switch_defs switch_case_def main_switch_client_def)
  moreover have "show_int (sint (33 :: u32)) = ''33''" by code_simp
  ultimately show "object_main D s = (Return (), s @
      ''address: {city: Turin, country: IT, region: Piedmont, }'' @ [CHR 0x0A] @
      ''age: 33'' @ [CHR 0x0A] @
      ''favorite_colors: [red, green, black, ]'' @ [CHR 0x0A] @
      ''height: '' @ D (IEEE 0x3FFA666666666666) @ [CHR 0x0A] @
      ''name: Simone Basso'' @ [CHR 0x0A] @
      ''weight: '' @ D (IEEE 0x40500CCCCCCCCCCD) @ [CHR 0x0A] @
      ''OTHERWISE'' @ [CHR 0x0A])"
    unfolding object_main_def Let_def print_object_text
    by (simp add: out_out create_object_entries address_entries entry_text_def scalar_text_def value_text_def)
      (simp add: out_def prog_simps)
qed

end
