(* ===== verification/Socks_Programs.thy ===== *)
theory Socks_Programs
  imports Socks Evhelpers_Programs
begin

text \<open>
  The programs \<open>example/net/socks-get.cpp\<close> and \<open>socks-get-ssl.cpp\<close>, which ask for a document through a
  SOCKS proxy, over TCP and over TLS: \<open>Socks\<close> makes the connection, and \<open>evhelpers\<close> the transfer.  The
  closures of the two classes and those of the programs are in one datatype.
\<close>

section \<open>Closures\<close>

text \<open>
  The callbacks that the programs give to \<open>Socks::connect\<close>, over TCP and over TLS, and to \<open>sendrecv\<close>.  The
  number is the address of the string to collect in.
\<close>

datatype proxy_cb =
    Proxied evbase nat
  | ProxiedTls evbase nat
  | Fetched evbase

text \<open>\<open>TlsEvent\<close> is the closure that the second program puts on the TLS connection itself.\<close>

datatype proxy_clo =
    OfSocks "proxy_cb socks_clo"
  | OfEvhelpers "proxy_cb eh_clo"
  | TlsEvent evbase nat nat

type_synonym ('w, 'z, 'a) proxy_prog = "(proxy_clo, 'w, 'z, 'a) out_prog"

section \<open>The callbacks\<close>

definition fetch :: "'w libevent \<Rightarrow> evbase \<Rightarrow> nat \<Rightarrow> nat \<Rightarrow> ('w, 'z, unit) proxy_prog" where
  "fetch L base outp bev =
     sendrecv L OfEvhelpers bev (''GET /robots.txt'' @ crlf) (Fetched base) (Some outp) None False"

definition print_status :: "socks_status \<Rightarrow> ('w, 'z, unit) proxy_prog" where
  "print_status status = print_out (''status: '' @ show_int (socks_status_value status) @ newline)"

definition proxied :: "'w libevent \<Rightarrow> evbase \<Rightarrow> nat \<Rightarrow> socks_status \<Rightarrow> nat option \<Rightarrow> ('w, 'z, unit) proxy_prog" where
  "proxied L base outp status bev =
     followed_by (print_status status)
       (if status \<noteq> OK then break_soon L OfEvhelpers base
        else andthen (var_arrow bev) (fetch L base outp))"

definition proxied_tls ::
  "'w libevent \<Rightarrow> 'w sys \<Rightarrow> evbase \<Rightarrow> nat \<Rightarrow> socks_status \<Rightarrow> nat option \<Rightarrow> ('w, 'z, unit) proxy_prog" where
  "proxied_tls L S base outp status bev =
     followed_by (print_status status)
       (if status \<noteq> OK then break_soon L OfEvhelpers base
        else andthen (SslContext_get S)
          (\<lambda>context. andthen (lib (SSL_new S context))
            (\<lambda>secure. andthen (var_arrow bev)
              (\<lambda>h. if secure = nullptr then followed_by (setcb None None None h) (raise StdException)
                 else andthen (openssl_filter_new L base h secure (BUFFEREVENT_SSL_CONNECTING L) (BEV_OPT_CLOSE_ON_FREE L))
                   (\<lambda>ssl_bev. setcb None None (Some (TlsEvent base outp ssl_bev)) ssl_bev)))))"

definition tls_event :: "'w libevent \<Rightarrow> evbase \<Rightarrow> nat \<Rightarrow> nat \<Rightarrow> u16 \<Rightarrow> ('w, 'z, unit) proxy_prog" where
  "tls_event L base outp ssl_bev what =
     followed_by (print_out (''what: '' @ event_string L what @ newline))
       (if what \<noteq> BEV_EVENT_CONNECTED L
        then followed_by (break_soon L OfEvhelpers base) (setcb None None None ssl_bev)
        else fetch L base outp ssl_bev)"

text \<open>The callback of \<open>Socks::connect\<close>, and the callback of \<open>sendrecv\<close>.\<close>

definition socks_callback :: "'w libevent \<Rightarrow> 'w sys \<Rightarrow> (proxy_cb, proxy_clo, 'w, 'z out_st_ext ehst_ext) socks_client"
where
  "socks_callback L S k status bev = (case k of
      Proxied base outp \<Rightarrow> proxied L base outp status bev
    | ProxiedTls base outp \<Rightarrow> proxied_tls L S base outp status bev
    | _ \<Rightarrow> raise (UndefinedBehaviour ''closure called at another type''))"

definition fetch_callback :: "'w libevent \<Rightarrow> (proxy_cb, proxy_clo, 'w, 'z out_st_ext) eh_client" where
  "fetch_callback L k a = (case (k, a) of
      (Fetched base, NoArg) \<Rightarrow> break_soon L OfEvhelpers base
    | _ \<Rightarrow> raise (UndefinedBehaviour ''closure called at another type''))"

definition run_proxy_clo :: "'w libevent \<Rightarrow> 'w sys \<Rightarrow> proxy_clo \<Rightarrow> ('w, 'z, unit) proxy_prog" where
  "run_proxy_clo L S c = (case c of
      OfSocks c \<Rightarrow> run_socks_clo L OfSocks (socks_callback L S) c
    | OfEvhelpers c \<Rightarrow> run_eh_clo L (fetch_callback L) c
    | TlsEvent _ _ _ \<Rightarrow> raise (UndefinedBehaviour ''not a void() closure''))"

definition run_proxy_event :: "'w libevent \<Rightarrow> 'w sys \<Rightarrow> nat \<Rightarrow> proxy_clo \<Rightarrow> u16 \<Rightarrow> ('w, 'z, unit) proxy_prog" where
  "run_proxy_event L S fuel c what = (case c of
      OfSocks c \<Rightarrow> run_socks_event L OfSocks (socks_callback L S) c what
    | OfEvhelpers c \<Rightarrow> run_eh_event L OfEvhelpers S (fetch_callback L) fuel c what
    | TlsEvent base outp ssl_bev \<Rightarrow> tls_event L base outp ssl_bev what)"

section \<open>The programs\<close>

text \<open>As in \<open>Evhelpers_Programs\<close>, \<open>out\<close> is the string at address 0 and \<open>dispatch\<close> the event loop.\<close>

definition socks_get_main ::
  "'w libevent \<Rightarrow> 'w sys \<Rightarrow> (evbase \<Rightarrow> ('w, 'z, unit) proxy_prog) \<Rightarrow> ('w, 'z, unit) proxy_prog" where
  "socks_get_main L S dispatch =
     followed_by be_verbose
       (followed_by new_out
         (andthen (EventBase_create L)
           (\<lambda>base. followed_by
              (connect_endpoint L OfSocks (socks_callback L S) base ''130.192.16.172'' 80 (Proxied base 0)
                ''127.0.0.1:9050'' None)
              (followed_by (dispatch base)
                (andthen (gets (\<lambda>s. strings s 0)) (\<lambda>out. print_out (out @ newline)))))))"

definition socks_get_ssl_main ::
  "'w libevent \<Rightarrow> 'w sys \<Rightarrow> (evbase \<Rightarrow> ('w, 'z, unit) proxy_prog) \<Rightarrow> ('w, 'z, unit) proxy_prog" where
  "socks_get_ssl_main L S dispatch =
     followed_by be_verbose
       (followed_by new_out
         (andthen (EventBase_create L)
           (\<lambda>base. followed_by
              (connect_endpoint L OfSocks (socks_callback L S) base ''130.192.16.172'' 443 (ProxiedTls base 0)
                ''127.0.0.1:9050'' None)
              (followed_by (dispatch base)
                (andthen (gets (\<lambda>s. strings s 0)) (\<lambda>out. print_out (out @ newline)))))))"

end
