(* ===== verification/Socks_Programs_Session.thy ===== *)
theory Socks_Programs_Session
  imports Socks_Programs Socks_Replies Fetching
begin

text \<open>
  What happens while the loop of a program of \<open>example/net\<close> runs: the handshake with the proxy, and over
  the connection it makes, the transfer.  The contracts of \<open>Socks\<close> and of \<open>evhelpers\<close> hold together
  of one state, and each is used for the closures that are its own.
\<close>

definition breaks_proxy :: "proxy_clo \<Rightarrow> bool" where
  "breaks_proxy c = (case c of OfEvhelpers c \<Rightarrow> breaks_loop c | _ \<Rightarrow> False)"

locale proxy_program =
  dispatching L content arrive flush "run_proxy_clo L S" "run_proxy_event L S fuel" unique +
  loop_env L content arrive flush +
  transfer_api L content arrive flush ssl_pending fuel
  for L :: "'w libevent" and content :: "'w \<Rightarrow> cptr \<Rightarrow> string"
    and arrive :: "cptr \<Rightarrow> string \<Rightarrow> 'w \<Rightarrow> 'w" and flush :: "cptr \<Rightarrow> 'w \<Rightarrow> 'w"
    and ssl_pending :: "'w \<Rightarrow> cptr \<Rightarrow> nat list" and fuel :: nat and S :: "'w sys"
    and unique :: "nat \<Rightarrow> (proxy_clo, 'w, 'z out_st_ext) ehst_scheme \<Rightarrow> bool"
begin

sublocale sk: socks_calls L content arrive flush "run_proxy_clo L S" "run_proxy_event L S fuel" unique OfSocks
  "socks_callback L S"
  by unfold_locales (simp_all add: run_proxy_clo_def run_proxy_event_def fun_eq_iff)

sublocale eh: fetching L content arrive flush ssl_pending fuel "run_proxy_clo L S" "run_proxy_event L S fuel" unique
  OfEvhelpers S "fetch_callback L" breaks_proxy
  by unfold_locales
    (auto simp: run_proxy_clo_def run_proxy_event_def fun_eq_iff breaks_proxy_def breaks_loop_def
      split: proxy_clo.splits eh_clo.splits)

abbreviation the_request :: string where
  "the_request \<equiv> ''GET /robots.txt'' @ crlf"

text \<open>The connection \<open>h\<close> is free to be used, and nothing is in its buffers.\<close>

abbreviation idle :: "nat \<Rightarrow> cptr \<Rightarrow> (proxy_clo, 'w, 'z) out_st_scheme \<Rightarrow> bool" where
  "idle h p s \<equiv> p \<noteq> nullptr \<and> (\<exists>b. bevs s h = Some b \<and> varp b \<and> bevp b = p) \<and>
     inbuf p s = '''' \<and> outbuf p s = ''''"

lemma runs_fetch:
  fixes s :: "(proxy_clo, 'w, 'z) out_st_scheme"
  assumes "idle h p s" and "strings s outp = ''''"
  shows "runs (fetch L base outp h) s (\<lambda>_ t.
    eh.matches h p (Fetched base) (Some outp) False (sent the_request) t \<and> same_rest s t)"
proof -
  obtain b where b: "bevs s h = Some b" "varp b" "bevp b = p" "p \<noteq> nullptr" using assms(1) by auto
  have io: "bufferevent_get_input L p \<noteq> bufferevent_get_output L p"
    using input_not_output [OF b(4) b(4)] .
  show ?thesis
    unfolding fetch_def by (rule eh.runs_sendrecv [OF b]) (use assms io in \<open>auto simp: eh.matches_def\<close>)
qed

lemma fetched: "fetch_callback L (Fetched base) NoArg = break_soon L OfEvhelpers base"
  by (simp add: fetch_callback_def)

lemma runs_print_status:
  fixes s :: "(proxy_clo, 'w, 'z) out_st_scheme"
  shows "runs (print_status st) s P \<longleftrightarrow>
    P () (s\<lparr>stdout := stdout s @ ''status: '' @ show_int (socks_status_value st) @ newline\<rparr>)"
  by (simp add: print_status_def print_out_def runs_modify)

lemma idle_finished:
  fixes s t :: "(proxy_clo, 'w, 'z) out_st_scheme"
  assumes "sk.shaking h p k host port \<lparr>hs_phase = Finished OK, hs_in = '''', hs_out = ''''\<rparr> s t"
  shows "idle h p t" and "strings t = strings s" and "stdout t = stdout s" and "next_bev t = next_bev s"
  using assms more_out [of t s] by (auto simp: sk.matches_def in_phase_def)

text \<open>The proxy has granted the connection: the request is sent over it.\<close>

lemma runs_proxied:
  fixes s t :: "(proxy_clo, 'w, 'z) out_st_scheme"
  assumes "sk.shaking h p k host port \<lparr>hs_phase = Finished OK, hs_in = '''', hs_out = ''''\<rparr> s t" and "strings s 0 = ''''"
  shows "runs (socks_callback L S (Proxied base 0) OK (Some h)) t (\<lambda>_ u.
    eh.matches h p (Fetched base) (Some 0) False (sent the_request) u \<and>
    stdout u = stdout s @ ''status: 0'' @ newline)"
proof -
  note t = idle_finished [OF assms(1)]
  let ?t = "t\<lparr>stdout := stdout t @ ''status: 0'' @ newline\<rparr>"
  have "runs (fetch L base 0 h) ?t (\<lambda>_ u.
      eh.matches h p (Fetched base) (Some 0) False (sent the_request) u \<and> same_rest ?t u)"
    by (rule runs_fetch) (use t assms(2) in auto)
  then have "runs (fetch L base 0 h) ?t (\<lambda>_ u.
      eh.matches h p (Fetched base) (Some 0) False (sent the_request) u \<and> stdout u = stdout s @ ''status: 0'' @ newline)"
    by (rule runs_mono) (use t(3) in \<open>auto dest!: stdout_more\<close>)
  moreover have "show_int 0 = ''0''" by code_simp
  ultimately show ?thesis
    by (simp add: socks_callback_def proxied_def runs_andthen runs_print_status var_arrow_def runs_ret)
qed

section \<open>Over TCP\<close>

abbreviation granted_by :: "nat \<Rightarrow> string \<Rightarrow> u16 \<Rightarrow> string list \<Rightarrow> string list \<Rightarrow> string \<Rightarrow> ('w, 'z, unit) proxy_prog" where
  "granted_by \<equiv> proxy_grants L content handle"

text \<open>What ends a run: the server answers over \<open>h\<close>, and the timer ends the loop.\<close>

abbreviation answered_over :: "nat \<Rightarrow> string list \<Rightarrow> u16 \<Rightarrow> ('w, 'z, unit) proxy_prog" where
  "answered_over h pieces what \<equiv> followed_by (server_reads h the_request)
     (followed_by (run_all (handle h) (map Readable pieces)) (followed_by (handle h (Event what)) eh.leave))"

lemma runs_answered_over:
  fixes s :: "(proxy_clo, 'w, 'z) out_st_scheme"
  assumes "eh.matches h p (Fetched base) (Some 0) False (sent the_request) s" and "stdout s = printed"
  shows "runs (answered_over h pieces what) s (\<lambda>_ t. strings t 0 = concat pieces \<and> stdout t = printed \<and>
    (\<exists>base. loop_left L base t))"
  by (rule runs_mono [OF eh.runs_answered [OF assms(1) fetched]]) (use assms(2) in \<open>auto dest!: stdout_more\<close>)

lemma runs_proxy_main:
  fixes s :: "(proxy_clo, 'w, 'z) out_st_scheme"
  assumes "parse_sockaddr_port L ''127.0.0.1:9050'' 128 = (NoError, sa, len)"
    and "\<And>base t p. sk.matches (next_bev s) p (k base) host port sk.new_hs t \<Longrightarrow> strings t 0 = '''' \<Longrightarrow>
      stdout t = stdout s \<Longrightarrow> next_bev t = Suc (next_bev s) \<Longrightarrow>
      runs events t (\<lambda>_ u. \<exists>base. loop_left L base u \<and> Q (u\<lparr>stdout := stdout u @ strings u 0 @ newline\<rparr>))"
  shows "runs (followed_by be_verbose (followed_by new_out (andthen (EventBase_create L)
      (\<lambda>base. followed_by (connect_endpoint L OfSocks (socks_callback L S) base host port (k base) ''127.0.0.1:9050'' None)
        (followed_by events (andthen (gets (\<lambda>s. strings s 0)) (\<lambda>out. print_out (out @ newline)))))))) s
    (\<lambda>_ t. Q t \<and> (\<exists>base. loop_left L base t))"
  unfolding runs_new_out
proof (rule runs_EventBase_create, subst runs_andthen, rule sk.runs_connect_endpoint_then [OF assms(1)], goal_cases)
  case (1 b w t p)
  then have "strings t 0 = ''''" "stdout t = stdout s" "next_bev t = Suc (next_bev s)"
    using more_out [OF 1(3)] by simp_all
  note run = assms(2) [OF _ this]
  show ?case
    unfolding runs_andthen [of events] runs_print_result
    by (rule runs_mono [OF run]) (use 1 in \<open>auto simp: loop_left_def\<close>)
qed

lemma runs_socks_get:
  fixes s :: "(proxy_clo, 'w, 'z) out_st_scheme"
  assumes "parse_sockaddr_port L ''127.0.0.1:9050'' 128 = (NoError, sa, len)"
    and "wf_addr addr" and "concat xs = [CHR 0x05, CHR 0x00]" and "concat ys @ y = proxy_reply addr (hi, lo)"
    and "y \<noteq> ''''"
  shows "runs (socks_get_main L S (\<lambda>_. followed_by (granted_by (next_bev s) ''130.192.16.172'' 80 xs ys y)
      (answered_over (next_bev s) pieces what))) s
    (\<lambda>_ t. stdout t = stdout s @ ''status: 0'' @ newline @ concat pieces @ newline \<and> (\<exists>base. loop_left L base t))"
  unfolding socks_get_main_def
proof (rule runs_proxy_main [OF assms(1)], rule runs_seq)
  fix base p and t :: "(proxy_clo, 'w, 'z) out_st_scheme"
  let ?h = "next_bev s"
  let ?Q = "\<lambda>u. eh.matches ?h p (Fetched base) (Some 0) False (sent the_request) u \<and>
      stdout u = stdout t @ ''status: 0'' @ newline"
  assume t: "sk.matches ?h p (Proxied base 0) ''130.192.16.172'' 80 sk.new_hs t" "strings t 0 = ''''"
    "stdout t = stdout s" "next_bev t = Suc ?h"
  show "runs (granted_by ?h ''130.192.16.172'' 80 xs ys y) t (\<lambda>_. ?Q)"
  proof (rule sk.runs_granted_then [OF t(1) _ assms(2-5)])
    fix u
    assume "sk.shaking ?h p (Proxied base 0) ''130.192.16.172'' 80
        \<lparr>hs_phase = Finished OK, hs_in = '''', hs_out = ''''\<rparr> t u"
    then show "runs (socks_callback L S (Proxied base 0) OK (Some ?h)) u (\<lambda>_. ?Q)"
      by (rule runs_proxied) (rule t(2))
  next
    fix u v :: "(proxy_clo, 'w, 'z) out_st_scheme"
    assume u: "?Q u" "ignored ?h u v"
    then show "?Q v" using eh.more_ignored [OF u(2)] by (auto simp: eh.matches_ignored dest!: stdout_more)
  qed (auto dest: eh.matches_bev simp del: not_None_eq)
  fix u
  assume "?Q u"
  then show "runs (answered_over ?h pieces what) u (\<lambda>_ u. \<exists>base'. loop_left L base' u \<and>
      stdout (u\<lparr>stdout := stdout u @ strings u 0 @ newline\<rparr>) =
        stdout s @ ''status: 0'' @ newline @ concat pieces @ newline)"
    by (elim conjE, intro runs_mono [OF runs_answered_over]) (auto simp: t(3))
qed

section \<open>A proxy that refuses\<close>

text \<open>
  The closures of both programs do the same with a status other than \<open>OK\<close>: they print it, and have the
  loop broken.
\<close>

lemma runs_refused_client:
  fixes s t :: "(proxy_clo, 'w, 'z) out_st_scheme"
  assumes "k = Proxied base 0 \<or> k = ProxiedTls base 0" and "st \<noteq> OK"
    and "sk.shaking h p k host port a s t" and "hs_phase a = Finished st" and "strings s 0 = ''''"
  shows "runs (socks_callback L S k st r) t (\<lambda>_ u. ending breaks_proxy u \<and> bevs u h \<noteq> None \<and> strings u 0 = '''' \<and>
    stdout u = stdout s @ ''status: '' @ show_int (socks_status_value st) @ newline)"
proof -
  let ?t = "t\<lparr>stdout := stdout t @ ''status: '' @ show_int (socks_status_value st) @ newline\<rparr>"
  have live: "bevs t h \<noteq> None" using assms(3) by (auto simp: sk.matches_def in_phase_def)
  have keep: "strings t = strings s" "stdout t = stdout s" using assms(3) more_out [of t s] by auto
  have "runs (break_soon L OfEvhelpers base) ?t (\<lambda>_ u. ending breaks_proxy u \<and> bevs u h \<noteq> None \<and> strings u 0 = '''' \<and>
      stdout u = stdout s @ ''status: '' @ show_int (socks_status_value st) @ newline)"
    by (rule eh.runs_break_soon) (use live assms(5) keep in \<open>auto simp: ending_def ends_loop_def breaks_proxy_def breaks_loop_def\<close>)
  with assms(1,2) show ?thesis
    by (auto simp: socks_callback_def proxied_def proxied_tls_def runs_andthen runs_print_status)
qed

lemma runs_refused:
  fixes s :: "(proxy_clo, 'w, 'z) out_st_scheme"
  assumes "parse_sockaddr_port L ''127.0.0.1:9050'' 128 = (NoError, sa, len)"
    and "\<And>base. k base = Proxied base 0 \<or> k base = ProxiedTls base 0"
    and "\<forall>st. hs_phase (hs_run sk.up host port es sk.new_hs) \<noteq> Finished st"
    and "hs_phase (hs_step sk.up host port e (hs_run sk.up host port es sk.new_hs)) = Finished st" and "st \<noteq> OK"
  shows "runs (followed_by be_verbose (followed_by new_out (andthen (EventBase_create L)
      (\<lambda>base. followed_by (connect_endpoint L OfSocks (socks_callback L S) base host port (k base) ''127.0.0.1:9050'' None)
        (followed_by (followed_by (run_all (handle (next_bev s)) es) (followed_by (handle (next_bev s) e) eh.leave))
          (andthen (gets (\<lambda>s. strings s 0)) (\<lambda>out. print_out (out @ newline)))))))) s
    (\<lambda>_ t. stdout t = stdout s @ ''status: '' @ show_int (socks_status_value st) @ newline @ newline \<and>
      (\<exists>base. loop_left L base t))"
proof (rule runs_proxy_main [OF assms(1)], rule runs_seq [OF _ runs_seq])
  fix base p and t :: "(proxy_clo, 'w, 'z) out_st_scheme"
  let ?h = "next_bev s" and ?a = "hs_run sk.up host port es sk.new_hs"
  let ?line = "stdout s @ ''status: '' @ show_int (socks_status_value st) @ newline"
  let ?Q = "\<lambda>u :: (proxy_clo, 'w, 'z) out_st_scheme. ending breaks_proxy u \<and> bevs u ?h \<noteq> None \<and>
      strings u 0 = '''' \<and> stdout u = ?line"
  assume t: "sk.matches ?h p (k base) host port sk.new_hs t" "strings t 0 = ''''" "stdout t = stdout s"
  show "runs (run_all (handle ?h) es) t (\<lambda>_ u. sk.shaking ?h p (k base) host port ?a t u)"
    by (rule sk.runs_unfinished [OF t(1) assms(3)])
  show "runs (handle ?h e) u (\<lambda>_. ?Q)" if u: "sk.shaking ?h p (k base) host port ?a t u" for u
  proof (rule sk.runs_handle_then [where a = ?a])
    show "sk.goes ?h p (k base) host port (hs_phase ?a) (hs_step sk.up host port e ?a) u ?Q"
      using assms(3,4,5) u runs_refused_client [OF assms(2,5) _ assms(4) t(2), where p = p and h = ?h and host = host and port = port]
      by (auto simp: sk.goes_def sk.reports_def hs_calls_def kept_def t(3) split: phase.splits)
  next
    fix v w :: "(proxy_clo, 'w, 'z) out_st_scheme"
    assume v: "?Q v" and i: "ignored ?h v w"
    then have "strings w = strings v" "stdout w = stdout v" "bevs w = bevs v"
      using eh.more_ignored [OF i] by (auto simp: ignored_def dest!: stdout_more)
    with v show "?Q w" using ignored_ending [OF i] by simp
  qed (use u in simp_all)
  fix u :: "(proxy_clo, 'w, 'z) out_st_scheme"
  assume "?Q u"
  then show "runs eh.leave u (\<lambda>_ u. \<exists>base'. loop_left L base' u \<and>
      stdout (u\<lparr>stdout := stdout u @ strings u 0 @ newline\<rparr>) =
        stdout s @ ''status: '' @ show_int (socks_status_value st) @ newline @ newline)"
    by (elim conjE, intro runs_mono [OF eh.runs_leave]) (auto dest!: stdout_more)
qed

end

section \<open>Over TLS\<close>

locale proxy_tls_program =
  proxy_program L content arrive flush ssl_pending fuel S unique +
  tls_api L content S below
  for L :: "'w libevent" and content :: "'w \<Rightarrow> cptr \<Rightarrow> string"
    and arrive :: "cptr \<Rightarrow> string \<Rightarrow> 'w \<Rightarrow> 'w" and flush :: "cptr \<Rightarrow> 'w \<Rightarrow> 'w"
    and ssl_pending :: "'w \<Rightarrow> cptr \<Rightarrow> nat list" and fuel :: nat and S :: "'w sys"
    and unique :: "nat \<Rightarrow> (proxy_clo, 'w, 'z out_st_ext) ehst_scheme \<Rightarrow> bool"
    and below :: "'w \<Rightarrow> cptr \<Rightarrow> (cptr \<times> cptr) option"
begin

text \<open>The TLS connection \<open>g\<close> is being made.\<close>

definition securing :: "nat \<Rightarrow> evbase \<Rightarrow> string \<Rightarrow> (proxy_clo, 'w, 'z) out_st_scheme \<Rightarrow> bool" where
  "securing g base printed s \<longleftrightarrow> (\<exists>p. idle g p s) \<and> strings s 0 = '''' \<and> stdout s = printed \<and>
     (\<exists>b. bevs s g = Some b \<and> event_cb b = Some (TlsEvent base 0 g))"

lemma securing_ignored:
  fixes s t :: "(proxy_clo, 'w, 'z) out_st_scheme"
  assumes "securing g base printed s" and "ignored h s t"
  shows "securing g base printed t"
proof -
  have "bevs t = bevs s" "content (world t) = content (world s)" "strings t = strings s" "ehst.more t = ehst.more s"
    using assms(2) by (auto simp: ignored_def)
  with assms(1) stdout_more [of t s] show ?thesis by (simp add: securing_def)
qed

lemma runs_proxied_tls:
  fixes s t :: "(proxy_clo, 'w, 'z) out_st_scheme"
  assumes "sk.shaking h p k host port \<lparr>hs_phase = Finished OK, hs_in = '''', hs_out = ''''\<rparr> s t" and "strings s 0 = ''''"
    and "h < next_bev s"
  shows "runs (socks_callback L S (ProxiedTls base 0) OK (Some h)) t (\<lambda>_ u.
    bevs u h \<noteq> None \<and> securing (next_bev s) base (stdout s @ ''status: 0'' @ newline) u \<and>
    tls_filter below S p (next_bev s) u)"
proof -
  note t = idle_finished [OF assms(1)]
  obtain b where b: "bevs t h = Some b" "varp b" "bevp b = p" "p \<noteq> nullptr" using t(1) by auto
  let ?g = "next_bev s"
  let ?t = "t\<lparr>stdout := stdout t @ ''status: 0'' @ newline\<rparr>"
  have "runs (andthen (SslContext_get S)
      (\<lambda>context. andthen (lib (SSL_new S context))
        (\<lambda>secure. if secure = nullptr then followed_by (setcb None None None h) (raise StdException)
           else andthen (openssl_filter_new L base h secure (BUFFEREVENT_SSL_CONNECTING L) (BEV_OPT_CLOSE_ON_FREE L))
             (\<lambda>ssl_bev. setcb None None (Some (TlsEvent base 0 ssl_bev)) ssl_bev)))) ?t (\<lambda>_ u.
      bevs u h \<noteq> None \<and> securing ?g base (stdout s @ ''status: 0'' @ newline) u \<and> tls_filter below S p ?g u)"
  proof (subst runs_andthen, rule runs_SslContext_get, subst runs_andthen, rule runs_SSL_new, goal_cases)
    case (1 c w ssl v)
    then have ssl: "ssl \<noteq> nullptr" by simp
    show ?case
      unfolding if_not_P [OF ssl]
    proof (subst runs_andthen, rule runs_openssl_filter_new [where b = b], goal_cases)
      case (5 q u)
      with 1 show ?case
        using t b(3) assms(2,3) by (auto simp: runs_setcb new_bufev_def securing_def tls_filter_def)
    qed (use b ssl t(4) assms(3) in simp_all)
  qed
  moreover have "show_int 0 = ''0''" by code_simp
  ultimately show ?thesis
    by (simp add: socks_callback_def proxied_tls_def runs_andthen runs_print_status var_arrow_def runs_ret
        andthen_ret)
qed

text \<open>The TLS connection is made, and the request is sent over it.\<close>

lemma runs_secured:
  fixes s :: "(proxy_clo, 'w, 'z) out_st_scheme"
  assumes "securing g base printed s"
  shows "runs (handle g (Event (BEV_EVENT_CONNECTED L))) s (\<lambda>_ t.
    \<exists>p. eh.matches g p (Fetched base) (Some 0) False (sent the_request) t \<and>
      stdout t = printed @ ''what: '' @ event_string L (BEV_EVENT_CONNECTED L) @ newline)"
proof -
  obtain p b where b: "bevs s g = Some b" "varp b" "event_cb b = Some (TlsEvent base 0 g)" and idle: "idle g p s"
    and s: "strings s 0 = ''''" "stdout s = printed"
    using assms by (auto simp: securing_def)
  let ?p = "printed @ ''what: '' @ event_string L (BEV_EVENT_CONNECTED L) @ newline"
  have "runs (fetch L base 0 g) (s\<lparr>stdout := ?p\<rparr>) (\<lambda>_ t.
      eh.matches g p (Fetched base) (Some 0) False (sent the_request) t \<and> same_rest (s\<lparr>stdout := ?p\<rparr>) t)"
    by (rule runs_fetch) (use idle s in auto)
  then have "runs (fetch L base 0 g) (s\<lparr>stdout := ?p\<rparr>) (\<lambda>_ t.
      eh.matches g p (Fetched base) (Some 0) False (sent the_request) t \<and> stdout t = ?p)"
    by (rule runs_mono) (auto dest!: stdout_more)
  then have "runs (tls_event L base 0 g (BEV_EVENT_CONNECTED L)) s (\<lambda>_ t.
      eh.matches g p (Fetched base) (Some 0) False (sent the_request) t \<and> stdout t = ?p)"
    using s by (simp add: tls_event_def print_out_def runs_andthen runs_modify)
  then have "runs (handle g (Event (BEV_EVENT_CONNECTED L))) s (\<lambda>_ t.
      eh.matches g p (Fetched base) (Some 0) False (sent the_request) t \<and> stdout t = ?p)"
  proof (intro runs_event [OF b(1,2)])
    fix u v :: "(proxy_clo, 'w, 'z) out_st_scheme"
    assume u: "eh.matches g p (Fetched base) (Some 0) False (sent the_request) u \<and> stdout u = ?p" "ignored g u v"
    then show "eh.matches g p (Fetched base) (Some 0) False (sent the_request) v \<and> stdout v = ?p"
      using eh.more_ignored [OF u(2)] by (auto simp: eh.matches_ignored dest!: stdout_more)
  qed (auto simp: b(3) run_proxy_event_def dest: eh.matches_bev simp del: not_None_eq)
  then show ?thesis by (rule runs_mono) blast
qed

lemma runs_socks_get_ssl:
  fixes s :: "(proxy_clo, 'w, 'z) out_st_scheme"
  assumes "parse_sockaddr_port L ''127.0.0.1:9050'' 128 = (NoError, sa, len)"
    and "wf_addr addr" and "concat xs = [CHR 0x05, CHR 0x00]" and "concat ys @ y = proxy_reply addr (hi, lo)"
    and "y \<noteq> ''''"
  shows "runs (socks_get_ssl_main L S (\<lambda>_. followed_by (makes_tls below S (next_bev s) (Suc (next_bev s))
        (granted_by (next_bev s) ''130.192.16.172'' 443 xs ys y))
      (followed_by (handle (Suc (next_bev s)) (Event (BEV_EVENT_CONNECTED L)))
        (answered_over (Suc (next_bev s)) pieces what)))) s
    (\<lambda>_ t. stdout t = stdout s @ ''status: 0'' @ newline @
         ''what: '' @ event_string L (BEV_EVENT_CONNECTED L) @ newline @ concat pieces @ newline \<and>
       (\<exists>base. loop_left L base t))"
  unfolding socks_get_ssl_main_def
proof (rule runs_proxy_main [OF assms(1)], rule runs_seq [OF _ runs_seq])
  fix base p and t :: "(proxy_clo, 'w, 'z) out_st_scheme"
  let ?h = "next_bev s"
  let ?p1 = "stdout s @ ''status: 0'' @ newline"
  let ?p2 = "?p1 @ ''what: '' @ event_string L (BEV_EVENT_CONNECTED L) @ newline"
  let ?Q = "\<lambda>u. bevs u ?h \<noteq> None \<and> securing (Suc ?h) base ?p1 u"
  let ?R = "\<lambda>u. \<exists>p. eh.matches (Suc ?h) p (Fetched base) (Some 0) False (sent the_request) u \<and> stdout u = ?p2"
  assume t: "sk.matches ?h p (ProxiedTls base 0) ''130.192.16.172'' 443 sk.new_hs t" "strings t 0 = ''''"
    "stdout t = stdout s" "next_bev t = Suc ?h"
  obtain b where b: "bevs t ?h = Some b" "bevp b = p" using t(1) by (auto simp: sk.matches_def in_phase_def)
  let ?T = "\<lambda>u. ?Q u \<and> tls_filter below S p (Suc ?h) u"
  have "runs (granted_by ?h ''130.192.16.172'' 443 xs ys y) t (\<lambda>_. ?T)"
  proof (rule sk.runs_granted_then [OF t(1) _ assms(2-5)])
    fix u
    assume u: "sk.shaking ?h p (ProxiedTls base 0) ''130.192.16.172'' 443
        \<lparr>hs_phase = Finished OK, hs_in = '''', hs_out = ''''\<rparr> t u"
    show "runs (socks_callback L S (ProxiedTls base 0) OK (Some ?h)) u (\<lambda>_. ?T)"
      using runs_proxied_tls [OF u t(2)] by (simp add: t(3,4))
  next
    fix u v :: "(proxy_clo, 'w, 'z) out_st_scheme"
    assume u: "?T u" and i: "ignored ?h u v"
    have "bevs v = bevs u" using i by (auto simp: ignored_def)
    with u securing_ignored [OF _ i] tls_filter_ignored [OF i] show "?T v" by simp
  qed simp_all
  then show "runs (makes_tls below S ?h (Suc ?h) (granted_by ?h ''130.192.16.172'' 443 xs ys y)) t (\<lambda>_. ?Q)"
    unfolding b(2) [symmetric] by (rule runs_makes_tls [OF b(1)])
  show "runs (handle (Suc ?h) (Event (BEV_EVENT_CONNECTED L))) u (\<lambda>_. ?R)" if "?Q u" for u
    using runs_secured [of "Suc ?h" base ?p1 u] that by simp
  fix u
  assume "?R u"
  then obtain p where u: "eh.matches (Suc ?h) p (Fetched base) (Some 0) False (sent the_request) u" "stdout u = ?p2"
    by blast
  show "runs (answered_over (Suc ?h) pieces what) u (\<lambda>_ u. \<exists>base'. loop_left L base' u \<and>
      stdout (u\<lparr>stdout := stdout u @ strings u 0 @ newline\<rparr>) = stdout s @ ''status: 0'' @ newline @
        ''what: '' @ event_string L (BEV_EVENT_CONNECTED L) @ newline @ concat pieces @ newline)"
    by (rule runs_mono [OF runs_answered_over [OF u]]) auto
qed

end

end
