(* ===== verification/Socks_Programs_Props.thy ===== *)
theory Socks_Programs_Props
  imports Socks_Programs_Session Evhelpers_Props
begin

text \<open>
  Whole runs of \<open>example/net/socks-get.cpp\<close> and \<open>socks-get-ssl.cpp\<close>, from \<open>main\<close> to its end, through a proxy
  that grants the connection.
\<close>

section \<open>What happens in the loop\<close>

abbreviation proxy_net ::
  "'w libevent \<Rightarrow> (cptr \<Rightarrow> string \<Rightarrow> 'w \<Rightarrow> 'w) \<Rightarrow> (cptr \<Rightarrow> 'w \<Rightarrow> 'w) \<Rightarrow>
   (nat \<Rightarrow> (proxy_clo, 'w, 'z) out_st_scheme \<Rightarrow> bool) \<Rightarrow> 'w sys \<Rightarrow> nat \<Rightarrow> nat \<Rightarrow> event \<Rightarrow> ('w, 'z, unit) proxy_prog"
where
  "proxy_net L arrive flush unique S fuel h \<equiv>
     deliver L arrive flush unique (run_proxy_clo L S) (run_proxy_event L S fuel) h"

text \<open>
  The server reads the request over the connection \<open>h\<close> and sends an answer in pieces, the connection ends,
  and the timer that ends the loop fires.
\<close>

abbreviation document_sent ::
  "'w libevent \<Rightarrow> ('w \<Rightarrow> cptr \<Rightarrow> string) \<Rightarrow> (nat \<Rightarrow> event \<Rightarrow> ('w, 'z, unit) proxy_prog) \<Rightarrow>
   (nat \<Rightarrow> (proxy_clo, 'w, 'z) out_st_scheme \<Rightarrow> bool) \<Rightarrow> 'w sys \<Rightarrow> nat \<Rightarrow> nat \<Rightarrow> string list \<Rightarrow> u16 \<Rightarrow>
   ('w, 'z, unit) proxy_prog"
where
  "document_sent L content netw unique S fuel h pieces what \<equiv>
     followed_by (peer_reads L content netw h (''GET /robots.txt'' @ crlf))
       (followed_by (run_all (netw h) (map Readable pieces))
         (followed_by (netw h (Event what)) (leave_loop L unique (run_proxy_event L S fuel) breaks_proxy)))"

section \<open>The simulated library\<close>

interpretation sim_proxy:
  proxy_tls_program sim_libevent sim_content sim_arrive sim_flush "\<lambda>_ _. []" 1 demo_sys eh_unique
    sim_below
  by (unfold_locales; (rule sim_filter_new sim_below_frame(1) | erule sim_below_frame(2,3)
    | auto simp: demo_sys_def eh_unique_def))

definition demo_proxied :: "(proxy_clo, simw) out_st" where
  "demo_proxied =
     \<lparr>world = sim_empty, bevs = Map.empty, next_bev = 0, onces = Map.empty, next_once = 0,
      strings = (\<lambda>_. ''''), flags = (\<lambda>_. False), verbose = False, clog = '''', ssl_singleton = None, stdout = ''''\<rparr>"

lemma demo_proxied_simps: "next_bev demo_proxied = 0" "stdout demo_proxied = ''''"
  by (simp_all add: demo_proxied_def)

section \<open>Properties\<close>

text \<open>
  C18: The program that asks for a document through a proxy, from \<open>main\<close> to its end, when the proxy grants the
  connection, whatever address it reports (an IPv4 or IPv6 address, or a domain name of less than 128 bytes:
  the code takes the size of a longer one for another) and in whatever pieces its replies arrive: the proxy reads
  exactly the greeting and the request for the host and port, the server exactly the request for the
  document, and the program prints the status and everything the server sent; the loop was left.
\<close>

theorem socks_get_program:
  fixes s :: "(proxy_clo, 'w, 'z) out_st_scheme"
  assumes "proxy_program L content arrive flush ssl_pending fuel unique"
    and "parse_sockaddr_port L ''127.0.0.1:9050'' 128 = (NoError, sa, len)"
    and "wf_addr addr" and "concat xs = [CHR 0x05, CHR 0x00]" and "concat ys @ y = proxy_reply addr (hi, lo)"
    and "y \<noteq> ''''"
  shows "runs (socks_get_main L S (\<lambda>_. followed_by
        (proxy_grants L content (proxy_net L arrive flush unique S fuel) (next_bev s) ''130.192.16.172'' 80 xs ys y)
        (document_sent L content (proxy_net L arrive flush unique S fuel) unique S fuel (next_bev s) pieces what))) s
    (\<lambda>_ t. stdout t = stdout s @ ''status: 0'' @ newline @ concat pieces @ newline \<and> (\<exists>base. loop_left L base t))"
  by (rule proxy_program.runs_socks_get [OF assms])

theorem socks_get_program_witness:
  "runs (socks_get_main sim_libevent demo_sys (\<lambda>_. followed_by
        (proxy_grants sim_libevent sim_content (proxy_net sim_libevent sim_arrive sim_flush eh_unique demo_sys 1) 0
          ''130.192.16.172'' 80 [[CHR 0x05], [CHR 0x00]] [[CHR 0x05, CHR 0x00], [CHR 0x00, CHR 0x03, CHR 0x02, CHR ''x'']] ''y12'')
        (document_sent sim_libevent sim_content (proxy_net sim_libevent sim_arrive sim_flush eh_unique demo_sys 1)
          eh_unique demo_sys 1 0 [''he'', ''llo''] 16))) demo_proxied
    (\<lambda>_ t. stdout t = ''status: 0'' @ newline @ ''hello'' @ newline)"
proof -
  have parse: "parse_sockaddr_port sim_libevent ''127.0.0.1:9050'' 128 = (NoError, ''127.0.0.1:9050'', 128)"
    by (simp add: parse_sockaddr_port_def sim_libevent_def c_str_def)
  have wf: "wf_addr (Domain_Name ''xy'')" and chosen: "concat [[CHR 0x05], [CHR 0x00]] = [CHR 0x05, CHR 0x00]"
    by simp_all
  have reply: "concat [[CHR 0x05, CHR 0x00], [CHR 0x00, CHR 0x03, CHR 0x02, CHR ''x'']] @ ''y12'' =
      proxy_reply (Domain_Name ''xy'') (CHR ''1'', CHR ''2'')"
    by code_simp
  note get = socks_get_program [OF sim_proxy.proxy_program_axioms parse wf chosen reply, where s = demo_proxied
      and pieces = "[''he'', ''llo'']" and what = 16, unfolded demo_proxied_simps]
  show ?thesis by (rule runs_mono [OF get]) simp_all
qed

text \<open>
  C17: The program that asks over TLS through a proxy that grants the connection (reporting an IPv4 or IPv6
  address, or a domain name of less than 128 bytes).  By then a TLS filter has been put around the C
  bufferevent over which the proxy was asked, with an SSL object made in the program's context
  (\<open>makes_tls\<close>); when the TLS connection is made, the request goes over the filter, and what comes over it
  is printed, after the status and the name of the event.
\<close>

theorem socks_get_ssl_program:
  fixes s :: "(proxy_clo, 'w, 'z) out_st_scheme"
  assumes "proxy_tls_program L content arrive flush ssl_pending fuel S unique below"
    and "parse_sockaddr_port L ''127.0.0.1:9050'' 128 = (NoError, sa, len)"
    and "wf_addr addr" and "concat xs = [CHR 0x05, CHR 0x00]" and "concat ys @ y = proxy_reply addr (hi, lo)"
    and "y \<noteq> ''''"
  shows "runs (socks_get_ssl_main L S (\<lambda>_. followed_by
        (makes_tls below S (next_bev s) (Suc (next_bev s))
          (proxy_grants L content (proxy_net L arrive flush unique S fuel) (next_bev s) ''130.192.16.172'' 443 xs ys y))
        (followed_by (proxy_net L arrive flush unique S fuel (Suc (next_bev s)) (Event (BEV_EVENT_CONNECTED L)))
          (document_sent L content (proxy_net L arrive flush unique S fuel) unique S fuel (Suc (next_bev s)) pieces what)))) s
    (\<lambda>_ t. stdout t = stdout s @ ''status: 0'' @ newline @
         ''what: '' @ event_string L (BEV_EVENT_CONNECTED L) @ newline @ concat pieces @ newline \<and>
       (\<exists>base. loop_left L base t))"
  by (rule proxy_tls_program.runs_socks_get_ssl [OF assms])

theorem socks_get_ssl_program_witness:
  "runs (socks_get_ssl_main sim_libevent demo_sys (\<lambda>_. followed_by
        (makes_tls sim_below demo_sys 0 (Suc 0)
          (proxy_grants sim_libevent sim_content (proxy_net sim_libevent sim_arrive sim_flush eh_unique demo_sys 1) 0
            ''130.192.16.172'' 443 [[CHR 0x05, CHR 0x00]] [[CHR 0x05]] [CHR 0x00, CHR 0x00, CHR 0x01, CHR ''a'', CHR ''b'',
              CHR ''c'', CHR ''d'', CHR ''1'', CHR ''2'']))
        (followed_by (proxy_net sim_libevent sim_arrive sim_flush eh_unique demo_sys 1 (Suc 0)
            (Event (BEV_EVENT_CONNECTED sim_libevent)))
          (document_sent sim_libevent sim_content (proxy_net sim_libevent sim_arrive sim_flush eh_unique demo_sys 1)
            eh_unique demo_sys 1 (Suc 0) [''he'', ''llo''] 16)))) demo_proxied
    (\<lambda>_ t. stdout t = ''status: 0'' @ newline @ ''what: '' @
      event_string sim_libevent (BEV_EVENT_CONNECTED sim_libevent) @ newline @ ''hello'' @ newline)"
proof -
  have parse: "parse_sockaddr_port sim_libevent ''127.0.0.1:9050'' 128 = (NoError, ''127.0.0.1:9050'', 128)"
    by (simp add: parse_sockaddr_port_def sim_libevent_def c_str_def)
  have wf: "wf_addr (Ipv4 ''abcd'')" and chosen: "concat [[CHR 0x05, CHR 0x00]] = [CHR 0x05, CHR 0x00]" by simp_all
  have reply: "concat [[CHR 0x05]] @ [CHR 0x00, CHR 0x00, CHR 0x01, CHR ''a'', CHR ''b'', CHR ''c'',
        CHR ''d'', CHR ''1'', CHR ''2''] = proxy_reply (Ipv4 ''abcd'') (CHR ''1'', CHR ''2'')"
    by code_simp
  note get = socks_get_ssl_program [OF sim_proxy.proxy_tls_program_axioms parse wf chosen reply, where s = demo_proxied
      and pieces = "[''he'', ''llo'']" and what = 16, unfolded demo_proxied_simps]
  show ?thesis by (rule runs_mono [OF get]) simp_all
qed

text \<open>
  C40: A proxy that does not grant the connection, whatever the events up to the one the handshake ends with: the
  program prints the number of the status and an empty line, and the loop is left.
\<close>

theorem socks_get_refused:
  fixes s :: "(proxy_clo, 'w, 'z) out_st_scheme"
  assumes "proxy_program L content arrive flush ssl_pending fuel unique"
    and "parse_sockaddr_port L ''127.0.0.1:9050'' 128 = (NoError, sa, len)"
    and "up = (\<lambda>what. what = BEV_EVENT_CONNECTED L)"
    and "a = hs_run up ''130.192.16.172'' 80 es \<lparr>hs_phase = Connecting, hs_in = '''', hs_out = ''''\<rparr>"
    and "\<forall>st. hs_phase a \<noteq> Finished st"
    and "hs_phase (hs_step up ''130.192.16.172'' 80 e a) = Finished st" and "st \<noteq> OK"
  shows "runs (socks_get_main L S (\<lambda>_. followed_by
        (run_all (proxy_net L arrive flush unique S fuel (next_bev s)) es)
        (followed_by (proxy_net L arrive flush unique S fuel (next_bev s) e)
          (leave_loop L unique (run_proxy_event L S fuel) breaks_proxy)))) s
    (\<lambda>_ t. stdout t = stdout s @ ''status: '' @ show_int (socks_status_value st) @ newline @ newline \<and>
      (\<exists>base. loop_left L base t))"
  unfolding socks_get_main_def
  by (rule proxy_program.runs_refused [OF assms(1,2)]) (use assms(3-7) in simp_all)

theorem socks_get_refused_witness:
  "runs (socks_get_main sim_libevent demo_sys (\<lambda>_. followed_by
        (run_all (proxy_net sim_libevent sim_arrive sim_flush eh_unique demo_sys 1 0) [Event 128, Readable [CHR 0x05]])
        (followed_by (proxy_net sim_libevent sim_arrive sim_flush eh_unique demo_sys 1 0 (Readable [CHR 0xFF]))
          (leave_loop sim_libevent eh_unique (run_proxy_event sim_libevent demo_sys 1) breaks_proxy)))) demo_proxied
    (\<lambda>_ t. stdout t = ''status: 3'' @ newline @ newline)"
proof -
  let ?up = "\<lambda>what. what = BEV_EVENT_CONNECTED sim_libevent"
  let ?a = "hs_run ?up ''130.192.16.172'' 80 [Event 128, Readable [CHR 0x05]]
      \<lparr>hs_phase = Connecting, hs_in = '''', hs_out = ''''\<rparr>"
  have parse: "parse_sockaddr_port sim_libevent ''127.0.0.1:9050'' 128 = (NoError, ''127.0.0.1:9050'', 128)"
    by (simp add: parse_sockaddr_port_def sim_libevent_def c_str_def)
  have waits: "hs_phase ?a = Step_2" "hs_in ?a = [CHR 0x05]" by (simp_all add: sim_libevent_def read_2_def)
  then have live: "\<forall>st. hs_phase ?a \<noteq> Finished st" by simp
  from waits have ends: "hs_phase (hs_step ?up ''130.192.16.172'' 80 (Readable [CHR 0xFF]) ?a) = Finished PROTO_ERROR"
    by (simp add: read_2_def)
  have three: "show_int 3 = ''3''" by code_simp
  note get = socks_get_refused [OF sim_proxy.proxy_program_axioms parse refl refl live ends, where s = demo_proxied,
      unfolded demo_proxied_simps]
  show ?thesis by (rule runs_mono [OF get]) (simp_all add: three)
qed

end
