(* ===== verification/Tor_Get.thy ===== *)
theory Tor_Get
  imports Poller_Programs Socks Evhelpers_Programs
begin

text \<open>
  The programs \<open>example/tor/onion-poller-get.cpp\<close> and \<open>onion-poller-get-ssl.cpp\<close>, which use every layer of
  the code: the poller brings tor on-line over the control port, \<open>Socks\<close> connects through the proxy that
  tor offers, \<open>evhelpers\<close> transfers a document over that connection, over TCP or over TLS, and the poller
  takes tor off-line again.

  The closures of the programs and of the three classes are in one datatype, which is that of the client
  of the poller.
\<close>

section \<open>Closures\<close>

text \<open>The callbacks given to \<open>Socks::connect\<close> and to \<open>sendrecv\<close>, in the program over TCP and in that over TLS.\<close>

datatype get_cb =
    ProxyDone evbase nat
  | ProxyDoneTls evbase nat
  | FetchDone evbase
  | FetchDoneTls evbase

text \<open>
  The callbacks given to \<open>enable_tor\<close> and to \<open>disable_tor\<close>, the closures of the other two classes, and the
  closure that the second program puts on the TLS connection.
\<close>

datatype get_clo =
    EnableDone evbase nat
  | EnableDoneTls evbase nat
  | DisableDone evbase
  | DisableDoneTls evbase
  | SocksClo "get_cb socks_clo"
  | EvhelpersClo "get_cb eh_clo"
  | TlsClo evbase nat nat

type_synonym any_clo = "get_clo poller_cb ctrl_clo"

abbreviation of_socks :: "get_cb socks_clo \<Rightarrow> any_clo" where
  "of_socks c \<equiv> ClientOnce (UserClo (SocksClo c))"

abbreviation of_evhelpers :: "get_cb eh_clo \<Rightarrow> any_clo" where
  "of_evhelpers c \<equiv> ClientOnce (UserClo (EvhelpersClo c))"

abbreviation of_tls :: "evbase \<Rightarrow> nat \<Rightarrow> nat \<Rightarrow> any_clo" where
  "of_tls poller outp ssl_bev \<equiv> ClientOnce (UserClo (TlsClo poller outp ssl_bev))"

type_synonym ('w, 'z, 'a) get_prog = "(get_clo, 'w, 'z main_st_ext, 'a) poller_prog"

type_synonym ('w, 'z) get_tor = "(get_clo, 'w, 'z main_st_ext) libtor"

section \<open>The callbacks\<close>

text \<open>The callback of \<open>disable_tor\<close>; it starts nothing, so it is all that \<open>disable_tor\<close> needs of the client.\<close>

definition get_disabled :: "'w libevent \<Rightarrow> evbase \<Rightarrow> onion_status \<Rightarrow> ('w, 'z, unit) get_prog" where
  "get_disabled L poller status =
     followed_by (print (''disable: '' @ show_int (onion_status_value status) @ newline))
       (Onion_Poller.break_soon L poller)"

definition get_disabled_tls :: "'w libevent \<Rightarrow> evbase \<Rightarrow> onion_status \<Rightarrow> ('w, 'z, unit) get_prog" where
  "get_disabled_tls L poller status =
     followed_by (print (''disable... '' @ show_int (onion_status_value status) @ newline))
       (Onion_Poller.break_soon L poller)"

definition get_disabled_user :: "'w libevent \<Rightarrow> (get_clo, 'w, 'z main_st_ext) poller_user" where
  "get_disabled_user L k r = (case (k, r) of
      (DisableDone poller, VoidReply status) \<Rightarrow> get_disabled L poller status
    | (DisableDoneTls poller, VoidReply status) \<Rightarrow> get_disabled_tls L poller status
    | _ \<Rightarrow> raise (UndefinedBehaviour ''closure called before it is made''))"

text \<open>The callback of \<open>sendrecv\<close>.\<close>

definition get_fetched :: "'w libevent \<Rightarrow> ('w, 'z) get_tor \<Rightarrow> evbase \<Rightarrow> ('w, 'z, unit) get_prog" where
  "get_fetched L T poller = disable_tor L T (get_disabled_user L) poller (DisableDone poller)"

definition get_fetched_tls :: "'w libevent \<Rightarrow> ('w, 'z) get_tor \<Rightarrow> evbase \<Rightarrow> ('w, 'z, unit) get_prog" where
  "get_fetched_tls L T poller =
     followed_by (print (''sendrecv done... '' @ newline))
       (disable_tor L T (get_disabled_user L) poller (DisableDoneTls poller))"

definition get_eh_cb ::
  "'w libevent \<Rightarrow> ('w, 'z) get_tor \<Rightarrow> (get_cb, any_clo, 'w, 'z main_st_ext ocst_ext) eh_client" where
  "get_eh_cb L T k a = (case (k, a) of
      (FetchDone poller, NoArg) \<Rightarrow> get_fetched L T poller
    | (FetchDoneTls poller, NoArg) \<Rightarrow> get_fetched_tls L T poller
    | _ \<Rightarrow> raise (UndefinedBehaviour ''closure called at another type''))"

text \<open>The callback of \<open>Socks::connect\<close>.\<close>

definition robots_request :: string where
  "robots_request = ''GET /robots.txt'' @ crlf"

definition get_proxied ::
  "'w libevent \<Rightarrow> evbase \<Rightarrow> nat \<Rightarrow> socks_status \<Rightarrow> nat option \<Rightarrow> ('w, 'z, unit) get_prog" where
  "get_proxied L poller outp status bev =
     followed_by (print (''proxy connect... '' @ show_int (socks_status_value status) @ newline))
       (if status \<noteq> socks_status.OK then Onion_Poller.break_soon L poller
        else andthen (var_arrow bev)
          (\<lambda>h. Evhelpers.sendrecv L of_evhelpers h robots_request (FetchDone poller) (Some outp) None False))"

definition get_proxied_tls ::
  "'w libevent \<Rightarrow> 'w sys \<Rightarrow> evbase \<Rightarrow> nat \<Rightarrow> socks_status \<Rightarrow> nat option \<Rightarrow> ('w, 'z, unit) get_prog" where
  "get_proxied_tls L S poller outp status bev =
     followed_by (print (''proxy connect... '' @ show_int (socks_status_value status) @ newline))
       (if status \<noteq> socks_status.OK then Onion_Poller.break_soon L poller
        else followed_by (print (''ssl...'' @ newline))
          (andthen (SslContext_get S)
            (\<lambda>context. andthen (lib (SSL_new S context))
              (\<lambda>secure. andthen (var_arrow bev)
                (\<lambda>h. if secure = nullptr then followed_by (setcb None None None h) (raise StdException)
                   else andthen (openssl_filter_new L poller h secure (BUFFEREVENT_SSL_CONNECTING L) (BEV_OPT_CLOSE_ON_FREE L))
                     (\<lambda>ssl_bev. setcb None None (Some (of_tls poller outp ssl_bev)) ssl_bev))))))"

text \<open>The event of the TLS connection; which one it is does not matter to the code.\<close>

definition get_tls_event :: "'w libevent \<Rightarrow> evbase \<Rightarrow> nat \<Rightarrow> nat \<Rightarrow> u16 \<Rightarrow> ('w, 'z, unit) get_prog" where
  "get_tls_event L poller outp ssl_bev what =
     followed_by (print (''ssl... ok'' @ newline))
       (let timeo = \<lparr>tv_sec = 3, tv_usec = 3\<rparr>
        in Evhelpers.sendrecv L of_evhelpers ssl_bev robots_request (FetchDoneTls poller) (Some outp) (Some timeo) False)"

definition get_socks_cb ::
  "'w libevent \<Rightarrow> 'w sys \<Rightarrow> (get_cb, any_clo, 'w, 'z main_st_ext ocst_ext ehst_ext) socks_client" where
  "get_socks_cb L S k status bev = (case k of
      ProxyDone poller outp \<Rightarrow> get_proxied L poller outp status bev
    | ProxyDoneTls poller outp \<Rightarrow> get_proxied_tls L S poller outp status bev
    | _ \<Rightarrow> raise (UndefinedBehaviour ''closure called at another type''))"

text \<open>The callback of \<open>enable_tor\<close>; the port and the callback of \<open>connect\<close> differ between the programs.\<close>

definition get_enabled ::
  "'w libevent \<Rightarrow> 'w sys \<Rightarrow> evbase \<Rightarrow> u16 \<Rightarrow> get_cb \<Rightarrow> onion_status \<Rightarrow> ('w, 'z, unit) get_prog" where
  "get_enabled L S poller port k status =
     followed_by (print (''enable... '' @ show_int (onion_status_value status) @ newline))
       (if status \<noteq> onion_status.OK then Onion_Poller.break_soon L poller
        else followed_by (print (''connecting to socks proxy...'' @ newline))
          (connect_endpoint L of_socks (get_socks_cb L S) poller ''130.192.16.172'' port k ''127.0.0.1:9050'' None))"

text \<open>All closures: those of the client of the poller, called as what they are.\<close>

definition get_user ::
  "'w libevent \<Rightarrow> 'w sys \<Rightarrow> ('w, 'z) get_tor \<Rightarrow> nat \<Rightarrow> (get_clo, 'w, 'z main_st_ext) poller_user" where
  "get_user L S T fuel k r = (case (k, r) of
      (EnableDone poller outp, VoidReply status) \<Rightarrow> get_enabled L S poller 80 (ProxyDone poller outp) status
    | (EnableDoneTls poller outp, VoidReply status) \<Rightarrow> get_enabled L S poller 443 (ProxyDoneTls poller outp) status
    | (DisableDone poller, VoidReply status) \<Rightarrow> get_disabled L poller status
    | (DisableDoneTls poller, VoidReply status) \<Rightarrow> get_disabled_tls L poller status
    | (SocksClo c, FuncReply) \<Rightarrow> run_socks_clo L of_socks (get_socks_cb L S) c
    | (SocksClo c, TimerReply what) \<Rightarrow> run_socks_event L of_socks (get_socks_cb L S) c what
    | (EvhelpersClo c, FuncReply) \<Rightarrow> run_eh_clo L (get_eh_cb L T) c
    | (EvhelpersClo c, TimerReply what) \<Rightarrow> run_eh_event L of_evhelpers S (get_eh_cb L T) fuel c what
    | (TlsClo poller outp ssl_bev, TimerReply what) \<Rightarrow> get_tls_event L poller outp ssl_bev what
    | _ \<Rightarrow> raise (UndefinedBehaviour ''closure called at another type''))"

section \<open>The programs\<close>

definition print_document :: "('w, 'z, unit) get_prog" where
  "print_document = andthen (gets (\<lambda>s. strings s 0)) (\<lambda>out. print (out @ newline))"

definition onion_get_main :: "'w libevent \<Rightarrow> 'w sys \<Rightarrow> ('w, 'z) get_tor \<Rightarrow> nat \<Rightarrow> ('w, 'z, unit) get_prog" where
  "onion_get_main L S T fuel =
     followed_by be_verbose
       (followed_by new_out
         (followed_by (loop T (\<lambda>poller. enable_tor L T (get_user L S T fuel) poller (EnableDone poller 0) 5))
           print_document))"

definition onion_get_ssl_main :: "'w libevent \<Rightarrow> 'w sys \<Rightarrow> ('w, 'z) get_tor \<Rightarrow> nat \<Rightarrow> ('w, 'z, unit) get_prog" where
  "onion_get_ssl_main L S T fuel =
     followed_by be_verbose
       (followed_by new_out
         (followed_by (loop T (\<lambda>poller. enable_tor L T (get_user L S T fuel) poller (EnableDoneTls poller 0) 5))
           print_document))"

end
