(* ===== verification/Tor_Get_Session.thy ===== *)
theory Tor_Get_Session
  imports Tor_Get Poller_Programs_Props Socks_Replies Fetching
begin

text \<open>
  What happens while tor runs a program of \<open>Tor_Get\<close>.  The contracts of the poller, of \<open>Socks\<close> and of
  \<open>evhelpers\<close> hold together of one state, and each is used for the closures that are its own: what one
  class does leaves alone what the others need.
\<close>

section \<open>Frames\<close>

lemma main_more:
  fixes s t :: "('k, 'w, 'z) main_st_scheme"
  assumes "evst.more t = evst.more s"
  shows "strings t = strings s" and "cout t = cout s" and "ctrls t = ctrls s" and "next_ctrl t = next_ctrl s"
    and "ehst.more t = ehst.more s"
  using assms by (cases s; cases t; simp)+

lemma main_rest:
  fixes s t :: "('k, 'w, 'z) main_st_scheme"
  assumes "ehst.more t = ehst.more s"
  shows "cout t = cout s" and "ctrls t = ctrls s" and "next_ctrl t = next_ctrl s"
  using assms by (cases s; cases t; simp)+

locale tor_get =
  tor_session L content arrive flush T "get_user L S T fuel" unique fuel stopped +
  net: dispatching L content arrive flush "run_ctrl_clo L (poller_client L T (get_user L S T fuel)) fuel"
    "run_ctrl_event L (poller_client L T (get_user L S T fuel))" unique +
  transfer_api L content arrive flush ssl_pending fuel
  for L :: "'w libevent" and content :: "'w \<Rightarrow> cptr \<Rightarrow> string"
    and arrive :: "cptr \<Rightarrow> string \<Rightarrow> 'w \<Rightarrow> 'w" and flush :: "cptr \<Rightarrow> 'w \<Rightarrow> 'w"
    and ssl_pending :: "'w \<Rightarrow> cptr \<Rightarrow> nat list" and fuel :: nat and S :: "'w sys"
    and T :: "(get_clo, 'w, 'z main_st_ext) libtor"
    and unique :: "nat \<Rightarrow> (get_clo poller_cb, 'w, 'z main_st_ext) ocst_scheme \<Rightarrow> bool" and stopped :: "'w \<Rightarrow> bool"
begin

abbreviation get_closures :: "(get_clo, 'w, 'z main_st_ext) poller_user" where
  "get_closures \<equiv> get_user L S T fuel"

sublocale sk: socks_calls L content arrive flush "run_ctrl_clo L (poller_client L T get_closures) fuel"
  "run_ctrl_event L (poller_client L T get_closures)" unique of_socks "get_socks_cb L S"
  by unfold_locales
    (simp_all add: run_ctrl_clo_def run_ctrl_event_def poller_client_def get_user_def fun_eq_iff)

sublocale eh: eh_calls L content arrive flush ssl_pending fuel "run_ctrl_clo L (poller_client L T get_closures) fuel"
  "run_ctrl_event L (poller_client L T get_closures)" unique of_evhelpers S "get_eh_cb L T"
  by unfold_locales
    (simp_all add: run_ctrl_clo_def run_ctrl_event_def poller_client_def get_user_def fun_eq_iff)

lemma show_statuses: "show_int 250 = ''250''" "show_int 0 = ''0''"
  by code_simp+

section \<open>tor is on-line\<close>

lemma runs_get_enabled:
  fixes s :: "(get_clo poller_cb, 'w, 'z) main_st_scheme"
  assumes "parse_sockaddr_port L ''127.0.0.1:9050'' 128 = (NoError, sa, len)"
    and "attached c h p s" and "inbuf p s = ''''" and "h < next_bev s"
  shows "runs (get_enabled L S poller port k onion_status.OK) s (\<lambda>_ t. attached c h p t \<and> inbuf p t = '''' \<and>
    (\<exists>q. sk.matches (next_bev s) q k ''130.192.16.172'' port sk.new_hs t) \<and>
    next_bev t = Suc (next_bev s) \<and> next_ctrl t = next_ctrl s \<and> strings t = strings s \<and>
    cout t = cout s @ ''enable... 250'' @ newline @ ''connecting to socks proxy...'' @ newline)"
proof -
  let ?x = "''enable... 250'' @ newline @ ''connecting to socks proxy...'' @ newline"
  let ?s = "s\<lparr>cout := cout s @ ?x\<rparr>"
  have call: "get_enabled L S poller port k onion_status.OK = followed_by (print ?x)
      (connect_endpoint L of_socks (get_socks_cb L S) poller ''130.192.16.172'' port k ''127.0.0.1:9050'' None)"
    by (simp add: get_enabled_def print_print show_statuses)
  show ?thesis
    unfolding call runs_andthen [of "print _"] runs_print
  proof (rule sk.runs_connect_endpoint_then [OF assms(1)])
    fix t q
    assume t: "sk.matches (next_bev ?s) q k ''130.192.16.172'' port sk.new_hs t" "evst.more t = evst.more ?s"
      "next_bev t = Suc (next_bev ?s)" "\<forall>g. g \<noteq> next_bev ?s \<longrightarrow> bevs t g = bevs ?s g"
      "content (world t) = content (world ?s)"
    have "attached c h p t" using assms(2,4) t(4) main_more(3) [OF t(2)] by (auto simp: attached_def)
    then show "attached c h p t \<and> inbuf p t = '''' \<and> (\<exists>q. sk.matches (next_bev s) q k ''130.192.16.172'' port sk.new_hs t) \<and>
        next_bev t = Suc (next_bev s) \<and> next_ctrl t = next_ctrl s \<and> strings t = strings s \<and> cout t = cout s @ ?x"
      using t assms(3) main_more [OF t(2)] by auto
  qed
qed

section \<open>The proxy grants the connection\<close>

text \<open>The request has been sent over the connection \<open>h\<close>; the first unused addresses are \<open>n\<close> and \<open>c\<close>.\<close>

definition requested :: "nat \<Rightarrow> get_cb \<Rightarrow> string \<Rightarrow> nat \<Rightarrow> nat \<Rightarrow> (get_clo poller_cb, 'w, 'z) main_st_scheme \<Rightarrow> bool" where
  "requested h k printed n c s \<longleftrightarrow> (\<exists>p. eh.matches h p k (Some 0) False (sent robots_request) s) \<and> cout s = printed \<and>
     next_bev s = n \<and> next_ctrl s = c"

lemma requested_ignored:
  assumes "ignored h s t" and "requested h k printed n c s"
  shows "requested h k printed n c t"
  using assms(2) eh.matches_ignored [OF assms(1)] eh.more_ignored [OF assms(1)] main_rest [of t s]
  by (simp add: requested_def)

lemma requested_bev: "requested h k printed n c s \<Longrightarrow> bevs s h \<noteq> None"
  unfolding requested_def by (blast dest: eh.matches_bev)

abbreviation idle :: "nat \<Rightarrow> cptr \<Rightarrow> (get_clo poller_cb, 'w, 'z) main_st_scheme \<Rightarrow> bool" where
  "idle h p s \<equiv> p \<noteq> nullptr \<and> (\<exists>b. bevs s h = Some b \<and> varp b \<and> bevp b = p) \<and>
     inbuf p s = '''' \<and> outbuf p s = ''''"

lemma idle_finished:
  fixes s t :: "(get_clo poller_cb, 'w, 'z) main_st_scheme"
  assumes "sk.shaking h p k host port \<lparr>hs_phase = Finished OK, hs_in = '''', hs_out = ''''\<rparr> s t"
  shows "idle h p t" and "strings t = strings s" and "cout t = cout s" and "next_bev t = next_bev s"
    and "next_ctrl t = next_ctrl s"
  using assms main_more [of t s] by (auto simp: sk.matches_def in_phase_def)

lemma runs_request:
  fixes s :: "(get_clo poller_cb, 'w, 'z) main_st_scheme"
  assumes "idle h p s" and "strings s 0 = ''''"
  shows "runs (Evhelpers.sendrecv L of_evhelpers h robots_request k (Some 0) timeout False) s
    (\<lambda>_. requested h k (cout s) (next_bev s) (next_ctrl s))"
proof -
  obtain b where b: "bevs s h = Some b" "varp b" "bevp b = p" "p \<noteq> nullptr" using assms(1) by auto
  have io: "bufferevent_get_input L p \<noteq> bufferevent_get_output L p"
    using input_not_output [OF b(4) b(4)] .
  show ?thesis
  proof (rule eh.runs_sendrecv [OF b])
    fix t
    assume t: "eh_callbacks h p (xphase_cbs of_evhelpers h k (Some 0) False Open) t"
      "content (world t) = (content (world s))(bufferevent_get_output L p := outbuf p s @ robots_request)"
      "strings t = strings s" "same_rest s t"
    then have "ehst.more t = ehst.more s" "next_bev t = next_bev s" by simp_all
    with t(1-3) main_rest [of t s] assms io show "requested h k (cout s) (next_bev s) (next_ctrl s) t"
      by (auto simp: requested_def eh.matches_def)
  qed
qed

lemma runs_get_proxied:
  fixes s t :: "(get_clo poller_cb, 'w, 'z) main_st_scheme"
  assumes "sk.shaking h p k host port \<lparr>hs_phase = Finished OK, hs_in = '''', hs_out = ''''\<rparr> s t" and "strings s 0 = ''''"
  shows "runs (get_socks_cb L S (ProxyDone poller 0) OK (Some h)) t
    (\<lambda>_. requested h (FetchDone poller) (cout s @ ''proxy connect... 0'' @ newline) (next_bev s) (next_ctrl s))"
proof -
  note t = idle_finished [OF assms(1)]
  let ?t = "t\<lparr>cout := cout t @ ''proxy connect... 0'' @ newline\<rparr>"
  have "runs (Evhelpers.sendrecv L of_evhelpers h robots_request (FetchDone poller) (Some 0) None False) ?t
      (\<lambda>_. requested h (FetchDone poller) (cout ?t) (next_bev ?t) (next_ctrl ?t))"
    by (rule runs_request) (use t assms(2) in auto)
  with t show ?thesis
    by (simp add: get_socks_cb_def get_proxied_def runs_andthen runs_print var_arrow_def runs_ret show_statuses)
qed

lemma runs_get_granted:
  fixes s :: "(get_clo poller_cb, 'w, 'z) main_st_scheme"
  assumes "sk.matches h q (ProxyDone poller 0) ''130.192.16.172'' 80 sk.new_hs s" and "strings s 0 = ''''"
    and "wf_addr addr" and "concat xs = [CHR 0x05, CHR 0x00]" and "concat ys @ y = proxy_reply addr (hi, lo)"
    and "y \<noteq> ''''"
  shows "runs (proxy_grants L content net.handle h ''130.192.16.172'' 80 xs ys y) s
    (\<lambda>_. requested h (FetchDone poller) (cout s @ ''proxy connect... 0'' @ newline) (next_bev s) (next_ctrl s))"
proof (rule sk.runs_granted_then [OF assms(1) _ assms(3-6)])
  fix t
  assume "sk.shaking h q (ProxyDone poller 0) ''130.192.16.172'' 80
      \<lparr>hs_phase = Finished OK, hs_in = '''', hs_out = ''''\<rparr> s t"
  then show "runs (get_socks_cb L S (ProxyDone poller 0) OK (Some h)) t
    (\<lambda>_. requested h (FetchDone poller) (cout s @ ''proxy connect... 0'' @ newline) (next_bev s) (next_ctrl s))"
    by (rule runs_get_proxied) (rule assms(2))
qed (simp, rule requested_ignored, assumption+, rule requested_bev, assumption)

section \<open>The document arrives\<close>

text \<open>
  The transfer ends, and the poller is told to take tor off-line: the second controller, \<open>c\<close>, connects.
\<close>

definition going_off :: "nat \<Rightarrow> nat \<Rightarrow> get_clo \<Rightarrow> string \<Rightarrow> string \<Rightarrow> (get_clo poller_cb, 'w, 'z) main_st_scheme \<Rightarrow> bool" where
  "going_off c n k document printed s \<longleftrightarrow> (\<exists>q. connecting c n q '''' (DisableAuthed c k) s \<and> inbuf q s = '''' \<and> outbuf q s = '''') \<and>
     strings s 0 = document \<and> cout s = printed"

lemma going_off_ignored:
  assumes "ignored h s t" and "going_off c n k document printed s"
  shows "going_off c n k document printed t"
  using assms main_more [of t s] by (auto simp: going_off_def ignored_def callbacks_def attached_def)

lemma runs_fetched:
  fixes s :: "(get_clo poller_cb, 'w, 'z) main_st_scheme"
  assumes "requested h k printed n c s" and "endpoint_ok"
    and "get_eh_cb L T k NoArg = followed_by (print line) (disable_tor L T (get_disabled_user L) poller k')"
  shows "runs (followed_by (net.server_reads h robots_request)
      (followed_by (run_all (net.handle h) (map Readable pieces)) (net.handle h (Event what)))) s
    (\<lambda>_. going_off c n k' (concat pieces) (printed @ line))"
proof -
  let ?Q = "\<lambda>t. bevs t h \<noteq> None \<and> going_off c n k' (concat pieces) (printed @ line) t"
  obtain p where p: "eh.matches h p k (Some 0) False (sent robots_request) s"
    and s: "cout s = printed" "next_bev s = n" "next_ctrl s = c"
    using assms(1) by (auto simp: requested_def)
  have "runs (followed_by (net.server_reads h robots_request)
      (followed_by (run_all (net.handle h) (map Readable pieces)) (net.handle h (Event what)))) s (\<lambda>_. ?Q)"
  proof (rule eh.runs_answered_then [OF p])
    fix t
    assume t: "eh.matches h p k (Some 0) False (answered (concat pieces)) t" and rest: "same_rest s t"
    let ?t = "t\<lparr>cout := cout t @ line\<rparr>"
    have "ehst.more t = ehst.more s" "next_bev t = next_bev s" using rest by simp_all
    then have t': "cout t = printed" "next_ctrl t = c" "next_bev t = n" using main_rest [of t s] s by simp_all
    have str: "strings t 0 = concat pieces" using t by (simp add: eh.matches_def)
    have live: "bevs t h \<noteq> None" using t by (rule eh.matches_bev)
    show "runs (get_eh_cb L T k NoArg) t (\<lambda>_. ?Q)"
      unfolding assms(3) disable_tor_def runs_andthen [of "print _"] runs_print
    proof (rule runs_mono [OF poller_calls.runs_started [OF poller_calls_axioms assms(2)]], elim conjE exE)
      fix u q
      assume u: "started ?t u" and q: "connecting (next_ctrl ?t) (next_bev ?t) q ''''
          (DisableAuthed (next_ctrl ?t) k') u" "inbuf q u = ''''" "outbuf q u = ''''"
      have "bevs u h \<noteq> None"
        using u q(1) live by (cases "h = next_bev t") (auto simp: started_def callbacks_def)
      moreover have "strings u 0 = concat pieces" "cout u = printed @ line"
        using u cout_more [of u ?t] str t'(1) by (simp_all add: started_def)
      ultimately show "?Q u" using q t' by (auto simp: going_off_def)
    qed
  next
    fix t u
    assume t: "?Q t" and i: "ignored h t u"
    then have "bevs u = bevs t" by (auto simp: ignored_def)
    with t going_off_ignored [OF i] show "?Q u" by simp
  qed simp
  then show ?thesis by (rule runs_mono) simp
qed

section \<open>tor goes off-line\<close>

lemma runs_get_off:
  fixes s :: "(get_clo poller_cb, 'w, 'z) main_st_scheme"
  assumes "going_off c n k document printed s" and "2 \<le> fuel"
    and "get_closures k (VoidReply onion_status.OK) = followed_by (print line) (Onion_Poller.break_soon L poller)"
  shows "runs (followed_by (sets_network n True) fire) s
    (\<lambda>_ t. stopped (world t) \<and> strings t 0 = document \<and> cout t = printed @ line)"
proof -
  let ?Q = "\<lambda>t. 0 < next_once t \<and> onces t (next_once t - 1) = Some (Once (ClientOnce poller_cb.BreakLoop)) \<and>
      strings t 0 = document \<and> cout t = printed @ line"
  obtain q where q: "connecting c n q '''' (DisableAuthed c k) s" "inbuf q s = ''''" "outbuf q s = ''''"
    and s: "strings s 0 = document" "cout s = printed"
    using assms(1) by (auto simp: going_off_def)
  have "runs (sets_network n True) s (\<lambda>_. ?Q)"
  proof (rule runs_disabling [OF q assms(2)])
    fix y :: "(get_clo poller_cb, 'w, 'z) main_st_scheme"
    assume y: "silent s y" "cleared c n q y" "inbuf q y = ''''"
    let ?y = "y\<lparr>cout := cout y @ line\<rparr>"
    have y': "strings y 0 = document" "cout y = printed"
      using s cout_silent [OF y(1)] y(1) by (simp_all add: silent_def)
    have att: "attached c n q y" using y(2) by (rule callbacks_attached)
    show "runs (get_closures k (VoidReply onion_status.OK)) y (\<lambda>_ t. attached c n q t \<and> inbuf q t = '''' \<and> ?Q t)"
      unfolding assms(3) runs_andthen runs_print Onion_Poller.break_soon_def
      by (rule runs_once) (use y(3) y' att in \<open>auto simp: attached_def\<close>)
  qed
  then show ?thesis
  proof (rule runs_seq)
    fix t :: "(get_clo poller_cb, 'w, 'z) main_st_scheme"
    assume t: "?Q t"
    show "runs fire t (\<lambda>_ t. stopped (world t) \<and> strings t 0 = document \<and> cout t = printed @ line)"
      using t
      by (simp add: runs_andthen runs_gets mk_libevent_event_cb_def run_once_clo_def run_ctrl_event_def poller_client_def)
        (rule runs_mono [OF tor_stops], auto simp: delete_once_def runs_modify)
  qed
qed

section \<open>The whole program\<close>

text \<open>The state in which the handshake with the proxy begins, after \<open>enable_tor\<close> has called back.\<close>

definition shaking_hands :: "nat \<Rightarrow> nat \<Rightarrow> string \<Rightarrow> get_cb \<Rightarrow> u16 \<Rightarrow> (get_clo poller_cb, 'w, 'z) main_st_scheme \<Rightarrow> bool" where
  "shaking_hands h c printed k port s \<longleftrightarrow> (\<exists>q. sk.matches h q k ''130.192.16.172'' port sk.new_hs s) \<and>
     strings s 0 = '''' \<and> cout s = printed \<and> next_bev s = Suc h \<and> next_ctrl s = c"

lemma runs_onion_main:
  fixes s :: "(get_clo poller_cb, 'w, 'z) main_st_scheme"
  assumes "endpoint_ok" and "3 \<le> fuel" and "\<forall>n \<in> set ns. n < 1000 \<and> n \<noteq> 100" and "length ns < 5"
    and "parse_sockaddr_port L ''127.0.0.1:9050'' 128 = (NoError, sa, len)"
    and "\<And>poller. get_closures (e poller) (VoidReply onion_status.OK) = get_enabled L S poller port (k poller) onion_status.OK"
    and "tor_runs T (followed_by
      (followed_by (sets_network (next_bev s) False) (run_all (poll (next_bev s)) (ns @ [100]))) events)"
    and "\<And>t. shaking_hands (Suc (next_bev s)) (Suc (next_ctrl s))
        (cout s @ ''enable... 250'' @ newline @ ''connecting to socks proxy...'' @ newline) (k (tor_base T)) port t \<Longrightarrow>
      runs events t (\<lambda>_ u. stopped (world u) \<and> strings u 0 = document \<and> cout u = printed)"
  shows "runs (followed_by be_verbose (followed_by new_out
      (followed_by (loop T (\<lambda>poller. enable_tor L T get_closures poller (e poller) 5)) print_document))) s
    (\<lambda>_ t. stopped (world t) \<and> cout t = printed @ document @ newline)"
proof -
  let ?s = "s\<lparr>verbose := True, strings := (strings s)(0 := '''')\<rparr>"
  let ?c = "next_ctrl s" and ?h = "next_bev s" and ?b = "tor_base T"
  have five: "length ns < unat (5 :: u32)" using assms(4) by simp
  have "runs (followed_by (enable_tor L T get_closures ?b (e ?b) 5)
      (followed_by (sets_network (next_bev ?s) False) (run_all (poll (next_bev ?s)) (ns @ [100])))) ?s
      (\<lambda>_ t. runs events t (\<lambda>_ u. stopped (world u) \<and> strings u 0 = document \<and> cout u = printed))"
  proof (rule runs_enable_then [OF assms(1-3) five], unfold assms(6))
    fix v y :: "(get_clo poller_cb, 'w, 'z) main_st_scheme" and p
    assume v: "started ?s v" "steady v y" "cleared (next_ctrl ?s) (next_bev ?s) p y" "inbuf p y = ''''"
    have y: "next_ctrl y = Suc ?c" "next_bev y = Suc ?h" "cout y = cout s" "strings y 0 = ''''"
      using v(1,2) cout_more [of v ?s] cout_steady [OF v(2)] by (simp_all add: started_def steady_def)
    have att: "attached ?c ?h p y" using v(3) by (simp add: callbacks_attached)
    have less: "?h < next_bev y" using y by simp
    show "runs (get_enabled L S ?b port (k ?b) onion_status.OK) y
        (\<lambda>_ t. attached (next_ctrl ?s) (next_bev ?s) p t \<and> inbuf p t = '''' \<and>
          runs events t (\<lambda>_ u. stopped (world u) \<and> strings u 0 = document \<and> cout u = printed))"
    proof (rule runs_mono [OF runs_get_enabled [OF assms(5) att v(4) less]], elim conjE exE)
      fix t q
      assume t: "attached ?c ?h p t" "inbuf p t = ''''"
        "sk.matches (next_bev y) q (k ?b) ''130.192.16.172'' port sk.new_hs t" "next_bev t = Suc (next_bev y)"
        "next_ctrl t = next_ctrl y" "strings t = strings y"
        "cout t = cout y @ ''enable... 250'' @ newline @ ''connecting to socks proxy...'' @ newline"
      have "shaking_hands (Suc ?h) (Suc ?c)
          (cout s @ ''enable... 250'' @ newline @ ''connecting to socks proxy...'' @ newline) (k ?b) port t"
        using t y by (auto simp: shaking_hands_def)
      then show "attached (next_ctrl ?s) (next_bev ?s) p t \<and> inbuf p t = '''' \<and>
          runs events t (\<lambda>_ u. stopped (world u) \<and> strings u 0 = document \<and> cout u = printed)"
        using t(1,2) assms(8) by simp
    qed
  qed
  then have "runs (loop T (\<lambda>poller. enable_tor L T get_closures poller (e poller) 5)) ?s
      (\<lambda>_ u. stopped (world u) \<and> strings u 0 = document \<and> cout u = printed)"
    unfolding loop_tor_runs [OF assms(7)] by (simp add: runs_andthen)
  then show ?thesis
    unfolding be_verbose_def new_out_def print_document_def
    by (simp add: runs_andthen runs_modify runs_gets runs_print) (auto elim!: runs_mono)
qed

text \<open>A document over the connection \<open>h\<close>: the server reads the request and answers it, and the connection ends.\<close>

abbreviation document_over :: "nat \<Rightarrow> string list \<Rightarrow> u16 \<Rightarrow> ('w, 'z, unit) get_prog" where
  "document_over h pieces what \<equiv> followed_by (net.server_reads h robots_request)
     (followed_by (run_all (net.handle h) (map Readable pieces)) (net.handle h (Event what)))"

lemma runs_onion_get:
  fixes s :: "(get_clo poller_cb, 'w, 'z) main_st_scheme"
  assumes "endpoint_ok" and "3 \<le> fuel" and "\<forall>n \<in> set ns. n < 1000 \<and> n \<noteq> 100" and "length ns < 5"
    and "parse_sockaddr_port L ''127.0.0.1:9050'' 128 = (NoError, sa, len)"
    and "wf_addr addr" and "concat xs = [CHR 0x05, CHR 0x00]" and "concat ys @ y = proxy_reply addr (hi, lo)"
    and "y \<noteq> ''''"
    and "tor_runs T (followed_by
      (followed_by (sets_network (next_bev s) False) (run_all (poll (next_bev s)) (ns @ [100])))
      (followed_by (proxy_grants L content net.handle (Suc (next_bev s)) ''130.192.16.172'' 80 xs ys y)
        (followed_by (document_over (Suc (next_bev s)) pieces what)
          (followed_by (sets_network (Suc (Suc (next_bev s))) True) fire))))"
  shows "runs (onion_get_main L S T fuel) s
    (\<lambda>_ t. stopped (world t) \<and>
       cout t = cout s @ ''enable... 250'' @ newline @ ''connecting to socks proxy...'' @ newline @
         ''proxy connect... 0'' @ newline @ ''disable: 250'' @ newline @ concat pieces @ newline)"
proof -
  let ?h = "next_bev s" and ?c = "next_ctrl s" and ?b = "tor_base T"
  let ?p1 = "cout s @ ''enable... 250'' @ newline @ ''connecting to socks proxy...'' @ newline"
  let ?p2 = "?p1 @ ''proxy connect... 0'' @ newline"
  have opens: "get_closures (EnableDone poller 0) (VoidReply onion_status.OK) =
      get_enabled L S poller 80 (ProxyDone poller 0) onion_status.OK" for poller
    by (simp add: get_user_def)
  have fetched: "get_eh_cb L T (FetchDone ?b) NoArg =
      followed_by (print '''') (disable_tor L T (get_disabled_user L) ?b (DisableDone ?b))"
    by (simp add: get_eh_cb_def get_fetched_def print_Nil)
  have off: "get_closures (DisableDone ?b) (VoidReply onion_status.OK) =
      followed_by (print (''disable: 250'' @ newline)) (Onion_Poller.break_soon L ?b)"
    by (simp add: get_user_def get_disabled_def show_statuses)
  have fuel2: "2 \<le> fuel" using assms(2) by simp
  have "runs (onion_get_main L S T fuel) s (\<lambda>_ t. stopped (world t) \<and>
      cout t = (?p2 @ ''disable: 250'' @ newline) @ concat pieces @ newline)"
    unfolding onion_get_main_def
  proof (rule runs_onion_main [OF assms(1-5) opens assms(10)], rule runs_seq [OF _ runs_seq])
    fix t
    assume t: "shaking_hands (Suc ?h) (Suc ?c) ?p1 (ProxyDone ?b 0) 80 t"
    then show "runs (proxy_grants L content net.handle (Suc ?h) ''130.192.16.172'' 80 xs ys y) t
        (\<lambda>_. requested (Suc ?h) (FetchDone ?b) ?p2 (Suc (Suc ?h)) (Suc ?c))"
      using runs_get_granted [where h = "Suc ?h" and s = t and poller = ?b, OF _ _ assms(6-9)]
      by (auto simp: shaking_hands_def)
  next
    fix u
    assume "requested (Suc ?h) (FetchDone ?b) ?p2 (Suc (Suc ?h)) (Suc ?c) u"
    from runs_fetched [OF this assms(1) fetched]
    show "runs (document_over (Suc ?h) pieces what) u
        (\<lambda>_. going_off (Suc ?c) (Suc (Suc ?h)) (DisableDone ?b) (concat pieces) ?p2)"
      by simp
  next
    fix u
    assume "going_off (Suc ?c) (Suc (Suc ?h)) (DisableDone ?b) (concat pieces) ?p2 u"
    from runs_get_off [OF this fuel2 off]
    show "runs (followed_by (sets_network (Suc (Suc ?h)) True) fire) u
        (\<lambda>_ v. stopped (world v) \<and> strings v 0 = concat pieces \<and> cout v = ?p2 @ ''disable: 250'' @ newline)" .
  qed
  then show ?thesis by simp
qed

end

section \<open>Over TLS\<close>

locale tor_get_tls =
  tor_get L content arrive flush ssl_pending fuel S T unique stopped +
  tls_api L content S below
  for L :: "'w libevent" and content :: "'w \<Rightarrow> cptr \<Rightarrow> string"
    and arrive :: "cptr \<Rightarrow> string \<Rightarrow> 'w \<Rightarrow> 'w" and flush :: "cptr \<Rightarrow> 'w \<Rightarrow> 'w"
    and ssl_pending :: "'w \<Rightarrow> cptr \<Rightarrow> nat list" and fuel :: nat and S :: "'w sys"
    and T :: "(get_clo, 'w, 'z main_st_ext) libtor"
    and unique :: "nat \<Rightarrow> (get_clo poller_cb, 'w, 'z main_st_ext) ocst_scheme \<Rightarrow> bool" and stopped :: "'w \<Rightarrow> bool"
    and below :: "'w \<Rightarrow> cptr \<Rightarrow> (cptr \<times> cptr) option"
begin

text \<open>The TLS connection \<open>g\<close> is being made.\<close>

definition securing :: "nat \<Rightarrow> evbase \<Rightarrow> string \<Rightarrow> nat \<Rightarrow> nat \<Rightarrow> (get_clo poller_cb, 'w, 'z) main_st_scheme \<Rightarrow> bool" where
  "securing g poller printed n c s \<longleftrightarrow> (\<exists>p. idle g p s) \<and> strings s 0 = '''' \<and> cout s = printed \<and> next_bev s = n \<and>
     next_ctrl s = c \<and> (\<exists>b. bevs s g = Some b \<and> event_cb b = Some (of_tls poller 0 g))"

lemma securing_ignored:
  assumes "ignored h s t" and "securing g poller printed n c s"
  shows "securing g poller printed n c t"
proof -
  have "bevs t = bevs s" "content (world t) = content (world s)" "evst.more t = evst.more s" "next_bev t = next_bev s"
    using assms(1) by (auto simp: ignored_def)
  with assms(2) main_more [of t s] show ?thesis by (simp add: securing_def)
qed

lemma runs_get_proxied_tls:
  fixes s t :: "(get_clo poller_cb, 'w, 'z) main_st_scheme"
  assumes "sk.shaking h p k host port \<lparr>hs_phase = Finished OK, hs_in = '''', hs_out = ''''\<rparr> s t" and "strings s 0 = ''''"
    and "h < next_bev s"
  shows "runs (get_socks_cb L S (ProxyDoneTls poller 0) OK (Some h)) t (\<lambda>_ u. bevs u h \<noteq> None \<and>
    securing (next_bev s) poller (cout s @ ''proxy connect... 0'' @ newline @ ''ssl...'' @ newline) (Suc (next_bev s)) (next_ctrl s) u \<and>
    tls_filter below S p (next_bev s) u)"
proof -
  note t = idle_finished [OF assms(1)]
  obtain b where b: "bevs t h = Some b" "varp b" "bevp b = p" "p \<noteq> nullptr" using t(1) by auto
  let ?x = "''proxy connect... 0'' @ newline @ ''ssl...'' @ newline"
  let ?t = "t\<lparr>cout := cout t @ ?x\<rparr>"
  let ?Q = "\<lambda>u. bevs u h \<noteq> None \<and> securing (next_bev s) poller (cout s @ ?x) (Suc (next_bev s)) (next_ctrl s) u \<and>
    tls_filter below S p (next_bev s) u"
  have call: "get_socks_cb L S (ProxyDoneTls poller 0) OK (Some h) = followed_by (print ?x) (andthen (SslContext_get S)
      (\<lambda>ctx. andthen (lib (SSL_new S ctx))
        (\<lambda>secure. if secure = nullptr then followed_by (setcb None None None h) (raise StdException)
           else andthen (openssl_filter_new L poller h secure (BUFFEREVENT_SSL_CONNECTING L) (BEV_OPT_CLOSE_ON_FREE L))
             (\<lambda>ssl_bev. setcb None None (Some (of_tls poller 0 ssl_bev)) ssl_bev))))"
    by (simp add: get_socks_cb_def get_proxied_tls_def print_print var_arrow_def andthen_ret show_statuses)
  show ?thesis
    unfolding call runs_andthen [of "print _"] runs_print
  proof (subst runs_andthen, rule runs_SslContext_get, subst runs_andthen, rule runs_SSL_new, goal_cases)
    case (1 ctx w ssl v)
    then have ssl: "ssl \<noteq> nullptr" by simp
    show ?case
      unfolding if_not_P [OF ssl]
    proof (subst runs_andthen, rule runs_openssl_filter_new [where b = b], goal_cases)
      case (5 q u)
      with 1 show ?case
        using t b(3) assms(2,3) by (auto simp: runs_setcb new_bufev_def securing_def tls_filter_def)
    qed (use b ssl t(4) assms(3) in simp_all)
  qed
qed

lemma runs_get_granted_tls:
  fixes s :: "(get_clo poller_cb, 'w, 'z) main_st_scheme"
  assumes "sk.matches h q (ProxyDoneTls poller 0) ''130.192.16.172'' 443 sk.new_hs s" and "strings s 0 = ''''"
    and "h < next_bev s"
    and "wf_addr addr" and "concat xs = [CHR 0x05, CHR 0x00]" and "concat ys @ y = proxy_reply addr (hi, lo)"
    and "y \<noteq> ''''"
  shows "runs (makes_tls below S h (next_bev s) (proxy_grants L content net.handle h ''130.192.16.172'' 443 xs ys y)) s
    (\<lambda>_ u. bevs u h \<noteq> None \<and> securing (next_bev s) poller
      (cout s @ ''proxy connect... 0'' @ newline @ ''ssl...'' @ newline) (Suc (next_bev s)) (next_ctrl s) u)"
    (is "runs (makes_tls _ _ _ _ ?events) _ (\<lambda>_. ?R)")
proof -
  obtain b where b: "bevs s h = Some b" "bevp b = q" using assms(1) by (auto simp: sk.matches_def in_phase_def)
  let ?Q = "\<lambda>u. ?R u \<and> tls_filter below S q (next_bev s) u"
  have "runs ?events s (\<lambda>_. ?Q)"
  proof (rule sk.runs_granted_then [OF assms(1) _ assms(4-7)])
    fix t
    assume "sk.shaking h q (ProxyDoneTls poller 0) ''130.192.16.172'' 443
        \<lparr>hs_phase = Finished OK, hs_in = '''', hs_out = ''''\<rparr> s t"
    then show "runs (get_socks_cb L S (ProxyDoneTls poller 0) OK (Some h)) t (\<lambda>_. ?Q)"
      using runs_get_proxied_tls [OF _ assms(2,3)] by (auto elim: runs_mono)
  next
    fix t u :: "(get_clo poller_cb, 'w, 'z) main_st_scheme"
    assume t: "?Q t" and i: "ignored h t u"
    then have "bevs u = bevs t" by (auto simp: ignored_def)
    with t securing_ignored [OF i] tls_filter_ignored [OF i] show "?Q u" by simp
  qed simp_all
  then show ?thesis unfolding b(2) [symmetric] by (rule runs_makes_tls [OF b(1)])
qed

text \<open>Whatever the event of the TLS connection, the request is sent over it.\<close>

lemma runs_get_secured:
  fixes s :: "(get_clo poller_cb, 'w, 'z) main_st_scheme"
  assumes "securing g poller printed n c s"
  shows "runs (net.handle g (Event what)) s
    (\<lambda>_. requested g (FetchDoneTls poller) (printed @ ''ssl... ok'' @ newline) n c)"
proof -
  obtain p b where b: "bevs s g = Some b" "varp b" "event_cb b = Some (of_tls poller 0 g)" and idle: "idle g p s"
    and s: "strings s 0 = ''''" "cout s = printed" "next_bev s = n" "next_ctrl s = c"
    using assms by (auto simp: securing_def)
  let ?s = "s\<lparr>cout := printed @ ''ssl... ok'' @ newline\<rparr>"
  have "runs (get_tls_event L poller 0 g what) s (\<lambda>_. requested g (FetchDoneTls poller) (cout ?s) (next_bev ?s) (next_ctrl ?s))"
    unfolding get_tls_event_def runs_andthen runs_print Let_def s(2)
    by (rule runs_request) (use idle s in auto)
  with s have event: "runs (run_ctrl_event L (poller_client L T get_closures) (of_tls poller 0 g) what) s
      (\<lambda>_. requested g (FetchDoneTls poller) (printed @ ''ssl... ok'' @ newline) n c)"
    by (simp add: run_ctrl_event_def poller_client_def get_user_def)
  show ?thesis
    by (rule net.runs_event [OF b(1,2)], unfold b(3) option.case, rule event, rule requested_ignored, assumption+,
        rule requested_bev, assumption)
qed

lemma runs_onion_get_ssl:
  fixes s :: "(get_clo poller_cb, 'w, 'z) main_st_scheme"
  assumes "endpoint_ok" and "3 \<le> fuel" and "\<forall>n \<in> set ns. n < 1000 \<and> n \<noteq> 100" and "length ns < 5"
    and "parse_sockaddr_port L ''127.0.0.1:9050'' 128 = (NoError, sa, len)"
    and "wf_addr addr" and "concat xs = [CHR 0x05, CHR 0x00]" and "concat ys @ y = proxy_reply addr (hi, lo)"
    and "y \<noteq> ''''"
    and "tor_runs T (followed_by
      (followed_by (sets_network (next_bev s) False) (run_all (poll (next_bev s)) (ns @ [100])))
      (followed_by (makes_tls below S (Suc (next_bev s)) (Suc (Suc (next_bev s)))
          (proxy_grants L content net.handle (Suc (next_bev s)) ''130.192.16.172'' 443 xs ys y))
        (followed_by (net.handle (Suc (Suc (next_bev s))) (Event tls_what))
          (followed_by (document_over (Suc (Suc (next_bev s))) pieces what)
            (followed_by (sets_network (Suc (Suc (Suc (next_bev s)))) True) fire)))))"
  shows "runs (onion_get_ssl_main L S T fuel) s
    (\<lambda>_ t. stopped (world t) \<and>
       cout t = cout s @ ''enable... 250'' @ newline @ ''connecting to socks proxy...'' @ newline @
         ''proxy connect... 0'' @ newline @ ''ssl...'' @ newline @ ''ssl... ok'' @ newline @
         ''sendrecv done... '' @ newline @ ''disable... 250'' @ newline @ concat pieces @ newline)"
proof -
  let ?h = "Suc (next_bev s)" and ?g = "Suc (Suc (next_bev s))" and ?c = "Suc (next_ctrl s)" and ?b = "tor_base T"
  let ?p1 = "cout s @ ''enable... 250'' @ newline @ ''connecting to socks proxy...'' @ newline"
  let ?p2 = "?p1 @ ''proxy connect... 0'' @ newline @ ''ssl...'' @ newline"
  let ?p3 = "?p2 @ ''ssl... ok'' @ newline"
  let ?p4 = "?p3 @ ''sendrecv done... '' @ newline"
  have opens: "get_closures (EnableDoneTls poller 0) (VoidReply onion_status.OK) =
      get_enabled L S poller 443 (ProxyDoneTls poller 0) onion_status.OK" for poller
    by (simp add: get_user_def)
  have fetched: "get_eh_cb L T (FetchDoneTls ?b) NoArg =
      followed_by (print (''sendrecv done... '' @ newline)) (disable_tor L T (get_disabled_user L) ?b (DisableDoneTls ?b))"
    by (simp add: get_eh_cb_def get_fetched_tls_def)
  have off: "get_closures (DisableDoneTls ?b) (VoidReply onion_status.OK) =
      followed_by (print (''disable... 250'' @ newline)) (Onion_Poller.break_soon L ?b)"
    by (simp add: get_user_def get_disabled_tls_def show_statuses)
  have fuel2: "2 \<le> fuel" using assms(2) by simp
  have "runs (onion_get_ssl_main L S T fuel) s (\<lambda>_ t. stopped (world t) \<and>
      cout t = (?p4 @ ''disable... 250'' @ newline) @ concat pieces @ newline)"
    unfolding onion_get_ssl_main_def
  proof (rule runs_onion_main [OF assms(1-5) opens assms(10)], rule runs_seq [OF _ runs_seq [OF _ runs_seq]])
    fix t
    assume t: "shaking_hands ?h ?c ?p1 (ProxyDoneTls ?b 0) 443 t"
    then show "runs (makes_tls below S ?h ?g (proxy_grants L content net.handle ?h ''130.192.16.172'' 443 xs ys y)) t
        (\<lambda>_ u. bevs u ?h \<noteq> None \<and> securing ?g ?b ?p2 (Suc ?g) ?c u)"
      using runs_get_granted_tls [where h = ?h and s = t and poller = ?b, OF _ _ _ assms(6-9)]
      by (auto simp: shaking_hands_def)
  next
    fix u
    assume "bevs u ?h \<noteq> None \<and> securing ?g ?b ?p2 (Suc ?g) ?c u"
    then have "securing ?g ?b ?p2 (Suc ?g) ?c u" by simp
    from runs_get_secured [OF this]
    show "runs (net.handle ?g (Event tls_what)) u (\<lambda>_. requested ?g (FetchDoneTls ?b) ?p3 (Suc ?g) ?c)" by simp
  next
    fix u
    assume "requested ?g (FetchDoneTls ?b) ?p3 (Suc ?g) ?c u"
    from runs_fetched [OF this assms(1) fetched]
    show "runs (document_over ?g pieces what) u
        (\<lambda>_. going_off ?c (Suc ?g) (DisableDoneTls ?b) (concat pieces) ?p4)" by simp
  next
    fix u
    assume "going_off ?c (Suc ?g) (DisableDoneTls ?b) (concat pieces) ?p4 u"
    from runs_get_off [OF this fuel2 off]
    show "runs (followed_by (sets_network (Suc ?g) True) fire) u
        (\<lambda>_ v. stopped (world v) \<and> strings v 0 = concat pieces \<and> cout v = ?p4 @ ''disable... 250'' @ newline)" .
  qed
  then show ?thesis by simp
qed

end

end
