(* ===== verification/Tor_Get_Props.thy ===== *)
theory Tor_Get_Props
  imports Tor_Get_Session Evhelpers_Props
begin

text \<open>
  Whole runs of \<open>example/tor/onion-poller-get.cpp\<close> and \<open>onion-poller-get-ssl.cpp\<close>, from \<open>main\<close> to the end of
  the loop of tor and the last line that is printed.
\<close>

section \<open>What happens in the loop of tor\<close>

abbreviation get_client ::
  "'w libevent \<Rightarrow> 'w sys \<Rightarrow> (get_clo, 'w, 'z main_st_ext) libtor \<Rightarrow> nat \<Rightarrow> (get_clo poller_cb, 'w, 'z main_st_ext) oc_client"
where
  "get_client L S T fuel \<equiv> poller_client L T (get_user L S T fuel)"

abbreviation get_net ::
  "'w libevent \<Rightarrow> (cptr \<Rightarrow> string \<Rightarrow> 'w \<Rightarrow> 'w) \<Rightarrow> (cptr \<Rightarrow> 'w \<Rightarrow> 'w) \<Rightarrow>
   (nat \<Rightarrow> (get_clo poller_cb, 'w, 'z main_st_ext) ocst_scheme \<Rightarrow> bool) \<Rightarrow> 'w sys \<Rightarrow>
   (get_clo, 'w, 'z main_st_ext) libtor \<Rightarrow> nat \<Rightarrow> nat \<Rightarrow> event \<Rightarrow> ('w, 'z, unit) get_prog"
where
  "get_net L arrive flush unique S T fuel \<equiv>
     deliver L arrive flush unique (run_ctrl_clo L (get_client L S T fuel) fuel) (run_ctrl_event L (get_client L S T fuel))"

text \<open>Over the connection \<open>h\<close> of a controller, tor goes on-line after the polls \<open>ns\<close> and the one after them.\<close>

abbreviation tor_online ::
  "'w libevent \<Rightarrow> ('w \<Rightarrow> cptr \<Rightarrow> string) \<Rightarrow> (cptr \<Rightarrow> string \<Rightarrow> 'w \<Rightarrow> 'w) \<Rightarrow> (cptr \<Rightarrow> 'w \<Rightarrow> 'w) \<Rightarrow>
   (nat \<Rightarrow> (get_clo poller_cb, 'w, 'z main_st_ext) ocst_scheme \<Rightarrow> bool) \<Rightarrow> 'w sys \<Rightarrow>
   (get_clo, 'w, 'z main_st_ext) libtor \<Rightarrow> nat \<Rightarrow> nat \<Rightarrow> nat list \<Rightarrow> ('w, 'z, unit) get_prog"
where
  "tor_online L content arrive flush unique S T fuel h ns \<equiv>
     followed_by (setting_network L content arrive flush unique (get_client L S T fuel) fuel h False)
       (run_all (phase_poll L content arrive flush unique (get_client L S T fuel) fuel h) (ns @ [100]))"

text \<open>Over that of another, tor is taken off-line; then the timer set last fires.\<close>

abbreviation tor_offline ::
  "'w libevent \<Rightarrow> ('w \<Rightarrow> cptr \<Rightarrow> string) \<Rightarrow> (cptr \<Rightarrow> string \<Rightarrow> 'w \<Rightarrow> 'w) \<Rightarrow> (cptr \<Rightarrow> 'w \<Rightarrow> 'w) \<Rightarrow>
   (nat \<Rightarrow> (get_clo poller_cb, 'w, 'z main_st_ext) ocst_scheme \<Rightarrow> bool) \<Rightarrow> 'w sys \<Rightarrow>
   (get_clo, 'w, 'z main_st_ext) libtor \<Rightarrow> nat \<Rightarrow> nat \<Rightarrow> ('w, 'z, unit) get_prog"
where
  "tor_offline L content arrive flush unique S T fuel h \<equiv>
     followed_by (setting_network L content arrive flush unique (get_client L S T fuel) fuel h True)
       (timer_fires L unique (get_client L S T fuel))"

text \<open>Over the connection \<open>h\<close> the server reads the request and answers it in pieces, and the connection ends.\<close>

abbreviation request_answered ::
  "'w libevent \<Rightarrow> ('w \<Rightarrow> cptr \<Rightarrow> string) \<Rightarrow> (nat \<Rightarrow> event \<Rightarrow> ('w, 'z, unit) get_prog) \<Rightarrow> nat \<Rightarrow> string list \<Rightarrow> u16 \<Rightarrow>
   ('w, 'z, unit) get_prog"
where
  "request_answered L content netw h pieces what \<equiv> followed_by (peer_reads L content netw h robots_request)
     (followed_by (run_all (netw h) (map Readable pieces)) (netw h (Event what)))"

section \<open>The simulated library\<close>

text \<open>A bufferevent is referred to by a controller, or by the closures it has.\<close>

definition get_unique :: "nat \<Rightarrow> (get_clo poller_cb, simw, 'z main_st_ext) ocst_scheme \<Rightarrow> bool" where
  "get_unique h s \<longleftrightarrow> ctrl_unique h s \<and> eh_unique h s"

lemma get_unique_counts: "counts_refs get_unique"
  using ctrl_unique_counts by (auto simp: counts_refs_def get_unique_def)

interpretation sim_transfer_3: transfer_api sim_libevent sim_content sim_arrive sim_flush "\<lambda>_ _. []" 3
  by (rule sim_transfer_api) simp

interpretation sim_get: tor_get_tls sim_libevent sim_content sim_arrive sim_flush "\<lambda>_ _. []" 3 demo_sys
  "stopping_tor events" get_unique "\<lambda>w. sim_onces w = [7]" sim_below for events
  by (unfold_locales; (rule sim_filter_new sim_below_frame(1) | erule sim_below_frame(2,3)
    | auto simp: demo_sys_def get_unique_counts get_unique_def eh_unique_def stopping_tor_def runs_lib sim_content_def
        sim_chain_def fun_eq_iff intro!: exI [of _ "_\<lparr>sim_onces := [7]\<rparr>"]))

definition demo_get :: "(get_clo poller_cb, simw) main_st" where
  "demo_get = \<lparr>world = sim_empty, bevs = Map.empty, next_bev = 0, onces = Map.empty,
     next_once = 0, strings = (\<lambda>_. ''''), flags = (\<lambda>_. False), verbose = False, clog = '''',
     ssl_singleton = None, ctrls = Map.empty, next_ctrl = 0, results = (\<lambda>_. ''''), next_result = 0,
     expecteds = (\<lambda>_. onion_status.OK), next_expected = 0, cout = ''''\<rparr>"

lemma demo_get_simps: "next_bev demo_get = 0" "cout demo_get = ''''"
  by (simp_all add: demo_get_def)

lemma get_user_cong:
  assumes "tor_break_loop T = tor_break_loop T'"
  shows "get_user L S T = get_user L S T'"
proof -
  have "get_eh_cb L T = get_eh_cb L T'"
    by (intro ext) (simp add: get_eh_cb_def get_fetched_def get_fetched_tls_def disable_tor_def
        poller_client_cong [OF assms] split: get_cb.split eh_arg.split)
  then show ?thesis
    by (intro ext) (simp add: get_user_def split: get_clo.split reply.split)
qed

lemma get_client_cong: "tor_break_loop T = tor_break_loop T' \<Longrightarrow> get_client L S T fuel = get_client L S T' fuel"
  by (simp only: poller_client_cong [of T T'] get_user_cong [of T T'])

text \<open>The events of one run of each program: phases 10 and 100, and a document in two pieces.\<close>

definition get_events :: "(get_clo, simw, unit main_st_ext) libtor \<Rightarrow> (simw, unit, unit) get_prog" where
  "get_events T = followed_by (tor_online sim_libevent sim_content sim_arrive sim_flush get_unique demo_sys T 3 0 [10])
     (followed_by (proxy_grants sim_libevent sim_content (get_net sim_libevent sim_arrive sim_flush get_unique demo_sys T 3)
         (Suc 0) ''130.192.16.172'' 80 [[CHR 0x05, CHR 0x00]] [[CHR 0x05]]
         [CHR 0x00, CHR 0x00, CHR 0x01, CHR ''a'', CHR ''b'', CHR ''c'', CHR ''d'', CHR ''1'', CHR ''2''])
       (followed_by (request_answered sim_libevent sim_content
           (get_net sim_libevent sim_arrive sim_flush get_unique demo_sys T 3) (Suc 0) [''he'', ''llo''] 16)
         (tor_offline sim_libevent sim_content sim_arrive sim_flush get_unique demo_sys T 3 (Suc (Suc 0)))))"

definition get_ssl_events :: "(get_clo, simw, unit main_st_ext) libtor \<Rightarrow> (simw, unit, unit) get_prog" where
  "get_ssl_events T = followed_by (tor_online sim_libevent sim_content sim_arrive sim_flush get_unique demo_sys T 3 0 [10])
     (followed_by (makes_tls sim_below demo_sys (Suc 0) (Suc (Suc 0))
         (proxy_grants sim_libevent sim_content (get_net sim_libevent sim_arrive sim_flush get_unique demo_sys T 3)
           (Suc 0) ''130.192.16.172'' 443 [[CHR 0x05, CHR 0x00]] [[CHR 0x05]]
           [CHR 0x00, CHR 0x00, CHR 0x01, CHR ''a'', CHR ''b'', CHR ''c'', CHR ''d'', CHR ''1'', CHR ''2'']))
       (followed_by (get_net sim_libevent sim_arrive sim_flush get_unique demo_sys T 3 (Suc (Suc 0)) (Event 32))
         (followed_by (request_answered sim_libevent sim_content
             (get_net sim_libevent sim_arrive sim_flush get_unique demo_sys T 3) (Suc (Suc 0)) [''he'', ''llo''] 16)
           (tor_offline sim_libevent sim_content sim_arrive sim_flush get_unique demo_sys T 3 (Suc (Suc (Suc 0)))))))"

lemma get_events_cong:
  assumes "tor_break_loop T = tor_break_loop T'"
  shows "get_events T = get_events T'" and "get_ssl_events T = get_ssl_events T'"
  unfolding get_events_def get_ssl_events_def get_client_cong [OF assms] by (rule refl)+

text \<open>A tor whose loop consists of the events of a program that it runs itself.\<close>

abbreviation demo_tor ::
  "((get_clo, simw, unit main_st_ext) libtor \<Rightarrow> (simw, unit, unit) get_prog) \<Rightarrow> (get_clo, simw, unit main_st_ext) libtor"
where
  "demo_tor events \<equiv> stopping_tor (events (stopping_tor (ret ())))"

lemma demo_tor_runs:
  assumes "\<And>T T'. tor_break_loop T = tor_break_loop T' \<Longrightarrow> events T = events T'"
  shows "tor_runs (demo_tor events) (events (demo_tor events))"
proof -
  have "events (stopping_tor (ret ())) = events (demo_tor events)"
    by (rule assms) (simp add: stopping_tor_def)
  then show ?thesis using stopping_tor_runs by metis
qed

lemma demo_proxy:
  "parse_sockaddr_port sim_libevent ''127.0.0.1:9050'' 128 = (NoError, ''127.0.0.1:9050'', 128)"
  "wf_addr (Ipv4 ''abcd'')" "concat [[CHR 0x05, CHR 0x00]] = [CHR 0x05, CHR 0x00]"
  "concat [[CHR 0x05]] @ [CHR 0x00, CHR 0x00, CHR 0x01, CHR ''a'', CHR ''b'', CHR ''c'', CHR ''d'', CHR ''1'', CHR ''2''] =
     proxy_reply (Ipv4 ''abcd'') (CHR ''1'', CHR ''2'')"
  "[CHR 0x00, CHR 0x00, CHR 0x01, CHR ''a'', CHR ''b'', CHR ''c'', CHR ''d'', CHR ''1'', CHR ''2''] \<noteq> ''''"
  by (simp_all add: parse_sockaddr_port_def sim_libevent_def c_str_def)

lemma demo_phases: "\<forall>n \<in> set [10]. n < 1000 \<and> n \<noteq> (100 :: nat)" "length [10 :: nat] < 5"
  by simp_all

section \<open>Properties\<close>

text \<open>
  C16: The program that asks for a document over tor, from \<open>main\<close> to its end.  tor accepts the commands on both
  control connections and reports phase 100 at the fifth poll at the latest; the proxy grants the
  connection, whatever address it reports (an IPv4 or IPv6 address, or a domain name of less than 128 bytes)
  and in whatever pieces it replies; the server answers in any pieces.  Then the proxy reads exactly the greeting and the request for the host, the server exactly
  the request for the document, the program prints four lines, with the statuses 250, 0 and 250, and
  everything the server sent, and tor is told to leave its loop.
\<close>

theorem onion_get_program:
  fixes s :: "(get_clo poller_cb, 'w, 'z) main_st_scheme" and T :: "(get_clo, 'w, 'z main_st_ext) libtor"
  assumes "tor_get L content arrive flush ssl_pending fuel T unique stopped" and "local_endpoint_parses L" and "3 \<le> fuel"
    and "\<forall>n \<in> set ns. n < 1000 \<and> n \<noteq> 100" and "length ns < 5"
    and "parse_sockaddr_port L ''127.0.0.1:9050'' 128 = (NoError, sa, len)"
    and "wf_addr addr" and "concat xs = [CHR 0x05, CHR 0x00]" and "concat ys @ y = proxy_reply addr (hi, lo)"
    and "y \<noteq> ''''"
    and "netw = get_net L arrive flush unique S T fuel"
    and "tor_runs T (followed_by (tor_online L content arrive flush unique S T fuel (next_bev s) ns)
      (followed_by (proxy_grants L content netw (Suc (next_bev s)) ''130.192.16.172'' 80 xs ys y)
        (followed_by (request_answered L content netw (Suc (next_bev s)) pieces what)
          (tor_offline L content arrive flush unique S T fuel (Suc (Suc (next_bev s)))))))"
  shows "runs (onion_get_main L S T fuel) s
    (\<lambda>_ t. stopped (world t) \<and>
       cout t = cout s @ ''enable... 250'' @ newline @ ''connecting to socks proxy...'' @ newline @
         ''proxy connect... 0'' @ newline @ ''disable: 250'' @ newline @ concat pieces @ newline)"
  by (rule tor_get.runs_onion_get [OF assms(1-10) assms(12) [unfolded assms(11)]])

theorem onion_get_program_witness:
  "runs (onion_get_main sim_libevent demo_sys (demo_tor get_events) 3) demo_get
    (\<lambda>_ t. cout t = ''enable... 250'' @ newline @ ''connecting to socks proxy...'' @ newline @
         ''proxy connect... 0'' @ newline @ ''disable: 250'' @ newline @ ''hello'' @ newline)"
proof -
  have "tor_runs (demo_tor get_events) (get_events (demo_tor get_events))"
    by (rule demo_tor_runs) (rule get_events_cong(1))
  note tor = this [unfolded get_events_def [of "demo_tor get_events"]]
  note r = onion_get_program [OF sim_get.tor_get_axioms sim_endpoint_parses le_refl demo_phases demo_proxy refl,
      where s = demo_get and pieces = "[''he'', ''llo'']" and what = 16, unfolded demo_get_simps, OF tor]
  show ?thesis by (rule runs_mono [OF r]) simp
qed

text \<open>
  C5: The same over TLS.  When the proxy has granted the connection, a TLS filter has been put around the C
  bufferevent over which the proxy was asked, with an SSL object made in the program's context
  (\<open>makes_tls\<close>).  Whatever the event of the TLS connection, connected or not, the program prints that TLS is
  there and sends the request over the filter; then what the server sends over it is printed, after seven
  lines on what was done.
\<close>

theorem onion_get_ssl_program:
  fixes s :: "(get_clo poller_cb, 'w, 'z) main_st_scheme" and T :: "(get_clo, 'w, 'z main_st_ext) libtor"
  assumes "tor_get_tls L content arrive flush ssl_pending fuel S T unique stopped below" and "local_endpoint_parses L"
    and "3 \<le> fuel" and "\<forall>n \<in> set ns. n < 1000 \<and> n \<noteq> 100" and "length ns < 5"
    and "parse_sockaddr_port L ''127.0.0.1:9050'' 128 = (NoError, sa, len)"
    and "wf_addr addr" and "concat xs = [CHR 0x05, CHR 0x00]" and "concat ys @ y = proxy_reply addr (hi, lo)"
    and "y \<noteq> ''''"
    and "netw = get_net L arrive flush unique S T fuel"
    and "tor_runs T (followed_by (tor_online L content arrive flush unique S T fuel (next_bev s) ns)
      (followed_by (makes_tls below S (Suc (next_bev s)) (Suc (Suc (next_bev s)))
          (proxy_grants L content netw (Suc (next_bev s)) ''130.192.16.172'' 443 xs ys y))
        (followed_by (netw (Suc (Suc (next_bev s))) (Event tls_what))
          (followed_by (request_answered L content netw (Suc (Suc (next_bev s))) pieces what)
            (tor_offline L content arrive flush unique S T fuel (Suc (Suc (Suc (next_bev s)))))))))"
  shows "runs (onion_get_ssl_main L S T fuel) s
    (\<lambda>_ t. stopped (world t) \<and>
       cout t = cout s @ ''enable... 250'' @ newline @ ''connecting to socks proxy...'' @ newline @
         ''proxy connect... 0'' @ newline @ ''ssl...'' @ newline @ ''ssl... ok'' @ newline @
         ''sendrecv done... '' @ newline @ ''disable... 250'' @ newline @ concat pieces @ newline)"
  by (rule tor_get_tls.runs_onion_get_ssl [OF assms(1-10) assms(12) [unfolded assms(11)]])

theorem onion_get_ssl_program_witness:
  "runs (onion_get_ssl_main sim_libevent demo_sys (demo_tor get_ssl_events) 3) demo_get
    (\<lambda>_ t. cout t = ''enable... 250'' @ newline @ ''connecting to socks proxy...'' @ newline @
         ''proxy connect... 0'' @ newline @ ''ssl...'' @ newline @ ''ssl... ok'' @ newline @
         ''sendrecv done... '' @ newline @ ''disable... 250'' @ newline @ ''hello'' @ newline)"
proof -
  have "tor_runs (demo_tor get_ssl_events) (get_ssl_events (demo_tor get_ssl_events))"
    by (rule demo_tor_runs) (rule get_events_cong(2))
  note tor = this [unfolded get_ssl_events_def [of "demo_tor get_ssl_events"]]
  note r = onion_get_ssl_program [OF sim_get.tor_get_tls_axioms sim_endpoint_parses le_refl demo_phases demo_proxy refl,
      where s = demo_get and pieces = "[''he'', ''llo'']" and what = 16, unfolded demo_get_simps, OF tor]
  show ?thesis by (rule runs_mono [OF r]) simp
qed

end
