(* ===== verification/Spec2Isabelle.thy ===== *)
theory Spec2Isabelle
  imports Onion_Props Socks_Props Poller_Props Data_Props Object_Props Lifecycle_Props
    Http_Props Evhelpers_Props Echo_Props Ctrl_Programs_Props Poller_Programs_Props
    Evhelpers_Programs_Props Object_Program Socks_Programs_Props Tor_Get_Props
begin

text \<open>
  A model of the experimental Tor module of measurement-kit (\<open>mkok-experimental-tor\<close>), a C++ library
  of callback-driven classes over libevent, and the theorems that make it correct.

  \<^bold>\<open>The program.\<close>  \<open>src/common/libevent.hpp\<close> wraps libevent: \<open>EventBase\<close> (the loop and its
  timers), \<open>Evbuffer\<close> (chains of bytes) and \<open>Bufferevent\<close> (a connection with an input and an output
  buffer and three callbacks); \<open>libevent.cpp\<close> has the C callbacks, which run the C++ closures and
  delete objects nobody refers to.  \<open>src/tor/onion-ctrl.hpp\<close> talks to tor over its control port
  through a \<open>Bufferevent\<close>; \<open>src/tor/onion-poller.hpp\<close> uses it to bring tor on-line and to wait for a
  circuit.  \<open>src/net/socks.hpp\<close> connects through a SOCKS5 proxy.  \<open>src/common/evhelpers.hpp\<close> are
  helpers that transfer a request and its reply; \<open>src/http/http-parser.hpp\<close> wraps the C library
  http-parser; \<open>common/object.hpp\<close> and \<open>object.cpp\<close> are a dynamically typed value.  \<open>error.hpp\<close>,
  \<open>maybe.hpp\<close>, \<open>var.hpp\<close> and \<open>func.hpp\<close> are the error classes and small wrappers all of them use.

  \<^bold>\<open>The style of the model.\<close>  An operation is a function from a state to an outcome (a value, an
  exception, or running on for ever) and a new state (\<open>Prelude\<close>).  A \<open>Var\<close> is the address of an object
  in a store of the state.  A lambda expression is a constructor of a datatype with the variables it
  captures, one datatype per file (\<open>ctrl_clo\<close>, \<open>socks_clo\<close>, \<open>poller_cb\<close>, \<open>eh_clo\<close>, \<open>echo_clo\<close>), and a
  \<open>run_\<close> function says what calling it does.  Callbacks of the user are values of a type variable,
  run by an argument \<open>client\<close>, so that theorems hold for any user; where a theorem speaks of the calls
  made, the client is one that notes them (\<open>passive_client\<close> and its counterparts).  Branches with
  undefined behaviour in C++ (a dangling pointer, a null pointer) raise \<open>UndefinedBehaviour\<close>.
  The functions of \<open>Socks\<close> and \<open>evhelpers\<close> that install closures take as \<open>clo\<close> the way in which the closures of
  the class are part of those of the program, and \<open>run\<close> and \<open>run_event\<close> of the program run them all: what is
  proved of a class holds in every program that uses it (locale \<open>dispatching\<close>).  A client of the poller
  gives its own closures through \<open>UserClo\<close>, and the state of \<open>OnionCtrl\<close> extends that of the helpers.
  Machine integers are words where their width matters.  \<open>runs m s P\<close> says that \<open>m\<close> returns, and
  then \<open>P\<close>: it is total correctness.

  \<^bold>\<open>Parameters.\<close>  libevent is a record of functions on an abstract world (\<open>Libevent_Api\<close>); the locales
  \<open>evbuffer_api\<close>, \<open>bufferevent_api\<close>, \<open>event_env\<close>, \<open>transfer_api\<close> and \<open>callback_api\<close> state its documented
  behaviour, and \<open>Libevent_Sim\<close> is an implementation with which all of them are interpreted and on
  which the witnesses run.  tor as a library (\<open>libtor\<close>), http-parser (\<open>http_lib\<close>), OpenSSL and POSIX
  (\<open>sys\<close>, \<open>socket_io\<close>) and reading a file are parameters in the same way.  Whether a \<open>Var\<close> is the last
  reference is the argument \<open>unique\<close>.  What libevent and OpenSSL tell of a bufferevent,
  \<open>bufferevent_get_underlying\<close> and \<open>bufferevent_openssl_get_ssl\<close>, is the parameter \<open>below\<close> of \<open>tls_api\<close>: a
  filter made for connecting has below it the bufferevent and the SSL object it was made from, and
  setting callbacks, disabling and timers (\<open>tuned\<close>) do not change that.  \<open>makes_tls\<close> states, in the theorems
  on programs that use TLS, that the filter the request goes over is one around the connection.

  \<^bold>\<open>What the peers see.\<close>  In the theorems on whole conversations the peer reads what was sent before it
  answers: \<open>setting_network\<close>, \<open>phase_poll\<close> and \<open>line_asked\<close> (tor, the exact commands), \<open>proxy_grants\<close> (the
  proxy, the exact greeting and request), \<open>request_answered\<close>, \<open>document_sent\<close> and \<open>answers\<close> (the server, the
  exact request).  A conversation in which something else was sent does not return in the model, so that the theorem
  would not hold.  The address the proxy reports is an IPv4 or IPv6 address or a domain name of less than 128
  bytes (\<open>wf_addr\<close>); what the code does with longer names is \<open>long_domain_reply\<close>.

  \<^bold>\<open>Theories, code, and what is proved.\<close>
  \<^item> \<open>Prelude\<close>, \<open>Cxx_String\<close>: programs, total correctness, the functions of \<open>std::string\<close> and C the code uses.
  \<^item> \<open>Errors\<close>, \<open>Wrappers\<close>: \<open>error.hpp\<close>, \<open>http/error.hpp\<close>, \<open>maybe.hpp\<close>, \<open>var.hpp\<close>, \<open>func.hpp\<close>.
  \<^item> \<open>Libevent_Api\<close>, \<open>Evbuffer\<close>, \<open>Bufferevent\<close>, \<open>Libevent_Sim\<close>, \<open>Events\<close>: \<open>libevent.hpp\<close>, the C callbacks of
    \<open>libevent.cpp\<close>, and what libevent does to a connection: bytes arrive, output is sent, an event.
  \<^item> \<open>Lifecycle\<close>, \<open>Lifecycle_Props\<close>: the life of a \<open>Bufferevent\<close>.  The steps of the event loop are a relation
    \<open>life_step\<close>; \<open>memory_safe\<close> is invariant under it, for the code of the controller with any client
    that keeps objects and for the code of the poller; no callback runs on a deleted object and none
    is deleted twice; an object no longer referred to is deleted.
  \<^item> \<open>Onion_Parse\<close>, \<open>Onion_Ctrl\<close>: \<open>onion-ctrl.hpp\<close>, its functions on strings and its operations.
    \<open>Onion_Stream\<close> has the specification of a reply stream as a function of the bytes received,
    \<open>Onion_Recv\<close> the proof that the receive loop computes it, \<open>Onion_Lines\<close>, \<open>Onion_Session\<close> and
    \<open>Onion_Exchange\<close> what the closures do with lines, and commands with their replies.  \<open>Onion_Props\<close>: how the lines of replies are cut into
    reads does not matter, for malformed lines it does (\<open>malformed_line_stalls\<close>); each command makes its call, with the value tor sent; errors are reported once;
    what a closed or late connection does.
  \<^item> \<open>Onion_Poller\<close>, \<open>Poller_Session\<close>, \<open>Poller_Props\<close>: \<open>onion-poller.hpp\<close>; success, time-out and failure of
    \<open>enable_tor\<close>, over any number of polls.
  \<^item> \<open>Socks\<close>, \<open>Socks_Session\<close>, \<open>Socks_Replies\<close>, \<open>Socks_Props\<close>: \<open>socks.hpp\<close>; the closures refine an automaton on
    bytes, which calls the client at most once.  The locale \<open>socks_calls\<close> is the contract for a client of any
    kind, \<open>socks_session\<close> the one for a client that notes its calls.
  \<^item> \<open>Helper_State\<close>, \<open>Evhelpers\<close>, \<open>Evhelpers_Session\<close>, \<open>Fetching\<close>, \<open>Evhelpers_Props\<close>: \<open>evhelpers.hpp\<close>; a transfer refines an
    automaton, collects all bytes and makes one call.  The locales are \<open>eh_calls\<close> (any client),
    \<open>eh_session\<close>, \<open>fetching\<close> (a request, its answer, the end of the loop) and \<open>tls_api\<close>.
  \<^item> \<open>Http_Parser\<close>, \<open>Http_Props\<close>: \<open>http-parser.hpp\<close>; the dispatch of events to closures, which may clear the
    parser, and the exceptions.
  \<^item> \<open>Std_Order\<close>, \<open>Object_Model\<close>, \<open>Object_Order\<close>, \<open>Object_Props\<close>: \<open>object.hpp\<close> and \<open>object.cpp\<close>; the comparison as a
    strict weak order, dictionaries, the lazy switch.  Doubles are IEEE 754 encodings.
  \<^item> \<open>Data_Props\<close>: the functions on data, bytes and texts.
  \<^item> \<open>Stdout\<close>, \<open>Ctrl_Programs\<close>, \<open>Ctrl_Programs_Session\<close>, \<open>Ctrl_Programs_Props\<close>: the programs
    \<open>example/tor/onion-ctrl-*.cpp\<close>, from the options to the end of the event loop, with what they print.
  \<^item> \<open>Poller_Programs\<close>, \<open>Poller_Programs_Props\<close>: \<open>example/tor/onion-poller-stop.cpp\<close> and
    \<open>onion-poller-enable-disable.cpp\<close>, over whole runs of tor.
  \<^item> \<open>Evhelpers_Programs\<close>, \<open>Evhelpers_Programs_Session\<close>, \<open>Evhelpers_Programs_Props\<close>: the programs
    \<open>example/common/evhelpers-bufferevent-*.cpp\<close>, over TCP and TLS, and the echo server.
  \<^item> \<open>Socks_Programs\<close>, \<open>Socks_Programs_Session\<close>, \<open>Socks_Programs_Props\<close>: \<open>example/net/socks-get.cpp\<close> and
    \<open>socks-get-ssl.cpp\<close>, in which \<open>Socks\<close> makes the connection that \<open>evhelpers\<close> then uses, over TCP and TLS.
  \<^item> \<open>Tor_Get\<close>, \<open>Tor_Get_Session\<close>, \<open>Tor_Get_Props\<close>: \<open>example/tor/onion-poller-get.cpp\<close> and
    \<open>onion-poller-get-ssl.cpp\<close>, in which the poller, the proxy handshake, TLS and a transfer work together;
    one state, and one datatype of closures (\<open>get_clo\<close>), for all of them.
  \<^item> \<open>Object_Program\<close>: \<open>example/common/object.cpp\<close>.
  \<^item> \<open>Listening\<close>, \<open>Echo\<close>, \<open>Echo_Props\<close>: \<open>example/common/evhelpers-event-echo.cpp\<close>, from \<open>main\<close> to every state
    its loop can reach, as a step relation; \<open>listening\<close> is the contract of a server, which both echo servers use.

  \<^bold>\<open>Fuel.\<close>  Two loops are not bounded by the code.  The receive loop of \<open>OnionCtrl::recv\<close> runs client code
  in each iteration; \<open>recv_loop_total\<close> shows that more fuel than bytes buffered is enough, for every
  client that does not change the buffer.  The loop that empties OpenSSL's queue of errors needs more
  fuel than there are errors queued (\<open>ssl_bounded\<close>).  Every other loop is structural recursion.

  \<^bold>\<open>Characters.\<close>  \<open>isdigit\<close> and \<open>isspace\<close> are total.  The code gives them a \<open>char\<close> that can be negative
  (\<open>onion-ctrl.hpp\<close>, lines 388, 454, 606 and 648, and \<open>socks.hpp\<close>, line 119), which the C standard leaves
  undefined; the model follows the C libraries in use, for which such a byte is neither.  Theorems on any bytes, such as
  \<open>poller_survives_any_reply\<close>, hold for those libraries.

  \<^bold>\<open>Not modelled.\<close>  What is printed by \<open>warn\<close> and \<open>warnx\<close>; allocation failure of C++ itself; threads (there
  are none); the mock class used by the tests; the macros of \<open>constraints.hpp\<close>, which have no run-time
  behaviour; the event loop
  itself, which is code of libevent: theorems speak of sequences of events instead.  The
  destructors of \<open>EventBase\<close> and \<open>Evbuffer\<close> objects are definitions, run where a scope ends, but the
  references to an \<open>EventBase\<close> are not counted.
\<close>

end
